theory Spec2Isabelle
  imports Main "HOL-Library.Word"
begin

unbundle bit_operations_syntax

section \<open>The ELF object writer of Subzero (IceELFObjectWriter.cpp)\<close>

text \<open>
  The writer is a C++ class that mutates sections through pointers and appends bytes to a
  stream. The embedding passes the writer's state explicitly, keeps the sections in an
  arena (a list; a section pointer is its index), and turns every failed \<open>assert\<close> and
  every \<open>llvm_unreachable\<close> into an error value.

  Sizes, offsets and counts are natural numbers: the model describes runs in which no such
  quantity leaves the range of its C++ type. Where the code narrows a value on purpose
  (the fields of the ELF header), the encoders below truncate as the code does.
\<close>

subsection \<open>Errors\<close>

datatype error = AssertionFailure string | Unreachable string

definition bindE :: "error + 'a \<Rightarrow> ('a \<Rightarrow> error + 'b) \<Rightarrow> error + 'b" where
  "bindE m f = (case m of Inl e \<Rightarrow> Inl e | Inr x \<Rightarrow> f x)"

definition assertE :: "bool \<Rightarrow> string \<Rightarrow> error + unit" where
  "assertE b msg = (if b then Inr () else Inl (AssertionFailure msg))"

subsection \<open>Bytes and little-endian encoding\<close>

type_synonym byte = "8 word"

fun le_bytes :: "nat \<Rightarrow> nat \<Rightarrow> byte list" where
  "le_bytes 0 v = []"
| "le_bytes (Suc n) v = of_nat (v mod 256) # le_bytes n (v div 256)"

fun le_value :: "byte list \<Rightarrow> nat" where
  "le_value [] = 0"
| "le_value (b # bs) = unat b + 256 * le_value bs"


subsection \<open>Constants of llvm::ELF (the generic ABI)\<close>

definition SHT_NULL :: nat where "SHT_NULL = 0"
definition SHT_PROGBITS :: nat where "SHT_PROGBITS = 1"
definition SHT_SYMTAB :: nat where "SHT_SYMTAB = 2"
definition SHT_STRTAB :: nat where "SHT_STRTAB = 3"
definition SHT_RELA :: nat where "SHT_RELA = 4"
definition SHT_NOBITS :: nat where "SHT_NOBITS = 8"
definition SHT_REL :: nat where "SHT_REL = 9"

definition SHF_ALLOC :: nat where "SHF_ALLOC = 2"
definition SHF_EXECINSTR :: nat where "SHF_EXECINSTR = 4"
definition SHF_MERGE :: nat where "SHF_MERGE = 16"

definition STB_LOCAL :: nat where "STB_LOCAL = 0"
definition STB_GLOBAL :: nat where "STB_GLOBAL = 1"
definition STT_NOTYPE :: nat where "STT_NOTYPE = 0"
definition STT_FUNC :: nat where "STT_FUNC = 2"

definition SHN_LORESERVE :: nat where "SHN_LORESERVE = 65280"

definition ET_REL :: nat where "ET_REL = 1"
definition EV_CURRENT :: nat where "EV_CURRENT = 1"
definition ELFCLASS32 :: nat where "ELFCLASS32 = 1"
definition ELFCLASS64 :: nat where "ELFCLASS64 = 2"
definition ELFDATA2LSB :: nat where "ELFDATA2LSB = 1"
definition ELFOSABI_NONE :: nat where "ELFOSABI_NONE = 0"
definition EI_NIDENT :: nat where "EI_NIDENT = 16"
definition EI_PAD :: nat where "EI_PAD = 9"

text \<open>\<open>ElfMagic\<close> is \<open>0x7f 'E' 'L' 'F'\<close>; \<open>strlen\<close> stops before its final NUL.\<close>

definition ElfMagic :: "byte list" where
  "ElfMagic = [127, 69, 76, 70]"

text \<open>The sizes fixed by the \<open>static_assert\<close>s of the source.\<close>

definition sizeof_Elf_Sym :: "bool \<Rightarrow> nat" where
  "sizeof_Elf_Sym IsELF64 = (if IsELF64 then 24 else 16)"

definition sizeof_Elf_Rel :: "bool \<Rightarrow> nat" where
  "sizeof_Elf_Rel IsELF64 = (if IsELF64 then 24 else 8)"

definition sizeof_Elf_Ehdr :: "bool \<Rightarrow> nat" where
  "sizeof_Elf_Ehdr IsELF64 = (if IsELF64 then 64 else 52)"

definition sizeof_Elf_Shdr :: "bool \<Rightarrow> nat" where
  "sizeof_Elf_Shdr IsELF64 = (if IsELF64 then 64 else 40)"

subsection \<open>ELFStreamer\<close>

text \<open>
  Modelled from the spec: the class ELFStreamer (IceELFStreamer.h is not among the
  sources). A seekable byte sink: \<open>tell\<close>, \<open>seek\<close>, \<open>writeBytes\<close>, the little-endian
  writers and \<open>writeZeroPadding\<close>. A write replaces the bytes at the current position
  and extends the file at its end; the writer seeks only to 0, never past the end. \<open>writeELFWord\<close> writes an ELF Word, four bytes in
  both classes, and \<open>writeELFXword\<close> and \<open>writeAddrOrOffset\<close> four or eight bytes: these
  are the widths of the generic ABI, for which the header has the \<open>e_ehsize\<close> of 52 or 64
  bytes that the source asserts.
\<close>

record ELFStreamer =
  Buffer :: "byte list"
  Offset :: nat

definition tell :: "ELFStreamer \<Rightarrow> nat" where
  "tell s = Offset s"


definition writeBytes :: "byte list \<Rightarrow> ELFStreamer \<Rightarrow> ELFStreamer" where
  "writeBytes bs s =
     \<lparr>Buffer = take (Offset s) (Buffer s) @ bs @ drop (Offset s + length bs) (Buffer s),
      Offset = Offset s + length bs\<rparr>"

definition write8 :: "nat \<Rightarrow> ELFStreamer \<Rightarrow> ELFStreamer" where
  "write8 v = writeBytes (le_bytes 1 v)"

definition writeLE16 :: "nat \<Rightarrow> ELFStreamer \<Rightarrow> ELFStreamer" where
  "writeLE16 v = writeBytes (le_bytes 2 v)"

definition writeLE32 :: "nat \<Rightarrow> ELFStreamer \<Rightarrow> ELFStreamer" where
  "writeLE32 v = writeBytes (le_bytes 4 v)"

definition writeLE64 :: "nat \<Rightarrow> ELFStreamer \<Rightarrow> ELFStreamer" where
  "writeLE64 v = writeBytes (le_bytes 8 v)"

definition writeZeroPadding :: "nat \<Rightarrow> ELFStreamer \<Rightarrow> ELFStreamer" where
  "writeZeroPadding n = writeBytes (replicate n 0)"

definition writeELFWord :: "bool \<Rightarrow> nat \<Rightarrow> ELFStreamer \<Rightarrow> ELFStreamer" where
  "writeELFWord IsELF64 v = writeLE32 v"

definition writeELFXword :: "bool \<Rightarrow> nat \<Rightarrow> ELFStreamer \<Rightarrow> ELFStreamer" where
  "writeELFXword IsELF64 v = (if IsELF64 then writeLE64 v else writeLE32 v)"

definition writeAddrOrOffset :: "bool \<Rightarrow> nat \<Rightarrow> ELFStreamer \<Rightarrow> ELFStreamer" where
  "writeAddrOrOffset IsELF64 v = (if IsELF64 then writeLE64 v else writeLE32 v)"

subsection \<open>String tables\<close>

text \<open>
  Modelled from the spec: the class ELFStringTableSection (IceELFSection.h/.cpp are not
  among the sources). \<open>add\<close> is idempotent; the laid-out blob is a leading NUL followed
  by every string with its final NUL, in insertion order; the empty string has index 0;
  \<open>getIndex\<close> is valid only after \<open>doLayout\<close> and only for a string that was added.
\<close>

record StringTable =
  Strings :: "string list"
  LaidOut :: bool

definition emptyStringTable :: StringTable where
  "emptyStringTable = \<lparr>Strings = [], LaidOut = False\<rparr>"

definition add :: "string \<Rightarrow> StringTable \<Rightarrow> StringTable" where
  "add s t = (if s \<in> set (Strings t) then t else t\<lparr>Strings := Strings t @ [s]\<rparr>)"


fun offsetOf :: "string \<Rightarrow> string list \<Rightarrow> nat \<Rightarrow> nat option" where
  "offsetOf s [] acc = None"
| "offsetOf s (x # xs) acc = (if x = s then Some acc else offsetOf s xs (acc + length x + 1))"

definition getIndex :: "string \<Rightarrow> StringTable \<Rightarrow> error + nat" where
  "getIndex s t =
     (if \<not> LaidOut t then Inl (AssertionFailure ''isLaidOut()'')
      else if s = [] then Inr 0
      else (case offsetOf s (Strings t) 1 of
              None \<Rightarrow> Inl (AssertionFailure ''string is in the table'')
            | Some i \<Rightarrow> Inr i))"


subsection \<open>Sections, fixups and symbols\<close>

text \<open>
  Modelled from the spec: the classes ELFSection, ELFTextSection, ELFDataSection and
  ELFRelocationSection, AssemblerFixup and the symbols of ELFSymbolTableSection
  (IceELFSection.h/.cpp and assembler.h are not among the sources). The class hierarchy
  is flattened into one record: every section has the header fields; \<open>RelatedSection\<close>
  and \<open>Fixups\<close> are the members of a relocation section. A fixup carries its offset, its
  relocation kind, the name of its target symbol and its addend.
\<close>

record AssemblerFixup =
  position :: nat
  kind :: nat
  symbol :: string
  addend :: int

record Assembler =
  getBufferView :: "byte list"
  fixups :: "AssemblerFixup list"

record ELFSection =
  Name :: string
  ShType :: nat
  ShFlags :: nat
  ShAddralign :: nat
  ShEntsize :: nat
  Number :: nat
  NameStrIndex :: nat
  FileOffset :: nat
  Size :: nat
  LinkNum :: nat
  InfoNum :: nat
  RelatedSection :: "nat option"
  Fixups :: "AssemblerFixup list"

definition newELFSection :: "string \<Rightarrow> nat \<Rightarrow> nat \<Rightarrow> nat \<Rightarrow> nat \<Rightarrow> ELFSection" where
  "newELFSection N T F A E =
     \<lparr>Name = N, ShType = T, ShFlags = F, ShAddralign = A, ShEntsize = E, Number = 0,
      NameStrIndex = 0, FileOffset = 0, Size = 0, LinkNum = 0, InfoNum = 0,
      RelatedSection = None, Fixups = []\<rparr>"

text \<open>\<open>addRelocations\<close> adjusts each fixup's offset by the base offset and appends it.\<close>

definition addRelocations :: "nat \<Rightarrow> AssemblerFixup list \<Rightarrow> ELFSection \<Rightarrow> ELFSection" where
  "addRelocations BaseOff FixupRefs S =
     S\<lparr>Fixups := Fixups S @ map (\<lambda>FR. FR\<lparr>position := BaseOff + position FR\<rparr>) FixupRefs\<rparr>"

record ELFSym =
  SymName :: string
  SymType :: nat
  SymBinding :: nat
  SymSection :: nat
  st_value :: nat
  st_size :: nat
  st_name :: nat

text \<open>
  The symbol table is an ordered list, the local symbols before all others: the two
  parts are kept apart, and the table is \<open>LocalSymbols\<close> followed by \<open>GlobalSymbols\<close>.
\<close>

record SymbolTable =
  LocalSymbols :: "ELFSym list"
  GlobalSymbols :: "ELFSym list"

definition allSymbols :: "SymbolTable \<Rightarrow> ELFSym list" where
  "allSymbols T = LocalSymbols T @ GlobalSymbols T"

definition getNumLocals :: "SymbolTable \<Rightarrow> nat" where
  "getNumLocals T = length (LocalSymbols T)"

definition newSym :: "string \<Rightarrow> nat \<Rightarrow> nat \<Rightarrow> nat \<Rightarrow> nat \<Rightarrow> nat \<Rightarrow> ELFSym" where
  "newSym N Ty B Sec Off Sz =
     \<lparr>SymName = N, SymType = Ty, SymBinding = B, SymSection = Sec, st_value = Off,
      st_size = Sz, st_name = 0\<rparr>"

definition tableCreateDefinedSym ::
  "string \<Rightarrow> nat \<Rightarrow> nat \<Rightarrow> nat \<Rightarrow> nat \<Rightarrow> nat \<Rightarrow> SymbolTable \<Rightarrow> SymbolTable" where
  "tableCreateDefinedSym N Ty B Sec Off Sz T =
     (if B = STB_LOCAL then T\<lparr>LocalSymbols := LocalSymbols T @ [newSym N Ty B Sec Off Sz]\<rparr>
      else T\<lparr>GlobalSymbols := GlobalSymbols T @ [newSym N Ty B Sec Off Sz]\<rparr>)"

subsection \<open>The global context\<close>

text \<open>
  The tables TARGETARCH_TABLE and ICETYPE_TABLE, the constants and their pools are
  declared outside the sources at hand. A target architecture is its index in the
  table \<open>ELFTargetInfo\<close>, which the context carries with its rows
  (is_elf64, e_machine, e_flags); \<open>TargetArch_NUM\<close> is the number of rows. A type is its
  row of the type table: a tag, its width and its alignment in bytes. A pooled constant
  has the label that \<open>emitPoolLabel\<close> prints and its value, a float or a double taken as
  its bit pattern.
\<close>

datatype Type = IceType (typeTag: string) (typeWidthInBytes: nat) (typeAlignInBytes: nat)

text \<open>Modelled from the spec: the rows of the two pool types, f32 and f64.\<close>

definition IceType_f32 :: Type where "IceType_f32 = IceType ''f32'' 4 4"
definition IceType_f64 :: Type where "IceType_f64 = IceType ''f64'' 8 8"

datatype Constant =
  ConstantFloat (poolLabel: string) "32 word"
| ConstantDouble (poolLabel: string) "64 word"

datatype ConstType = ConstantFloatT | ConstantDoubleT

definition sizeof_PrimType :: "ConstType \<Rightarrow> nat" where
  "sizeof_PrimType CT = (case CT of ConstantFloatT \<Rightarrow> 4 | ConstantDoubleT \<Rightarrow> 8)"

text \<open>
  \<open>llvm::cast<ConstType>(C)\<close> asserts the kind of the constant; the result is the object
  representation of its value (\<open>&Value\<close>), least significant byte first.
\<close>

definition castValueBytes :: "ConstType \<Rightarrow> Constant \<Rightarrow> error + byte list" where
  "castValueBytes CT C =
     (case (CT, C) of
        (ConstantFloatT, ConstantFloat l v) \<Rightarrow> Inr (le_bytes 4 (unat v))
      | (ConstantDoubleT, ConstantDouble l v) \<Rightarrow> Inr (le_bytes 8 (unat v))
      | _ \<Rightarrow> Inl (AssertionFailure ''isa<ConstType>(C)''))"

record GlobalContext =
  getTargetArch :: nat
  ELFTargetInfo :: "(bool \<times> nat \<times> nat) list"
  ConstantPools :: "(Type \<times> Constant list) list"

definition TargetArch_NUM :: "GlobalContext \<Rightarrow> nat" where
  "TargetArch_NUM C = length (ELFTargetInfo C)"

definition getConstantPool :: "GlobalContext \<Rightarrow> Type \<Rightarrow> Constant list" where
  "getConstantPool C Ty = (case map_of (ConstantPools C) Ty of None \<Rightarrow> [] | Some P \<Rightarrow> P)"

definition isELF64 :: "GlobalContext \<Rightarrow> error + bool" where
  "isELF64 C =
     (if getTargetArch C < TargetArch_NUM C then Inr (fst (ELFTargetInfo C ! getTargetArch C))
      else Inl (Unreachable ''Invalid target arch for isELF64''))"

definition getELFMachine :: "GlobalContext \<Rightarrow> error + nat" where
  "getELFMachine C =
     (if getTargetArch C < TargetArch_NUM C
      then Inr (fst (snd (ELFTargetInfo C ! getTargetArch C)))
      else Inl (Unreachable ''Invalid target arch for getELFMachine''))"

definition getELFFlags :: "GlobalContext \<Rightarrow> error + nat" where
  "getELFFlags C =
     (if getTargetArch C < TargetArch_NUM C
      then Inr (snd (snd (ELFTargetInfo C ! getTargetArch C)))
      else Inl (Unreachable ''Invalid target arch for getELFFlags''))"

subsection \<open>The writer\<close>

text \<open>
  The arena \<open>Sections\<close> holds every section the writer allocated; the buckets and the
  four bookkeeping members hold indices into it. The contents of the two string tables
  and of the symbol table are members of their own, since each exists once.
\<close>

record ELFObjectWriter =
  Ctx :: GlobalContext
  Str :: ELFStreamer
  SectionNumbersAssigned :: bool
  Sections :: "ELFSection list"
  TextSections :: "nat list"
  DataSections :: "nat list"
  RoDataSections :: "nat list"
  RelTextSections :: "nat list"
  RelDataSections :: "nat list"
  RelRoDataSections :: "nat list"
  NullSection :: nat
  ShStrTab :: nat
  SymTab :: nat
  StrTab :: nat
  ShStrTabData :: StringTable
  StrTabData :: StringTable
  SymTabData :: SymbolTable

definition getSection :: "ELFObjectWriter \<Rightarrow> nat \<Rightarrow> ELFSection" where
  "getSection W p = Sections W ! p"

definition updSection ::
  "nat \<Rightarrow> (ELFSection \<Rightarrow> ELFSection) \<Rightarrow> ELFObjectWriter \<Rightarrow> ELFObjectWriter" where
  "updSection p f W = W\<lparr>Sections := (Sections W)[p := f (Sections W ! p)]\<rparr>"

definition createDefinedSym ::
  "string \<Rightarrow> nat \<Rightarrow> nat \<Rightarrow> nat \<Rightarrow> nat \<Rightarrow> nat \<Rightarrow> ELFObjectWriter \<Rightarrow> ELFObjectWriter" where
  "createDefinedSym N Ty B Sec Off Sz W =
     W\<lparr>SymTabData := tableCreateDefinedSym N Ty B Sec Off Sz (SymTabData W)\<rparr>"

text \<open>\<open>createSection\<close>: allocate in the arena, register the name in .shstrtab.\<close>

definition createSection ::
  "string \<Rightarrow> nat \<Rightarrow> nat \<Rightarrow> nat \<Rightarrow> nat \<Rightarrow> ELFObjectWriter \<Rightarrow> error + (nat \<times> ELFObjectWriter)" where
  "createSection N ShT ShF ShA ShE W =
     bindE (assertE (\<not> SectionNumbersAssigned W) ''!SectionNumbersAssigned'') (\<lambda>_.
       Inr (length (Sections W),
            W\<lparr>Sections := Sections W @ [newELFSection N ShT ShF ShA ShE],
              ShStrTabData := add N (ShStrTabData W)\<rparr>))"

text \<open>
  The constructor. NullSection and ShStrTab are allocated directly, SymTab and StrTab
  through \<open>createSection\<close>; the members SymTab and StrTab are not yet set when the first
  of these calls runs (0 stands for the unset pointer). The stream \<open>Out\<close> is only stored.
\<close>

definition newELFObjectWriter :: "GlobalContext \<Rightarrow> ELFStreamer \<Rightarrow> error + ELFObjectWriter" where
  "newELFObjectWriter C Out =
     (let W0 = \<lparr>Ctx = C, Str = Out, SectionNumbersAssigned = False,
                Sections = [newELFSection [] SHT_NULL 0 0 0,
                            newELFSection ''.shstrtab'' SHT_STRTAB 0 1 0],
                TextSections = [], DataSections = [], RoDataSections = [],
                RelTextSections = [], RelDataSections = [], RelRoDataSections = [],
                NullSection = 0, ShStrTab = 1, SymTab = 0, StrTab = 0,
                ShStrTabData = add ''.shstrtab'' emptyStringTable,
                StrTabData = emptyStringTable,
                SymTabData = \<lparr>LocalSymbols = [], GlobalSymbols = []\<rparr>\<rparr>
      in bindE (isELF64 C) (\<lambda>IsELF64.
         bindE (createSection ''.symtab'' SHT_SYMTAB 0 (if IsELF64 then 8 else 4)
                  (sizeof_Elf_Sym IsELF64) W0) (\<lambda>(P, W1).
         let W2 = createDefinedSym [] STT_NOTYPE STB_LOCAL (NullSection W1) 0 0
                    (W1\<lparr>SymTab := P\<rparr>)
         in bindE (createSection ''.strtab'' SHT_STRTAB 0 1 0 W2) (\<lambda>(Q, W3).
              Inr (W3\<lparr>StrTab := Q\<rparr>)))))"

subsection \<open>Section numbers\<close>

definition setNumber :: "nat \<Rightarrow> ELFSection \<Rightarrow> ELFSection" where
  "setNumber N S = S\<lparr>Number := N\<rparr>"

definition setNameStrIndex :: "nat \<Rightarrow> ELFSection \<Rightarrow> ELFSection" where
  "setNameStrIndex N S = S\<lparr>NameStrIndex := N\<rparr>"

definition setInfoNum :: "nat \<Rightarrow> ELFSection \<Rightarrow> ELFSection" where
  "setInfoNum N S = S\<lparr>InfoNum := N\<rparr>"

definition setLinkNum :: "nat \<Rightarrow> ELFSection \<Rightarrow> ELFSection" where
  "setLinkNum N S = S\<lparr>LinkNum := N\<rparr>"

definition setFileOffset :: "nat \<Rightarrow> ELFSection \<Rightarrow> ELFSection" where
  "setFileOffset N S = S\<lparr>FileOffset := N\<rparr>"

definition setSize :: "nat \<Rightarrow> ELFSection \<Rightarrow> ELFSection" where
  "setSize N S = S\<lparr>Size := N\<rparr>"

definition setRelatedSection :: "nat \<Rightarrow> ELFSection \<Rightarrow> ELFSection" where
  "setRelatedSection P S = S\<lparr>RelatedSection := Some P\<rparr>"

text \<open>\<open>S->setNameStrIndex(ShStrTab->getIndex(S->getName()))\<close>\<close>

definition assignNameStrIndex :: "nat \<Rightarrow> ELFObjectWriter \<Rightarrow> error + ELFObjectWriter" where
  "assignNameStrIndex P W =
     bindE (getIndex (Name (getSection W P)) (ShStrTabData W)) (\<lambda>I.
       Inr (updSection P (setNameStrIndex I) W))"

text \<open>
  The loop of \<open>assignRelSectionNumInPairs\<close> over the user sections. Its state is the
  iterator \<open>RelIt\<close> (the relocation sections not yet passed), \<open>CurSectionNumber\<close>,
  \<open>AllSections\<close> and the writer.
\<close>

fun assignPairsLoop ::
  "nat list \<Rightarrow> nat list \<Rightarrow> nat \<Rightarrow> nat list \<Rightarrow> ELFObjectWriter
     \<Rightarrow> error + (nat list \<times> nat \<times> nat list \<times> ELFObjectWriter)" where
  "assignPairsLoop [] RelIt Cur AllS W = Inr (RelIt, Cur, AllS, W)"
| "assignPairsLoop (U # Us) RelIt Cur AllS W =
     (case assignNameStrIndex U (updSection U (setNumber Cur) W) of
        Inl e \<Rightarrow> Inl e
      | Inr W1 \<Rightarrow>
          (case RelIt of
             [] \<Rightarrow> assignPairsLoop Us RelIt (Cur + 1) (AllS @ [U]) W1
           | R # Rs \<Rightarrow>
               if RelatedSection (getSection W1 R) = Some U
               then (case assignNameStrIndex R
                            (updSection R (setNumber (Cur + 1))
                               (updSection R (setInfoNum (Number (getSection W1 U))) W1)) of
                       Inl e \<Rightarrow> Inl e
                     | Inr W2 \<Rightarrow> assignPairsLoop Us Rs (Cur + 2) (AllS @ [U, R]) W2)
               else assignPairsLoop Us RelIt (Cur + 1) (AllS @ [U]) W1))"

definition assignRelSectionNumInPairs ::
  "nat \<Rightarrow> nat list \<Rightarrow> nat list \<Rightarrow> nat list \<Rightarrow> ELFObjectWriter
     \<Rightarrow> error + (nat \<times> nat list \<times> ELFObjectWriter)" where
  "assignRelSectionNumInPairs Cur UserSections RelSections AllS W =
     bindE (assignPairsLoop UserSections RelSections Cur AllS W) (\<lambda>(RelIt, Cur', AllS', W').
     bindE (assertE (RelIt = []) ''RelIt == RelE'') (\<lambda>_.
       Inr (Cur', AllS', W')))"

definition assignRelLinkNum :: "nat \<Rightarrow> nat list \<Rightarrow> ELFObjectWriter \<Rightarrow> ELFObjectWriter" where
  "assignRelLinkNum SymTabNumber RelSections W =
     foldl (\<lambda>W' S. updSection S (setLinkNum SymTabNumber) W') W RelSections"

text \<open>One of the three bookkeeping sections at the end: number, name index, append.\<close>

definition assignBookkeeping ::
  "nat \<Rightarrow> nat \<Rightarrow> nat list \<Rightarrow> ELFObjectWriter \<Rightarrow> error + (nat \<times> nat list \<times> ELFObjectWriter)" where
  "assignBookkeeping P Cur AllS W =
     bindE (assignNameStrIndex P (updSection P (setNumber Cur) W)) (\<lambda>W'.
       Inr (Cur + 1, AllS @ [P], W'))"

definition assignSectionNumbersInfo ::
  "ELFObjectWriter \<Rightarrow> error + (nat list \<times> ELFObjectWriter)" where
  "assignSectionNumbersInfo W =
     bindE (assertE (\<not> SectionNumbersAssigned W) ''!SectionNumbersAssigned'') (\<lambda>_.
     let W0 = updSection (NullSection W) (setNumber 0) W in
     bindE (assignRelSectionNumInPairs 1 (TextSections W0) (RelTextSections W0)
              [NullSection W0] W0) (\<lambda>(Cur1, All1, W1).
     bindE (assignRelSectionNumInPairs Cur1 (DataSections W1) (RelDataSections W1)
              All1 W1) (\<lambda>(Cur2, All2, W2).
     bindE (assignRelSectionNumInPairs Cur2 (RoDataSections W2) (RelRoDataSections W2)
              All2 W2) (\<lambda>(Cur3, All3, W3).
     bindE (assignBookkeeping (ShStrTab W3) Cur3 All3 W3) (\<lambda>(Cur4, All4, W4).
     bindE (assignBookkeeping (SymTab W4) Cur4 All4 W4) (\<lambda>(Cur5, All5, W5).
     bindE (assignBookkeeping (StrTab W5) Cur5 All5 W5) (\<lambda>(Cur6, All6, W6).
     let W7 = updSection (SymTab W6) (setLinkNum (Number (getSection W6 (StrTab W6)))) W6;
         W8 = updSection (SymTab W7) (setInfoNum (getNumLocals (SymTabData W7))) W7;
         W9 = assignRelLinkNum (Number (getSection W8 (SymTab W8))) (RelTextSections W8) W8;
         W10 = assignRelLinkNum (Number (getSection W9 (SymTab W9))) (RelDataSections W9) W9;
         W11 = assignRelLinkNum (Number (getSection W10 (SymTab W10)))
                 (RelRoDataSections W10) W10
     in Inr (All6, W11\<lparr>SectionNumbersAssigned := True\<rparr>))))))))"

subsection \<open>File offsets\<close>

text \<open>
  \<open>llvm::isPowerOf2_32\<close> (of LLVM's MathExtras.h) takes a \<open>uint32_t\<close>: its argument is a
  power of two greater than zero that fits 32 bits. \<open>alignFileOffset\<close> passes it the 64-bit
  \<open>Align\<close>, which reaches it narrowed to its low 32 bits; the mask \<open>Align - 1\<close> is taken of
  the whole value.
\<close>

definition isPowerOf2_32 :: "nat \<Rightarrow> bool" where
  "isPowerOf2_32 V = (V \<in> set (map (\<lambda>k. 2 ^ k) [0..<32]))"

definition alignFileOffset :: "nat \<Rightarrow> ELFObjectWriter \<Rightarrow> error + (nat \<times> ELFObjectWriter)" where
  "alignFileOffset Align W =
     bindE (assertE (isPowerOf2_32 (Align mod 2 ^ 32)) ''llvm::isPowerOf2_32(Align)'') (\<lambda>_.
     let OffsetInFile = tell (Str W);
         Mod = OffsetInFile AND (Align - 1)
     in if Mod = 0 then Inr (OffsetInFile, W)
        else
          let AlignDiff = Align - Mod;
              W' = W\<lparr>Str := writeZeroPadding AlignDiff (Str W)\<rparr>;
              OffsetInFile' = OffsetInFile + AlignDiff
          in bindE (assertE (OffsetInFile' AND (Align - 1) = 0)
                      ''(OffsetInFile & (Align - 1)) == 0'') (\<lambda>_.
               Inr (OffsetInFile', W')))"

subsection \<open>Function code\<close>

text \<open>
  \<open>Section->appendData(Str, Data)\<close> (of ELFTextSection, modelled from the spec): the
  bytes go to the stream and the section grows by their number.
\<close>

definition appendData :: "nat \<Rightarrow> byte list \<Rightarrow> ELFObjectWriter \<Rightarrow> ELFObjectWriter" where
  "appendData P Data W =
     updSection P (\<lambda>S. S\<lparr>Size := Size S + length Data\<rparr>) (W\<lparr>Str := writeBytes Data (Str W)\<rparr>)"

definition strTabAdd :: "string \<Rightarrow> ELFObjectWriter \<Rightarrow> ELFObjectWriter" where
  "strTabAdd N W = W\<lparr>StrTabData := add N (StrTabData W)\<rparr>"

definition writeFunctionCode ::
  "string \<Rightarrow> bool \<Rightarrow> Assembler \<Rightarrow> ELFObjectWriter \<Rightarrow> error + ELFObjectWriter" where
  "writeFunctionCode FuncName IsInternal Asm W =
     bindE (assertE (\<not> SectionNumbersAssigned W) ''!SectionNumbersAssigned'') (\<lambda>_.
     let SectionName = ''.text'' in
     bindE (if length (TextSections W) = 0
            then
              let ShFlags = SHF_ALLOC OR SHF_EXECINSTR; ShAlign = 32 in
              bindE (createSection SectionName SHT_PROGBITS ShFlags ShAlign 0 W) (\<lambda>(P, W1).
              bindE (alignFileOffset (ShAddralign (getSection W1 P)) W1) (\<lambda>(OffsetInFile, W2).
                Inr (P, (updSection P (setFileOffset OffsetInFile) W2)
                          \<lparr>TextSections := TextSections W2 @ [P]\<rparr>)))
            else Inr (TextSections W ! 0, W)) (\<lambda>(Section, W3).
     let OffsetInSection = Size (getSection W3 Section);
         SymbolSize = 0;
         W4 = appendData Section (getBufferView Asm) W3;
         SymbolType = (if IsInternal then STT_NOTYPE else STT_FUNC);
         SymbolBinding = (if IsInternal then STB_LOCAL else STB_GLOBAL);
         W5 = createDefinedSym FuncName SymbolType SymbolBinding Section OffsetInSection
                SymbolSize W4;
         W6 = strTabAdd FuncName W5
     in if fixups Asm \<noteq> []
        then
          bindE (isELF64 (Ctx W6)) (\<lambda>IsELF64.
          let RelSectionName = (if IsELF64 then ''.rela'' else ''.rel'') @ SectionName in
          bindE (case find (\<lambda>S. Name (getSection W6 S) = RelSectionName) (RelTextSections W6) of
                   Some RSI \<Rightarrow> Inr (RSI, W6)
                 | None \<Rightarrow>
                     bindE (createSection RelSectionName (if IsELF64 then SHT_RELA else SHT_REL)
                              0 (if IsELF64 then 8 else 4) (sizeof_Elf_Rel IsELF64) W6)
                       (\<lambda>(R, W7).
                         Inr (R, (updSection R (setRelatedSection Section) W7)
                                   \<lparr>RelTextSections := RelTextSections W7 @ [R]\<rparr>)))
            (\<lambda>(RelSection, W8).
              Inr (updSection RelSection (addRelocations OffsetInSection (fixups Asm)) W8)))
        else Inr W6))"

text \<open>
  \<open>writeDataInitializer\<close> has no statement that touches the stream before it stops. Its
  result is the outcome of the call together with the writer as the call leaves it, so
  that what a failing call has written can be stated. The statement after
  \<open>llvm_unreachable\<close> is dead.
\<close>

definition writeDataInitializer ::
  "string \<Rightarrow> byte list \<Rightarrow> ELFObjectWriter \<Rightarrow> (error + unit) \<times> ELFObjectWriter" where
  "writeDataInitializer VarName Data W =
     (if SectionNumbersAssigned W then (Inl (AssertionFailure ''!SectionNumbersAssigned''), W)
      else (Inl (Unreachable ''TODO''), W))"

subsection \<open>The ELF header\<close>

definition doWrites :: "(ELFStreamer \<Rightarrow> ELFStreamer) list \<Rightarrow> ELFStreamer \<Rightarrow> ELFStreamer" where
  "doWrites fs s = foldl (\<lambda>s' f. f s') s fs"

definition writeELFHeaderInternal ::
  "bool \<Rightarrow> nat \<Rightarrow> nat \<Rightarrow> nat \<Rightarrow> ELFObjectWriter \<Rightarrow> error + ELFObjectWriter" where
  "writeELFHeaderInternal IsELF64 SectionHeaderOffset SectHeaderStrIndex NumSections W =
     (let W1 = W\<lparr>Str := doWrites
                  [writeBytes ElfMagic,
                   write8 (if IsELF64 then ELFCLASS64 else ELFCLASS32),
                   write8 ELFDATA2LSB,
                   write8 EV_CURRENT,
                   write8 ELFOSABI_NONE,
                   write8 0,
                   writeZeroPadding (EI_NIDENT - EI_PAD)] (Str W)\<rparr>
      in
      bindE (assertE (NumSections < SHN_LORESERVE) ''NumSections < SHN_LORESERVE'') (\<lambda>_.
      bindE (assertE (SectHeaderStrIndex < SHN_LORESERVE)
               ''SectHeaderStrIndex < SHN_LORESERVE'') (\<lambda>_.
      bindE (getELFMachine (Ctx W1)) (\<lambda>Machine.
      bindE (getELFFlags (Ctx W1)) (\<lambda>Flags.
        Inr (W1\<lparr>Str := doWrites
                  [writeLE16 ET_REL,
                   writeLE16 Machine,
                   writeELFWord IsELF64 1,
                   writeAddrOrOffset IsELF64 0,
                   writeAddrOrOffset IsELF64 0,
                   writeAddrOrOffset IsELF64 SectionHeaderOffset,
                   writeELFWord IsELF64 Flags,
                   writeLE16 (sizeof_Elf_Ehdr IsELF64),
                   writeLE16 0,
                   writeLE16 0,
                   writeLE16 (sizeof_Elf_Shdr IsELF64),
                   writeLE16 NumSections,
                   writeLE16 SectHeaderStrIndex] (Str W1)\<rparr>))))))"

definition writeInitialELFHeader :: "ELFObjectWriter \<Rightarrow> error + ELFObjectWriter" where
  "writeInitialELFHeader W =
     bindE (assertE (\<not> SectionNumbersAssigned W) ''!SectionNumbersAssigned'') (\<lambda>_.
     bindE (isELF64 (Ctx W)) (\<lambda>IsELF64.
       writeELFHeaderInternal IsELF64 0 0 0 W))"

subsection \<open>Constant pools\<close>

function decimal :: "nat \<Rightarrow> string" where
  "decimal n = (if n < 10 then [char_of (48 + n)] else decimal (n div 10) @ [char_of (48 + n mod 10)])"
  by pat_completeness auto
termination
  by (relation "measure id") auto

declare decimal.simps [simp del]

text \<open>
  The loop of \<open>writeConstantPool\<close> over the pool; its state is \<open>OffsetInSection\<close> and the
  writer. \<open>memcpy(Buf, &Value, WriteAmt)\<close> takes the first \<open>WriteAmt\<close> bytes of the value.
\<close>

fun writePoolLoop ::
  "ConstType \<Rightarrow> nat \<Rightarrow> nat \<Rightarrow> Constant list \<Rightarrow> nat \<Rightarrow> ELFObjectWriter
     \<Rightarrow> error + (nat \<times> ELFObjectWriter)" where
  "writePoolLoop CT Section WriteAmt [] OffsetInSection W = Inr (OffsetInSection, W)"
| "writePoolLoop CT Section WriteAmt (C # Pool) OffsetInSection W =
     (case castValueBytes CT C of
        Inl e \<Rightarrow> Inl e
      | Inr Value \<Rightarrow>
          let SymName = poolLabel C;
              SymbolSize = 0;
              W1 = createDefinedSym SymName STT_NOTYPE STB_LOCAL Section OffsetInSection
                     SymbolSize W;
              W2 = strTabAdd SymName W1;
              Buf = take WriteAmt Value;
              W3 = W2\<lparr>Str := writeBytes Buf (Str W2)\<rparr>
          in writePoolLoop CT Section WriteAmt Pool (OffsetInSection + WriteAmt) W3)"

text \<open>
  \<open>Buf\<close> is \<open>char[20]\<close>. The remainder \<open>WriteAmt % Align\<close> traps when \<open>Align\<close> is 0; the
  model lets the assertion fail there.
\<close>

definition array_lengthof_Buf :: nat where
  "array_lengthof_Buf = 20"

definition writeConstantPool :: "ConstType \<Rightarrow> Type \<Rightarrow> ELFObjectWriter \<Rightarrow> error + ELFObjectWriter" where
  "writeConstantPool CT Ty W =
     (let Pool = getConstantPool (Ctx W) Ty in
      if Pool = [] then Inr W
      else
        let Align = typeAlignInBytes Ty;
            EntSize = typeWidthInBytes Ty;
            WriteAmt = min EntSize array_lengthof_Buf
        in
        bindE (assertE (WriteAmt = EntSize) ''WriteAmt == EntSize'') (\<lambda>_.
        bindE (assertE (Align \<noteq> 0 \<and> WriteAmt mod Align = 0) ''WriteAmt % Align == 0'') (\<lambda>_.
        bindE (assertE (WriteAmt = sizeof_PrimType CT)
                 ''WriteAmt == sizeof(typename ConstType::PrimType)'') (\<lambda>_.
        let ShFlags = SHF_ALLOC OR SHF_MERGE in
        bindE (createSection (''.rodata.cst'' @ decimal WriteAmt) SHT_PROGBITS ShFlags Align
                 WriteAmt W) (\<lambda>(Section, W1).
        let W2 = W1\<lparr>RoDataSections := RoDataSections W1 @ [Section]\<rparr> in
        bindE (alignFileOffset Align W2) (\<lambda>(OffsetInFile, W3).
        let W4 = updSection Section (setFileOffset OffsetInFile) W3 in
        bindE (writePoolLoop CT Section WriteAmt Pool 0 W4) (\<lambda>(OffsetInSection, W5).
          Inr (updSection Section (setSize OffsetInSection) W5))))))))"

subsection \<open>The symbol table, the relocations and the section headers on disk\<close>










subsection \<open>Finalization\<close>





subsection \<open>The calls of a driver\<close>

text \<open>
  A driver constructs the writer and then calls \<open>writeInitialELFHeader\<close>,
  \<open>writeFunctionCode\<close>, \<open>writeConstantPool\<close> and \<open>writeDataInitializer\<close>; the run stops
  at the first error.
\<close>

datatype WriterCall =
  WriteInitialELFHeader
| WriteFunctionCode string bool Assembler
| WriteConstantPool ConstType Type
| WriteDataInitializer string "byte list"

fun applyCall :: "WriterCall \<Rightarrow> ELFObjectWriter \<Rightarrow> error + ELFObjectWriter" where
  "applyCall WriteInitialELFHeader W = writeInitialELFHeader W"
| "applyCall (WriteFunctionCode FuncName IsInternal Asm) W =
     writeFunctionCode FuncName IsInternal Asm W"
| "applyCall (WriteConstantPool CT Ty) W = writeConstantPool CT Ty W"
| "applyCall (WriteDataInitializer VarName Data) W =
     (case writeDataInitializer VarName Data W of
        (Inl e, W') \<Rightarrow> Inl e
      | (Inr u, W') \<Rightarrow> Inr W')"

fun applyCalls :: "WriterCall list \<Rightarrow> ELFObjectWriter \<Rightarrow> error + ELFObjectWriter" where
  "applyCalls [] W = Inr W"
| "applyCalls (c # cs) W = (case applyCall c W of Inl e \<Rightarrow> Inl e | Inr W' \<Rightarrow> applyCalls cs W')"

definition runWriter ::
  "GlobalContext \<Rightarrow> ELFStreamer \<Rightarrow> WriterCall list \<Rightarrow> error + ELFObjectWriter" where
  "runWriter C Out cs = bindE (newELFObjectWriter C Out) (applyCalls cs)"

subsection \<open>Notions used in the statements\<close>

definition validArch :: "GlobalContext \<Rightarrow> bool" where
  "validArch C = (getTargetArch C < TargetArch_NUM C)"

text \<open>The class of the target, read from its row (for a valid target).\<close>

definition targetIsELF64 :: "GlobalContext \<Rightarrow> bool" where
  "targetIsELF64 C = fst (ELFTargetInfo C ! getTargetArch C)"

text \<open>The fields \<open>e_shoff\<close>, \<open>e_shnum\<close> and \<open>e_shstrndx\<close> of an ELF header, read from a file.\<close>

definition e_shoff :: "bool \<Rightarrow> byte list \<Rightarrow> nat" where
  "e_shoff IsELF64 bs =
     (if IsELF64 then le_value (take 8 (drop 40 bs)) else le_value (take 4 (drop 32 bs)))"

definition e_shnum :: "bool \<Rightarrow> byte list \<Rightarrow> nat" where
  "e_shnum IsELF64 bs = le_value (take 2 (drop (if IsELF64 then 60 else 48) bs))"

definition e_shstrndx :: "bool \<Rightarrow> byte list \<Rightarrow> nat" where
  "e_shstrndx IsELF64 bs = le_value (take 2 (drop (if IsELF64 then 62 else 50) bs))"

text \<open>The ELF header as the spec lists its fields (its section 4.9).\<close>

definition ELFHeaderBytes :: "bool \<Rightarrow> nat \<Rightarrow> nat \<Rightarrow> nat \<Rightarrow> nat \<Rightarrow> nat \<Rightarrow> byte list" where
  "ELFHeaderBytes IsELF64 Machine Flags ShOff StrIdx Num =
     (let X = (if IsELF64 then 8 else 4)
      in ElfMagic @ le_bytes 1 (if IsELF64 then ELFCLASS64 else ELFCLASS32)
         @ le_bytes 1 ELFDATA2LSB @ le_bytes 1 EV_CURRENT @ le_bytes 1 ELFOSABI_NONE
         @ le_bytes 1 0 @ replicate (EI_NIDENT - EI_PAD) 0
         @ le_bytes 2 ET_REL @ le_bytes 2 Machine @ le_bytes 4 1 @ le_bytes X 0 @ le_bytes X 0
         @ le_bytes X ShOff @ le_bytes 4 Flags @ le_bytes 2 (sizeof_Elf_Ehdr IsELF64)
         @ le_bytes 2 0 @ le_bytes 2 0 @ le_bytes 2 (sizeof_Elf_Shdr IsELF64)
         @ le_bytes 2 Num @ le_bytes 2 StrIdx)"

text \<open>A context for the examples: two targets, the second (x86-64) chosen, and a pool of two floats.\<close>

definition exampleContext :: GlobalContext where
  "exampleContext =
     \<lparr>getTargetArch = 1, ELFTargetInfo = [(False, 3, 0), (True, 62, 0)],
      ConstantPools = [(IceType_f32, [ConstantFloat ''L$float$0'' 1065353216,
                                      ConstantFloat ''L$float$1'' 1073741824])]\<rparr>"

definition emptyStream :: ELFStreamer where
  "emptyStream = \<lparr>Buffer = [], Offset = 0\<rparr>"

definition exampleWriter :: ELFObjectWriter where
  "exampleWriter = projr (newELFObjectWriter exampleContext emptyStream)"

text \<open>The object representation of a pooled constant, least significant byte first.\<close>

definition valueBytes :: "Constant \<Rightarrow> byte list" where
  "valueBytes C =
     (case C of ConstantFloat l v \<Rightarrow> le_bytes 4 (unat v) | ConstantDouble l v \<Rightarrow> le_bytes 8 (unat v))"

definition isConstType :: "ConstType \<Rightarrow> Constant \<Rightarrow> bool" where
  "isConstType CT C =
     (case (CT, C) of (ConstantFloatT, ConstantFloat l v) \<Rightarrow> True
                    | (ConstantDoubleT, ConstantDouble l v) \<Rightarrow> True
                    | _ \<Rightarrow> False)"

text \<open>
  What the spec says of a constant pool: one LOCAL NOTYPE symbol of size 0 per constant,
  at the offsets \<open>Off\<close>, \<open>Off + N\<close>, \<open>Off + 2N\<close>, ..., and the bytes of the constants.
\<close>

fun poolSymbols :: "nat \<Rightarrow> nat \<Rightarrow> nat \<Rightarrow> Constant list \<Rightarrow> ELFSym list" where
  "poolSymbols Sec N Off [] = []"
| "poolSymbols Sec N Off (C # Pool) =
     newSym (poolLabel C) STT_NOTYPE STB_LOCAL Sec Off 0 # poolSymbols Sec N (Off + N) Pool"

definition poolBytes :: "nat \<Rightarrow> Constant list \<Rightarrow> byte list" where
  "poolBytes N Pool = concat (map (\<lambda>C. take N (valueBytes C)) Pool)"

definition constantPoolSection :: "Type \<Rightarrow> nat \<Rightarrow> nat \<Rightarrow> ELFSection" where
  "constantPoolSection Ty Off Count =
     (newELFSection (''.rodata.cst'' @ decimal (typeWidthInBytes Ty)) SHT_PROGBITS
        (SHF_ALLOC OR SHF_MERGE) (typeAlignInBytes Ty) (typeWidthInBytes Ty))
     \<lparr>FileOffset := Off, Size := typeWidthInBytes Ty * Count\<rparr>"

definition exampleWithPool :: ELFObjectWriter where
  "exampleWithPool = projr (writeConstantPool ConstantFloatT IceType_f32 exampleWriter)"

text \<open>
  Well-formed writers: the pointers held by the writer are distinct and allocated, and
  the relocation buckets hold the relocation sections (the typing of the C++ members).
\<close>

definition bookkeepingPointers :: "ELFObjectWriter \<Rightarrow> nat list" where
  "bookkeepingPointers W = [NullSection W, ShStrTab W, SymTab W, StrTab W]"

definition userPointers :: "ELFObjectWriter \<Rightarrow> nat list" where
  "userPointers W = TextSections W @ DataSections W @ RoDataSections W"

definition relPointers :: "ELFObjectWriter \<Rightarrow> nat list" where
  "relPointers W = RelTextSections W @ RelDataSections W @ RelRoDataSections W"

definition isRelocation :: "ELFSection \<Rightarrow> bool" where
  "isRelocation S = (ShType S = SHT_REL \<or> ShType S = SHT_RELA)"

definition wellFormed :: "ELFObjectWriter \<Rightarrow> bool" where
  "wellFormed W =
     (distinct (bookkeepingPointers W @ userPointers W @ relPointers W) \<and>
      (\<forall>p \<in> set (bookkeepingPointers W @ userPointers W @ relPointers W).
         p < length (Sections W)) \<and>
      (\<forall>p \<in> set (relPointers W). isRelocation (getSection W p)) \<and>
      (\<forall>p \<in> set (bookkeepingPointers W @ userPointers W). \<not> isRelocation (getSection W p)))"

definition relSectionName :: "bool \<Rightarrow> string" where
  "relSectionName IsELF64 = (if IsELF64 then ''.rela.text'' else ''.rel.text'')"

definition isTextRelSection :: "bool \<Rightarrow> nat \<Rightarrow> ELFSection \<Rightarrow> bool" where
  "isTextRelSection IsELF64 T S =
     (Name S = relSectionName IsELF64 \<and> ShType S = (if IsELF64 then SHT_RELA else SHT_REL) \<and>
      ShFlags S = 0 \<and> ShAddralign S = (if IsELF64 then 8 else 4) \<and>
      ShEntsize S = (if IsELF64 then 24 else 8) \<and> RelatedSection S = Some T)"

text \<open>The size of the text section and the fixups of its relocation section, if any.\<close>

definition textSize :: "ELFObjectWriter \<Rightarrow> nat" where
  "textSize W = (case TextSections W of [] \<Rightarrow> 0 | T # Ts \<Rightarrow> Size (getSection W T))"

definition textRelocations :: "ELFObjectWriter \<Rightarrow> AssemblerFixup list" where
  "textRelocations W = (case RelTextSections W of [] \<Rightarrow> [] | R # Rs \<Rightarrow> Fixups (getSection W R))"

text \<open>
  The states of a writer between its construction and \<open>writeNonUserSections\<close>: at most
  one text section and one relocation section for it, no data sections, every user
  section at an aligned file offset.
\<close>

definition building :: "ELFObjectWriter \<Rightarrow> bool" where
  "building W =
     (wellFormed W \<and> validArch (Ctx W) \<and> \<not> SectionNumbersAssigned W \<and>
      DataSections W = [] \<and> RelDataSections W = [] \<and> RelRoDataSections W = [] \<and>
      length (TextSections W) \<le> 1 \<and> length (RelTextSections W) \<le> 1 \<and>
      (RelTextSections W \<noteq> [] \<longrightarrow> TextSections W \<noteq> []) \<and>
      (\<forall>R \<in> set (RelTextSections W).
         isTextRelSection (targetIsELF64 (Ctx W)) (TextSections W ! 0) (getSection W R)) \<and>
      (\<forall>p \<in> set (userPointers W).
         ShType (getSection W p) = SHT_PROGBITS \<and>
         FileOffset (getSection W p) mod ShAddralign (getSection W p) = 0))"

text \<open>
  A step of the building phase only appends sections to the arena and leaves the fields
  of a section that are fixed at its creation as they are.
\<close>

definition sameStatic :: "ELFSection \<Rightarrow> ELFSection \<Rightarrow> bool" where
  "sameStatic S S' =
     (Name S' = Name S \<and> ShType S' = ShType S \<and> ShFlags S' = ShFlags S \<and>
      ShAddralign S' = ShAddralign S \<and> ShEntsize S' = ShEntsize S \<and>
      FileOffset S' = FileOffset S \<and> RelatedSection S' = RelatedSection S)"

definition extends :: "ELFObjectWriter \<Rightarrow> ELFObjectWriter \<Rightarrow> bool" where
  "extends W W' =
     (length (Sections W) \<le> length (Sections W') \<and>
      (\<forall>p < length (Sections W). sameStatic (Sections W ! p) (Sections W' ! p)))"

text \<open>
  What a list of calls asks for: the number of code bytes of its functions, and their
  fixups in the order of the calls, each offset moved by the number of code bytes before
  its function.
\<close>

fun codeSize :: "WriterCall list \<Rightarrow> nat" where
  "codeSize [] = 0"
| "codeSize (WriteFunctionCode F I A # cs) = length (getBufferView A) + codeSize cs"
| "codeSize (c # cs) = codeSize cs"

fun functionFixups :: "nat \<Rightarrow> WriterCall list \<Rightarrow> AssemblerFixup list" where
  "functionFixups Off [] = []"
| "functionFixups Off (WriteFunctionCode F I A # cs) =
     map (\<lambda>FR. FR\<lparr>position := Off + position FR\<rparr>) (fixups A)
     @ functionFixups (Off + length (getBufferView A)) cs"
| "functionFixups Off (c # cs) = functionFixups Off cs"

text \<open>
  The fixups that a call brings, and the calls that the writer supports: the header, a
  function, and the pools of the two pool types whose constants have the type asked for.
\<close>

fun callFixups :: "WriterCall \<Rightarrow> AssemblerFixup list" where
  "callFixups (WriteFunctionCode F I A) = fixups A"
| "callFixups c = []"

fun supportedCall :: "GlobalContext \<Rightarrow> WriterCall \<Rightarrow> bool" where
  "supportedCall C WriteInitialELFHeader = True"
| "supportedCall C (WriteFunctionCode F I A) = True"
| "supportedCall C (WriteConstantPool CT Ty) =
     (((CT = ConstantFloatT \<and> Ty = IceType_f32) \<or> (CT = ConstantDoubleT \<and> Ty = IceType_f64)) \<and>
      list_all (isConstType CT) (getConstantPool C Ty))"
| "supportedCall C (WriteDataInitializer V D) = False"

text \<open>Two functions with one fixup each, for the examples.\<close>

definition exampleFunctions :: "WriterCall list" where
  "exampleFunctions =
     [WriteInitialELFHeader,
      WriteFunctionCode ''f'' False
        \<lparr>getBufferView = [232, 0, 0, 0, 0, 195],
         fixups = [\<lparr>position = 1, kind = 4, symbol = ''g'', addend = -4\<rparr>]\<rparr>,
      WriteFunctionCode ''g'' True
        \<lparr>getBufferView = [144, 232, 0, 0, 0, 0, 195],
         fixups = [\<lparr>position = 2, kind = 4, symbol = ''f'', addend = -4\<rparr>]\<rparr>]"

definition exampleWithFunctions :: ELFObjectWriter where
  "exampleWithFunctions = projr (runWriter exampleContext emptyStream exampleFunctions)"

text \<open>
  The order of the sections as the spec words it: every user section of a bucket in its
  turn, followed at once by the relocation section at the front of the relocation bucket
  when that one relates to it. \<open>pairUp\<close> gives the user sections with their relocation
  sections, \<open>unpaired\<close> the relocation sections left over at the end, \<open>flatten\<close> the order.
\<close>

fun pairUp :: "(nat \<Rightarrow> nat option) \<Rightarrow> nat list \<Rightarrow> nat list \<Rightarrow> (nat \<times> nat option) list" where
  "pairUp rel [] Rs = []"
| "pairUp rel (U # Us) [] = (U, None) # pairUp rel Us []"
| "pairUp rel (U # Us) (R # Rs) =
     (if rel R = Some U then (U, Some R) # pairUp rel Us Rs
      else (U, None) # pairUp rel Us (R # Rs))"

fun unpaired :: "(nat \<Rightarrow> nat option) \<Rightarrow> nat list \<Rightarrow> nat list \<Rightarrow> nat list" where
  "unpaired rel [] Rs = Rs"
| "unpaired rel (U # Us) [] = []"
| "unpaired rel (U # Us) (R # Rs) =
     (if rel R = Some U then unpaired rel Us Rs else unpaired rel Us (R # Rs))"

fun flatten :: "(nat \<times> nat option) list \<Rightarrow> nat list" where
  "flatten [] = []"
| "flatten ((U, None) # ps) = U # flatten ps"
| "flatten ((U, Some R) # ps) = U # R # flatten ps"

definition relatedOf :: "ELFObjectWriter \<Rightarrow> nat \<Rightarrow> nat option" where
  "relatedOf W R = RelatedSection (getSection W R)"

definition numberOf :: "ELFObjectWriter \<Rightarrow> nat \<Rightarrow> nat" where
  "numberOf W p = Number (getSection W p)"

definition infoOf :: "ELFObjectWriter \<Rightarrow> nat \<Rightarrow> nat" where
  "infoOf W p = InfoNum (getSection W p)"

text \<open>
  Numbering changes only the fields \<open>Number\<close>, \<open>NameStrIndex\<close>, \<open>InfoNum\<close> and \<open>LinkNum\<close> of
  the sections.
\<close>

definition sameButNumbers :: "ELFSection \<Rightarrow> ELFSection \<Rightarrow> bool" where
  "sameButNumbers S S' =
     (Name S' = Name S \<and> ShType S' = ShType S \<and> ShFlags S' = ShFlags S \<and>
      ShAddralign S' = ShAddralign S \<and> ShEntsize S' = ShEntsize S \<and>
      FileOffset S' = FileOffset S \<and> Size S' = Size S \<and>
      RelatedSection S' = RelatedSection S \<and> Fixups S' = Fixups S)"

definition renumbered :: "ELFObjectWriter \<Rightarrow> ELFObjectWriter \<Rightarrow> bool" where
  "renumbered W W' =
     (Ctx W' = Ctx W \<and> Str W' = Str W \<and>
      TextSections W' = TextSections W \<and> DataSections W' = DataSections W \<and>
      RoDataSections W' = RoDataSections W \<and> RelTextSections W' = RelTextSections W \<and>
      RelDataSections W' = RelDataSections W \<and> RelRoDataSections W' = RelRoDataSections W \<and>
      NullSection W' = NullSection W \<and> ShStrTab W' = ShStrTab W \<and> SymTab W' = SymTab W \<and>
      StrTab W' = StrTab W \<and> ShStrTabData W' = ShStrTabData W \<and>
      StrTabData W' = StrTabData W \<and> SymTabData W' = SymTabData W \<and>
      length (Sections W') = length (Sections W) \<and>
      (\<forall>p. sameButNumbers (getSection W p) (getSection W' p)))"

text \<open>
  The pairs of all three buckets and the order of all sections as the spec words it: the
  null section, the user sections with their relocation sections (Text, Data, RoData),
  then .shstrtab, .symtab and .strtab.
\<close>

definition sectionPairs :: "ELFObjectWriter \<Rightarrow> (nat \<times> nat option) list" where
  "sectionPairs W =
     pairUp (relatedOf W) (TextSections W) (RelTextSections W)
     @ pairUp (relatedOf W) (DataSections W) (RelDataSections W)
     @ pairUp (relatedOf W) (RoDataSections W) (RelRoDataSections W)"

definition sectionOrder :: "ELFObjectWriter \<Rightarrow> nat list" where
  "sectionOrder W =
     NullSection W # flatten (sectionPairs W) @ [ShStrTab W, SymTab W, StrTab W]"

definition pairsNumbered :: "ELFObjectWriter \<Rightarrow> (nat \<times> nat option) list \<Rightarrow> bool" where
  "pairsNumbered W ps =
     (\<forall>U R. (U, Some R) \<in> set ps \<longrightarrow>
        infoOf W R = numberOf W U \<and> numberOf W R = numberOf W U + 1)"

text \<open>
  The last statements of \<open>assignSectionNumbersInfo\<close>, from \<open>SymTab->setLinkNum\<close> on, as
  one step of their own.
\<close>

definition assignLinks :: "ELFObjectWriter \<Rightarrow> ELFObjectWriter" where
  "assignLinks W6 =
     (let W7 = updSection (SymTab W6) (setLinkNum (Number (getSection W6 (StrTab W6)))) W6;
          W8 = updSection (SymTab W7) (setInfoNum (getNumLocals (SymTabData W7))) W7;
          W9 = assignRelLinkNum (Number (getSection W8 (SymTab W8))) (RelTextSections W8) W8;
          W10 = assignRelLinkNum (Number (getSection W9 (SymTab W9))) (RelDataSections W9) W9;
          W11 = assignRelLinkNum (Number (getSection W10 (SymTab W10)))
                  (RelRoDataSections W10) W10
      in W11\<lparr>SectionNumbersAssigned := True\<rparr>)"

text \<open>A section whose name \<open>getIndex\<close> finds in the laid-out .shstrtab.\<close>

definition named :: "ELFObjectWriter \<Rightarrow> nat \<Rightarrow> bool" where
  "named W p =
     (Name (getSection W p) = [] \<or> Name (getSection W p) \<in> set (Strings (ShStrTabData W)))"

text \<open>
  A writer for the examples of the numbering: a text section with its relocation section
  and a pool section, the names laid out in .shstrtab.
\<close>

definition exampleSections :: ELFObjectWriter where
  "exampleSections =
     \<lparr>Ctx = exampleContext, Str = emptyStream, SectionNumbersAssigned = False,
      Sections = [newELFSection [] SHT_NULL 0 0 0,
                  newELFSection ''.shstrtab'' SHT_STRTAB 0 1 0,
                  newELFSection ''.symtab'' SHT_SYMTAB 0 8 24,
                  newELFSection ''.strtab'' SHT_STRTAB 0 1 0,
                  newELFSection ''.text'' SHT_PROGBITS (SHF_ALLOC OR SHF_EXECINSTR) 32 0,
                  (newELFSection ''.rela.text'' SHT_RELA 0 8 24)\<lparr>RelatedSection := Some 4\<rparr>,
                  newELFSection ''.rodata.cst4'' SHT_PROGBITS (SHF_ALLOC OR SHF_MERGE) 4 4],
      TextSections = [4], DataSections = [], RoDataSections = [6],
      RelTextSections = [5], RelDataSections = [], RelRoDataSections = [],
      NullSection = 0, ShStrTab = 1, SymTab = 2, StrTab = 3,
      ShStrTabData = \<lparr>Strings = [''.shstrtab'', ''.symtab'', ''.strtab'', ''.text'',
                                  ''.rela.text'', ''.rodata.cst4''], LaidOut = True\<rparr>,
      StrTabData = emptyStringTable,
      SymTabData = \<lparr>LocalSymbols = [newSym [] STT_NOTYPE STB_LOCAL 0 0 0], GlobalSymbols = []\<rparr>\<rparr>"

definition exampleNumbered :: "nat list \<times> ELFObjectWriter" where
  "exampleNumbered = projr (assignSectionNumbersInfo exampleSections)"

text \<open>
  The layout of \<open>writeNonUserSections\<close> leaves the buckets, the pointers and the fields of
  a section fixed at its creation as they are (\<open>relaid\<close>). A step of it that does not
  number sections (\<open>placed P\<close>) also keeps the numbers and the flag, sets file offsets
  only of the sections in \<open>P\<close>, and does not move the stream backwards. A section is
  \<open>aligned\<close> when its file offset is a multiple of its alignment.
\<close>

definition sameFixed :: "ELFSection \<Rightarrow> ELFSection \<Rightarrow> bool" where
  "sameFixed S S' =
     (Name S' = Name S \<and> ShType S' = ShType S \<and> ShFlags S' = ShFlags S \<and>
      ShAddralign S' = ShAddralign S \<and> ShEntsize S' = ShEntsize S \<and>
      RelatedSection S' = RelatedSection S \<and> Fixups S' = Fixups S)"

definition relaid :: "ELFObjectWriter \<Rightarrow> ELFObjectWriter \<Rightarrow> bool" where
  "relaid W W' =
     (Ctx W' = Ctx W \<and>
      TextSections W' = TextSections W \<and> DataSections W' = DataSections W \<and>
      RoDataSections W' = RoDataSections W \<and> RelTextSections W' = RelTextSections W \<and>
      RelDataSections W' = RelDataSections W \<and> RelRoDataSections W' = RelRoDataSections W \<and>
      NullSection W' = NullSection W \<and> ShStrTab W' = ShStrTab W \<and> SymTab W' = SymTab W \<and>
      StrTab W' = StrTab W \<and> length (Sections W') = length (Sections W) \<and>
      (\<forall>p. sameFixed (getSection W p) (getSection W' p)))"

definition placed :: "nat set \<Rightarrow> ELFObjectWriter \<Rightarrow> ELFObjectWriter \<Rightarrow> bool" where
  "placed P W W' =
     (relaid W W' \<and> SectionNumbersAssigned W' = SectionNumbersAssigned W \<and>
      (\<forall>p. numberOf W' p = numberOf W p) \<and>
      (\<forall>p. p \<notin> P \<longrightarrow> FileOffset (getSection W' p) = FileOffset (getSection W p)) \<and>
      tell (Str W) \<le> tell (Str W'))"







text \<open>
  What the layout needs of a writer besides \<open>building\<close>: the name of every section is in
  .shstrtab, the name of every symbol is in .strtab, and the alignment of every section
  but the null section is a power of two that fits 32 bits.
\<close>

definition registered :: "ELFObjectWriter \<Rightarrow> bool" where
  "registered W =
     ((\<forall>p < length (Sections W). named W p) \<and>
      (\<forall>s \<in> set (allSymbols (SymTabData W)).
         SymName s = [] \<or> SymName s \<in> set (Strings (StrTabData W))) \<and>
      (\<forall>p < length (Sections W).
         p = NullSection W \<or> isPowerOf2_32 (ShAddralign (Sections W ! p))))"




section \<open>Properties\<close>

subsection \<open>Errors and bytes\<close>

lemma bindE_Inr [simp]: "bindE (Inr x) f = f x"
  by (simp add: bindE_def)

lemma bindE_Inl [simp]: "bindE (Inl e) f = Inl e"
  by (simp add: bindE_def)

lemma bindE_eq_Inr: "(bindE m f = Inr y) = (\<exists>x. m = Inr x \<and> f x = Inr y)"
  by (cases m) simp_all

lemma assertE_True [simp]: "assertE True msg = Inr ()"
  by (simp add: assertE_def)

lemma assertE_False [simp]: "assertE False msg = Inl (AssertionFailure msg)"
  by (simp add: assertE_def)

lemma assertE_eq_Inr [simp]: "(assertE b msg = Inr u) = b"
  by (simp add: assertE_def)

lemma length_le_bytes [simp]: "length (le_bytes n v) = n"
  by (induction n arbitrary: v) simp_all

lemma le_value_le_bytes: "le_value (le_bytes n v) = v mod 256 ^ n"
proof (induction n arbitrary: v)
  case 0
  show ?case by simp
next
  case (Suc n)
  have "unat (of_nat (v mod 256) :: byte) = v mod 256"
    by (simp add: unat_of_nat)
  moreover have "v mod 256 + 256 * (v div 256 mod 256 ^ n) = v mod (256 * 256 ^ n)"
    by (simp add: mod_mult2_eq)
  ultimately show ?case
    using Suc.IH [of "v div 256"] by simp
qed

subsection \<open>The stream\<close>

lemma writeBytes_Nil [simp]: "writeBytes [] s = s"
  by (simp add: writeBytes_def)

lemma Offset_writeBytes [simp]: "Offset (writeBytes bs s) = Offset s + length bs"
  by (simp add: writeBytes_def)

lemma writeBytes_writeBytes: "writeBytes b (writeBytes a s) = writeBytes (a @ b) s"
proof (cases "Offset s \<le> length (Buffer s)")
  case True
  then show ?thesis
    by (simp add: writeBytes_def min_def ac_simps)
next
  case False
  then show ?thesis
    by (auto simp add: writeBytes_def min_def ac_simps)
qed

lemma writeBytes_at_end:
  "Offset s = length (Buffer s) \<Longrightarrow> writeBytes bs s = \<lparr>Buffer = Buffer s @ bs, Offset = length (Buffer s) + length bs\<rparr>"
  by (simp add: writeBytes_def)

subsection \<open>The context, the header and the frame of the basic steps\<close>

lemma isELF64_valid [simp]: "validArch C \<Longrightarrow> isELF64 C = Inr (targetIsELF64 C)"
  by (simp add: isELF64_def validArch_def targetIsELF64_def)


lemma getELFMachine_eq_Inr: "(\<exists>m. getELFMachine C = Inr m) = validArch C"
  by (simp add: getELFMachine_def validArch_def)

lemma getELFFlags_eq_Inr: "(\<exists>m. getELFFlags C = Inr m) = validArch C"
  by (simp add: getELFFlags_def validArch_def)

lemma doWrites_Nil [simp]: "doWrites [] s = s"
  by (simp add: doWrites_def)

lemma doWrites_Cons [simp]: "doWrites (f # fs) s = doWrites fs (f s)"
  by (simp add: doWrites_def)

lemmas writer_defs = write8_def writeLE16_def writeLE32_def writeLE64_def writeZeroPadding_def
  writeELFWord_def writeELFXword_def writeAddrOrOffset_def

lemma writeELFHeaderInternal_Inr:
  assumes "writeELFHeaderInternal b off idx n W = Inr W'"
  shows "n < SHN_LORESERVE \<and> idx < SHN_LORESERVE \<and> validArch (Ctx W) \<and>
         (\<exists>m f. getELFMachine (Ctx W) = Inr m \<and> getELFFlags (Ctx W) = Inr f \<and> W' = W\<lparr>Str := writeBytes (ELFHeaderBytes b m f off idx n) (Str W)\<rparr>)"
  using assms
  by (auto simp add: writeELFHeaderInternal_def bindE_eq_Inr Let_def writer_defs
        writeBytes_writeBytes ELFHeaderBytes_def getELFMachine_def getELFFlags_def validArch_def
      split: if_splits)

lemma writeELFHeaderInternal_succeeds:
  assumes "n < SHN_LORESERVE" "idx < SHN_LORESERVE" "validArch (Ctx W)"
  shows "\<exists>W'. writeELFHeaderInternal b off idx n W = Inr W'"
  using assms
  by (simp add: writeELFHeaderInternal_def Let_def getELFMachine_def getELFFlags_def validArch_def)

lemma updSection_fields [simp]:
  "Ctx (updSection p f W) = Ctx W"
  "Str (updSection p f W) = Str W"
  "SectionNumbersAssigned (updSection p f W) = SectionNumbersAssigned W"
  "TextSections (updSection p f W) = TextSections W"
  "DataSections (updSection p f W) = DataSections W"
  "RoDataSections (updSection p f W) = RoDataSections W"
  "RelTextSections (updSection p f W) = RelTextSections W"
  "RelDataSections (updSection p f W) = RelDataSections W"
  "RelRoDataSections (updSection p f W) = RelRoDataSections W"
  "NullSection (updSection p f W) = NullSection W"
  "ShStrTab (updSection p f W) = ShStrTab W"
  "SymTab (updSection p f W) = SymTab W"
  "StrTab (updSection p f W) = StrTab W"
  "ShStrTabData (updSection p f W) = ShStrTabData W"
  "StrTabData (updSection p f W) = StrTabData W"
  "SymTabData (updSection p f W) = SymTabData W"
  "length (Sections (updSection p f W)) = length (Sections W)"
  by (simp_all add: updSection_def)

lemma getSection_updSection:
  "getSection (updSection p f W) q =
     (if q = p \<and> p < length (Sections W) then f (getSection W p) else getSection W q)"
  by (auto simp add: getSection_def updSection_def list_update_beyond not_less)

lemma createDefinedSym_fields [simp]:
  "Ctx (createDefinedSym N Ty B Sec Off Sz W) = Ctx W"
  "Str (createDefinedSym N Ty B Sec Off Sz W) = Str W"
  "SectionNumbersAssigned (createDefinedSym N Ty B Sec Off Sz W) = SectionNumbersAssigned W"
  "Sections (createDefinedSym N Ty B Sec Off Sz W) = Sections W"
  "TextSections (createDefinedSym N Ty B Sec Off Sz W) = TextSections W"
  "DataSections (createDefinedSym N Ty B Sec Off Sz W) = DataSections W"
  "RoDataSections (createDefinedSym N Ty B Sec Off Sz W) = RoDataSections W"
  "RelTextSections (createDefinedSym N Ty B Sec Off Sz W) = RelTextSections W"
  "RelDataSections (createDefinedSym N Ty B Sec Off Sz W) = RelDataSections W"
  "RelRoDataSections (createDefinedSym N Ty B Sec Off Sz W) = RelRoDataSections W"
  "NullSection (createDefinedSym N Ty B Sec Off Sz W) = NullSection W"
  "ShStrTab (createDefinedSym N Ty B Sec Off Sz W) = ShStrTab W"
  "SymTab (createDefinedSym N Ty B Sec Off Sz W) = SymTab W"
  "StrTab (createDefinedSym N Ty B Sec Off Sz W) = StrTab W"
  "ShStrTabData (createDefinedSym N Ty B Sec Off Sz W) = ShStrTabData W"
  "StrTabData (createDefinedSym N Ty B Sec Off Sz W) = StrTabData W"
  "getSection (createDefinedSym N Ty B Sec Off Sz W) q = getSection W q"
  by (simp_all add: createDefinedSym_def getSection_def)

lemma strTabAdd_fields [simp]:
  "Ctx (strTabAdd N W) = Ctx W"
  "Str (strTabAdd N W) = Str W"
  "SectionNumbersAssigned (strTabAdd N W) = SectionNumbersAssigned W"
  "Sections (strTabAdd N W) = Sections W"
  "TextSections (strTabAdd N W) = TextSections W"
  "DataSections (strTabAdd N W) = DataSections W"
  "RoDataSections (strTabAdd N W) = RoDataSections W"
  "RelTextSections (strTabAdd N W) = RelTextSections W"
  "RelDataSections (strTabAdd N W) = RelDataSections W"
  "RelRoDataSections (strTabAdd N W) = RelRoDataSections W"
  "NullSection (strTabAdd N W) = NullSection W"
  "ShStrTab (strTabAdd N W) = ShStrTab W"
  "SymTab (strTabAdd N W) = SymTab W"
  "StrTab (strTabAdd N W) = StrTab W"
  "ShStrTabData (strTabAdd N W) = ShStrTabData W"
  "SymTabData (strTabAdd N W) = SymTabData W"
  "getSection (strTabAdd N W) q = getSection W q"
  by (simp_all add: strTabAdd_def getSection_def)

lemma createSection_eq_Inr:
  "(createSection N T F A E W = Inr (P, W')) =
     (\<not> SectionNumbersAssigned W \<and> P = length (Sections W) \<and>
      W' = W\<lparr>Sections := Sections W @ [newELFSection N T F A E],
              ShStrTabData := add N (ShStrTabData W)\<rparr>)"
  by (auto simp add: createSection_def bindE_eq_Inr)

lemma newELFObjectWriter_valid:
  assumes "validArch C"
  shows "newELFObjectWriter C Out =
     Inr \<lparr>Ctx = C, Str = Out, SectionNumbersAssigned = False,
          Sections = [newELFSection [] SHT_NULL 0 0 0,
                      newELFSection ''.shstrtab'' SHT_STRTAB 0 1 0,
                      newELFSection ''.symtab'' SHT_SYMTAB 0 (if targetIsELF64 C then 8 else 4)
                        (sizeof_Elf_Sym (targetIsELF64 C)),
                      newELFSection ''.strtab'' SHT_STRTAB 0 1 0],
          TextSections = [], DataSections = [], RoDataSections = [],
          RelTextSections = [], RelDataSections = [], RelRoDataSections = [],
          NullSection = 0, ShStrTab = 1, SymTab = 2, StrTab = 3,
          ShStrTabData = \<lparr>Strings = [''.shstrtab'', ''.symtab'', ''.strtab''], LaidOut = False\<rparr>,
          StrTabData = emptyStringTable,
          SymTabData = \<lparr>LocalSymbols = [newSym [] STT_NOTYPE STB_LOCAL 0 0 0],
                        GlobalSymbols = []\<rparr>\<rparr>"
  using assms
  by (simp add: newELFObjectWriter_def createSection_def Let_def createDefinedSym_def
        tableCreateDefinedSym_def add_def emptyStringTable_def)

lemma newELFObjectWriter_invalid:
  "\<not> validArch C \<Longrightarrow> \<exists>e. newELFObjectWriter C Out = Inl e"
  by (simp add: newELFObjectWriter_def isELF64_def validArch_def)

lemma validArch_exampleContext: "validArch exampleContext"
  by (simp add: validArch_def exampleContext_def TargetArch_NUM_def)

lemma exampleWriter_eq: "newELFObjectWriter exampleContext emptyStream = Inr exampleWriter"
  by (simp add: exampleWriter_def newELFObjectWriter_valid [OF validArch_exampleContext])


lemma writeInitialELFHeader_valid:
  assumes "validArch (Ctx W)" "\<not> SectionNumbersAssigned W"
  shows "writeInitialELFHeader W =
           Inr (W\<lparr>Str := writeBytes
                  (ELFHeaderBytes (targetIsELF64 (Ctx W))
                     (fst (snd (ELFTargetInfo (Ctx W) ! getTargetArch (Ctx W))))
                     (snd (snd (ELFTargetInfo (Ctx W) ! getTargetArch (Ctx W)))) 0 0 0)
                  (Str W)\<rparr>)"
proof -
  obtain W' where W': "writeELFHeaderInternal (targetIsELF64 (Ctx W)) 0 0 0 W = Inr W'"
    using writeELFHeaderInternal_succeeds [of 0 0 W] assms by (auto simp add: SHN_LORESERVE_def)
  from writeELFHeaderInternal_Inr [OF W'] assms show ?thesis
    by (auto simp add: writeInitialELFHeader_def W' getELFMachine_def getELFFlags_def
          validArch_def)
qed

subsection \<open>Construction\<close>

text \<open>
  Claim C7, as stated: constructing the writer at once writes a dummy ELF header to the
  sink. It does not: after the construction from the example context the sink, empty
  before, is still empty.
\<close>

theorem constructor_writes_nothing_counterexample:
  "map_sum id (Buffer \<circ> Str) (newELFObjectWriter exampleContext emptyStream) = Inr []"
  by (simp add: exampleWriter_eq exampleWriter_def
        newELFObjectWriter_valid [OF validArch_exampleContext] emptyStream_def)

text \<open>
  Claim C7, amended: for a valid target the constructor succeeds, leaves the sink as it
  is, and creates the four bookkeeping sections (the null section, .shstrtab, .symtab,
  .strtab) and the symbol table whose only entry is the all-zero NULL symbol with binding
  LOCAL; the dummy ELF header (section-header offset, string index and section count 0)
  is written by the separate call \<open>writeInitialELFHeader\<close>.
\<close>

theorem constructor_creates_bookkeeping_sections:
  assumes "validArch C"
  shows "\<exists>W. newELFObjectWriter C Out = Inr W \<and> Str W = Out \<and>
           map Name (Sections W) = [[], ''.shstrtab'', ''.symtab'', ''.strtab''] \<and>
           map ShType (Sections W) = [SHT_NULL, SHT_STRTAB, SHT_SYMTAB, SHT_STRTAB] \<and>
           [NullSection W, ShStrTab W, SymTab W, StrTab W] = [0, 1, 2, 3] \<and>
           TextSections W @ DataSections W @ RoDataSections W @ RelTextSections W
             @ RelDataSections W @ RelRoDataSections W = [] \<and>
           allSymbols (SymTabData W) =
             [\<lparr>SymName = [], SymType = 0, SymBinding = STB_LOCAL, SymSection = NullSection W,
               st_value = 0, st_size = 0, st_name = 0\<rparr>] \<and>
           (\<exists>W'. writeInitialELFHeader W = Inr W' \<and>
                 Str W' = writeBytes
                   (ELFHeaderBytes (targetIsELF64 C)
                      (fst (snd (ELFTargetInfo C ! getTargetArch C)))
                      (snd (snd (ELFTargetInfo C ! getTargetArch C))) 0 0 0) Out \<and>
                 Sections W' = Sections W \<and> SymTabData W' = SymTabData W)"
  using assms
  by (simp add: newELFObjectWriter_valid writeInitialELFHeader_valid newELFSection_def
        allSymbols_def newSym_def STT_NOTYPE_def)

theorem constructor_creates_bookkeeping_sections_witness:
  "validArch exampleContext \<and>
   (\<exists>W. newELFObjectWriter exampleContext emptyStream = Inr W \<and> Str W = emptyStream \<and>
        map Name (Sections W) = [[], ''.shstrtab'', ''.symtab'', ''.strtab''] \<and>
        [NullSection W, ShStrTab W, SymTab W, StrTab W] = [0, 1, 2, 3])"
proof -
  from constructor_creates_bookkeeping_sections [OF validArch_exampleContext, of emptyStream]
  obtain W where
    "newELFObjectWriter exampleContext emptyStream = Inr W" "Str W = emptyStream"
    "map Name (Sections W) = [[], ''.shstrtab'', ''.symtab'', ''.strtab'']"
    "[NullSection W, ShStrTab W, SymTab W, StrTab W] = [0, 1, 2, 3]"
    by (elim exE conjE)
  then show ?thesis
    using validArch_exampleContext by - (intro conjI exI [of _ W]; assumption)
qed

subsection \<open>Data initializers\<close>

text \<open>
  Claim C9, as stated, fails once the section numbers are assigned: the call then stops
  at \<open>assert(!SectionNumbersAssigned)\<close>, before it reaches the diagnostic of the
  unimplemented case.
\<close>

theorem writeDataInitializer_after_numbering_counterexample:
  "SectionNumbersAssigned (exampleWriter\<lparr>SectionNumbersAssigned := True\<rparr>) \<and>
   fst (writeDataInitializer ''g'' [1, 2, 3, 4]
          (exampleWriter\<lparr>SectionNumbersAssigned := True\<rparr>)) =
     Inl (AssertionFailure ''!SectionNumbersAssigned'') \<and>
   fst (writeDataInitializer ''g'' [1, 2, 3, 4]
          (exampleWriter\<lparr>SectionNumbersAssigned := True\<rparr>)) \<noteq>
     Inl (Unreachable ''TODO'')"
  by (simp add: writeDataInitializer_def)

text \<open>
  Claim C9, amended: every call of \<open>writeDataInitializer\<close> fails, whatever its input, and
  leaves the sink (the whole writer) as it was. While the section numbers are not
  assigned, the failure is the diagnostic of the unimplemented case,
  \<open>llvm_unreachable("TODO")\<close>; once they are assigned, it is the failure of the assertion
  \<open>!SectionNumbersAssigned\<close>.
\<close>

theorem writeDataInitializer_never_succeeds:
  "(\<exists>e. fst (writeDataInitializer VarName Data W) = Inl e) \<and>
   (\<not> SectionNumbersAssigned W \<longrightarrow>
      fst (writeDataInitializer VarName Data W) = Inl (Unreachable ''TODO'')) \<and>
   (SectionNumbersAssigned W \<longrightarrow>
      fst (writeDataInitializer VarName Data W) =
        Inl (AssertionFailure ''!SectionNumbersAssigned'')) \<and>
   snd (writeDataInitializer VarName Data W) = W"
  by (simp add: writeDataInitializer_def)

theorem writeDataInitializer_never_succeeds_witness:
  "\<not> SectionNumbersAssigned exampleWriter \<and>
   fst (writeDataInitializer ''g'' [1, 2, 3, 4] exampleWriter) = Inl (Unreachable ''TODO'') \<and>
   Str (snd (writeDataInitializer ''g'' [1, 2, 3, 4] exampleWriter)) = emptyStream \<and>
   SectionNumbersAssigned (exampleWriter\<lparr>SectionNumbersAssigned := True\<rparr>) \<and>
   fst (writeDataInitializer ''h'' [] (exampleWriter\<lparr>SectionNumbersAssigned := True\<rparr>)) =
     Inl (AssertionFailure ''!SectionNumbersAssigned'') \<and>
   Str (snd (writeDataInitializer ''h'' [] (exampleWriter\<lparr>SectionNumbersAssigned := True\<rparr>))) =
     emptyStream"
proof -
  have "\<not> SectionNumbersAssigned exampleWriter" "Str exampleWriter = emptyStream"
    by (simp_all add: exampleWriter_def newELFObjectWriter_valid [OF validArch_exampleContext])
  then show ?thesis
    using writeDataInitializer_never_succeeds [of "''g''" "[1, 2, 3, 4]" exampleWriter]
      writeDataInitializer_never_succeeds
        [of "''h''" "[]" "exampleWriter\<lparr>SectionNumbersAssigned := True\<rparr>"]
    by simp
qed

subsection \<open>File offsets and constant pools\<close>

lemma isPowerOf2_32_iff: "isPowerOf2_32 A = (\<exists>k<32. A = 2 ^ k)"
  by (auto simp add: isPowerOf2_32_def)

lemma and_pow2_minus_1: "(x::nat) AND (2 ^ k - Suc 0) = x mod 2 ^ k"
proof -
  have "x AND mask k = take_bit k x"
    by (simp add: take_bit_eq_mask)
  then show ?thesis
    by (simp add: mask_eq_exp_minus_1 take_bit_eq_mod)
qed

lemma tell_writeZeroPadding [simp]: "tell (writeZeroPadding n s) = tell s + n"
  by (simp add: tell_def writeZeroPadding_def)

lemma and_align: "isPowerOf2_32 A \<Longrightarrow> x AND (A - Suc 0) = x mod A"
  by (auto simp add: isPowerOf2_32_iff and_pow2_minus_1)

lemma isPowerOf2_32_pos: "isPowerOf2_32 A \<Longrightarrow> 0 < A"
  by (auto simp add: isPowerOf2_32_iff)

lemma align_up_mod: "0 < (A::nat) \<Longrightarrow> (t + (A - t mod A)) mod A = 0"
proof -
  assume "0 < A"
  then have "t mod A \<le> A" by (simp add: less_imp_le)
  then have "t + (A - t mod A) = t div A * A + A"
    using div_mult_mod_eq [of t A] by linarith
  then show ?thesis by simp
qed

lemma isPowerOf2_32_less:
  assumes "isPowerOf2_32 A"
  shows "A < 2 ^ 32"
proof -
  from assms obtain k where k: "k < 32" "A = 2 ^ k"
    by (auto simp add: isPowerOf2_32_iff)
  have "(2::nat) ^ k < 2 ^ 32"
    by (rule power_strict_increasing) (simp_all add: k)
  with k show ?thesis by simp
qed

lemma isPowerOf2_32_narrow: "A < 2 ^ 32 \<Longrightarrow> isPowerOf2_32 (A mod 2 ^ 32) = isPowerOf2_32 A"
  by simp

lemma alignFileOffset_pow2:
  assumes "isPowerOf2_32 A"
  shows "alignFileOffset A W =
           (if tell (Str W) mod A = 0 then Inr (tell (Str W), W)
            else Inr (tell (Str W) + (A - tell (Str W) mod A),
                      W\<lparr>Str := writeZeroPadding (A - tell (Str W) mod A) (Str W)\<rparr>))"
proof -
  from isPowerOf2_32_less [OF assms] have "A mod 2 ^ 32 = A" by simp
  with assms align_up_mod [OF isPowerOf2_32_pos [OF assms], of "tell (Str W)"] show ?thesis
    by (simp add: alignFileOffset_def and_align Let_def)
qed

lemma alignFileOffset_not_pow2:
  "\<not> isPowerOf2_32 (A mod 2 ^ 32) \<Longrightarrow>
     alignFileOffset A W = Inl (AssertionFailure ''llvm::isPowerOf2_32(Align)'')"
  by (simp add: alignFileOffset_def)

text \<open>
  Whatever the alignment, a call that returns has only padded the stream with zeros, up
  to a position that has no bit of the mask \<open>Align - 1\<close>.
\<close>

lemma alignFileOffset_frame:
  assumes "alignFileOffset A W = Inr (off, W')"
  shows "isPowerOf2_32 (A mod 2 ^ 32) \<and> off AND (A - 1) = 0 \<and> tell (Str W) \<le> off \<and>
         tell (Str W') = off \<and>
         W' = W\<lparr>Str := writeZeroPadding (off - tell (Str W)) (Str W)\<rparr>"
proof -
  have P: "isPowerOf2_32 (A mod 2 ^ 32)"
    using assms alignFileOffset_not_pow2 [of A W]
    by (cases "isPowerOf2_32 (A mod 2 ^ 32)") simp_all
  show ?thesis
  proof (cases "tell (Str W) AND (A - 1) = 0")
    case True
    with assms P show ?thesis
      by (auto simp add: alignFileOffset_def writeZeroPadding_def)
  next
    case False
    with assms P show ?thesis
      by (auto simp add: alignFileOffset_def Let_def bindE_eq_Inr)
  qed
qed

lemma alignFileOffset_Ctx: "alignFileOffset A W = Inr (off, W') \<Longrightarrow> Ctx W' = Ctx W"
  using alignFileOffset_frame [of A W off W'] by (cases W') auto

lemma alignFileOffset_Inr:
  assumes "alignFileOffset A W = Inr (off, W')" and small: "A < 2 ^ 32"
  shows "isPowerOf2_32 A \<and> off mod A = 0 \<and> tell (Str W) \<le> off \<and> off < tell (Str W) + A \<and>
         tell (Str W') = off \<and>
         W' = W\<lparr>Str := writeZeroPadding (off - tell (Str W)) (Str W)\<rparr>"
proof -
  have P: "isPowerOf2_32 A"
    using alignFileOffset_frame [OF assms(1)] small by simp
  have pos: "0 < A" by (rule isPowerOf2_32_pos [OF P])
  have lt: "tell (Str W) mod A < A" using pos by simp
  show ?thesis
  proof (cases "tell (Str W) mod A = 0")
    case True
    with assms P pos show ?thesis
      by (auto simp add: alignFileOffset_pow2 writeZeroPadding_def)
  next
    case False
    with assms P pos lt align_up_mod [OF pos, of "tell (Str W)"] show ?thesis
      by (auto simp add: alignFileOffset_pow2)
  qed
qed

lemma alignFileOffset_succeeds:
  "isPowerOf2_32 A \<Longrightarrow> \<exists>off W'. alignFileOffset A W = Inr (off, W')"
  by (simp add: alignFileOffset_pow2)

lemma castValueBytes_Inr:
  "(castValueBytes CT C = Inr V) = (isConstType CT C \<and> V = valueBytes C)"
  by (cases CT; cases C) (auto simp add: castValueBytes_def isConstType_def valueBytes_def)

lemma castValueBytes_Inl:
  "(\<exists>e. castValueBytes CT C = Inl e) = (\<not> isConstType CT C)"
  by (cases CT; cases C) (auto simp add: castValueBytes_def isConstType_def)

lemma writePoolLoop_Inr:
  "writePoolLoop CT Sec N Pool Off W = Inr (Off', W') \<Longrightarrow>
     Off' = Off + N * length Pool \<and> (\<forall>C \<in> set Pool. isConstType CT C) \<and>
     W' = W\<lparr>SymTabData := (SymTabData W)\<lparr>LocalSymbols :=
                 LocalSymbols (SymTabData W) @ poolSymbols Sec N Off Pool\<rparr>,
             StrTabData := foldl (\<lambda>T C. add (poolLabel C) T) (StrTabData W) Pool,
             Str := writeBytes (poolBytes N Pool) (Str W)\<rparr>"
proof (induction Pool arbitrary: Off W)
  case Nil
  then show ?case by (simp add: poolBytes_def)
next
  case (Cons C Pool)
  from Cons.prems obtain V where V: "castValueBytes CT C = Inr V"
    by (cases "castValueBytes CT C") simp_all
  then have C: "isConstType CT C" "V = valueBytes C"
    by (simp_all add: castValueBytes_Inr)
  let ?W3 = "(strTabAdd (poolLabel C)
               (createDefinedSym (poolLabel C) STT_NOTYPE STB_LOCAL Sec Off 0 W))
             \<lparr>Str := writeBytes (take N V) (Str W)\<rparr>"
  from Cons.prems V have R: "writePoolLoop CT Sec N Pool (Off + N) ?W3 = Inr (Off', W')"
    by (simp add: Let_def)
  from Cons.IH [OF R] C show ?case
    by (simp add: poolBytes_def writeBytes_writeBytes strTabAdd_def createDefinedSym_def
          tableCreateDefinedSym_def)
qed

lemma writePoolLoop_succeeds:
  "\<forall>C \<in> set Pool. isConstType CT C \<Longrightarrow>
     \<exists>r. writePoolLoop CT Sec N Pool Off W = Inr r"
proof (induction Pool arbitrary: Off W)
  case Nil
  show ?case by simp
next
  case (Cons C Pool)
  then have "castValueBytes CT C = Inr (valueBytes C)"
    by (simp add: castValueBytes_Inr)
  with Cons show ?case
    by (simp add: Let_def)
qed


lemma writeConstantPool_empty:
  "getConstantPool (Ctx W) Ty = [] \<Longrightarrow> writeConstantPool CT Ty W = Inr W"
  by (simp add: writeConstantPool_def)

lemma writeConstantPool_Inr:
  assumes "writeConstantPool CT Ty W = Inr W'" and ne: "getConstantPool (Ctx W) Ty \<noteq> []"
  shows "typeWidthInBytes Ty \<le> array_lengthof_Buf \<and> typeWidthInBytes Ty = sizeof_PrimType CT \<and>
         typeAlignInBytes Ty \<noteq> 0 \<and> typeWidthInBytes Ty mod typeAlignInBytes Ty = 0 \<and>
         \<not> SectionNumbersAssigned W \<and> isPowerOf2_32 (typeAlignInBytes Ty) \<and>
         (\<forall>C \<in> set (getConstantPool (Ctx W) Ty). isConstType CT C) \<and>
         (\<exists>off. off mod typeAlignInBytes Ty = 0 \<and> tell (Str W) \<le> off \<and>
            off < tell (Str W) + typeAlignInBytes Ty \<and>
            W' = W\<lparr>Sections := Sections W
                       @ [constantPoolSection Ty off (length (getConstantPool (Ctx W) Ty))],
                    ShStrTabData := add (''.rodata.cst'' @ decimal (typeWidthInBytes Ty))
                                      (ShStrTabData W),
                    RoDataSections := RoDataSections W @ [length (Sections W)],
                    SymTabData := (SymTabData W)\<lparr>LocalSymbols :=
                       LocalSymbols (SymTabData W)
                       @ poolSymbols (length (Sections W)) (typeWidthInBytes Ty) 0
                           (getConstantPool (Ctx W) Ty)\<rparr>,
                    StrTabData := foldl (\<lambda>T C. add (poolLabel C) T) (StrTabData W)
                                    (getConstantPool (Ctx W) Ty),
                    Str := writeBytes (poolBytes (typeWidthInBytes Ty) (getConstantPool (Ctx W) Ty))
                             (writeZeroPadding (off - tell (Str W)) (Str W))\<rparr>)"
proof -
  let ?Pool = "getConstantPool (Ctx W) Ty"
  let ?N = "typeWidthInBytes Ty"
  let ?A = "typeAlignInBytes Ty"
  let ?name = "''.rodata.cst'' @ decimal ?N"
  let ?P = "length (Sections W)"
  from assms have le: "?N \<le> array_lengthof_Buf"
    by (simp add: writeConstantPool_def Let_def bindE_eq_Inr min_def split: if_splits)
  then have m: "min ?N array_lengthof_Buf = ?N" by simp
  let ?W2 = "W\<lparr>Sections := Sections W @ [newELFSection ?name SHT_PROGBITS (SHF_ALLOC OR SHF_MERGE) ?A ?N],
                ShStrTabData := add ?name (ShStrTabData W),
                RoDataSections := RoDataSections W @ [?P]\<rparr>"
  from assms m obtain off W3 Off' W5 where
    a: "?A \<noteq> 0" "?N mod ?A = 0" "?N = sizeof_PrimType CT" "\<not> SectionNumbersAssigned W"
    and al: "alignFileOffset ?A ?W2 = Inr (off, W3)"
    and lp: "writePoolLoop CT ?P ?N ?Pool 0 (updSection ?P (setFileOffset off) W3) = Inr (Off', W5)"
    and W': "W' = updSection ?P (setSize Off') W5"
    by (auto simp add: writeConstantPool_def Let_def bindE_eq_Inr createSection_eq_Inr)
  have "0 < ?N"
    using a(3) by (cases CT) (simp_all add: sizeof_PrimType_def)
  moreover from a(2) have "?A dvd ?N"
    by (simp add: mod_eq_0_iff_dvd)
  ultimately have "?A \<le> ?N"
    by (simp add: dvd_imp_le)
  with le have small: "?A < 2 ^ 32"
    by (simp add: array_lengthof_Buf_def)
  note A = alignFileOffset_Inr [OF al small]
  note L = writePoolLoop_Inr [OF lp]
  from A have W3: "W3 = ?W2\<lparr>Str := writeZeroPadding (off - tell (Str W)) (Str W)\<rparr>"
    by simp
  have "W' = W\<lparr>Sections := Sections W @ [constantPoolSection Ty off (length ?Pool)],
                ShStrTabData := add ?name (ShStrTabData W),
                RoDataSections := RoDataSections W @ [?P],
                SymTabData := (SymTabData W)\<lparr>LocalSymbols :=
                   LocalSymbols (SymTabData W) @ poolSymbols ?P ?N 0 ?Pool\<rparr>,
                StrTabData := foldl (\<lambda>T C. add (poolLabel C) T) (StrTabData W) ?Pool,
                Str := writeBytes (poolBytes ?N ?Pool)
                         (writeZeroPadding (off - tell (Str W)) (Str W))\<rparr>"
    using L by (simp add: W' W3 updSection_def constantPoolSection_def setFileOffset_def
        setSize_def newELFSection_def)
  with a le A L show ?thesis
    by (intro conjI exI [of _ off]) simp_all
qed

subsection \<open>Constant pools: the section, the symbols and the write amount\<close>

lemma writeConstantPool_succeeds:
  assumes "typeWidthInBytes Ty \<le> array_lengthof_Buf" "typeWidthInBytes Ty = sizeof_PrimType CT"
    "typeAlignInBytes Ty \<noteq> 0" "typeWidthInBytes Ty mod typeAlignInBytes Ty = 0"
    "\<not> SectionNumbersAssigned W" "isPowerOf2_32 (typeAlignInBytes Ty)"
    "\<forall>C \<in> set (getConstantPool (Ctx W) Ty). isConstType CT C"
  shows "\<exists>W'. writeConstantPool CT Ty W = Inr W'"
proof (cases "getConstantPool (Ctx W) Ty = []")
  case True
  then show ?thesis by (simp add: writeConstantPool_empty)
next
  case False
  let ?W2 = "W\<lparr>Sections := Sections W @ [newELFSection (''.rodata.cst'' @ decimal (typeWidthInBytes Ty))
                   SHT_PROGBITS (SHF_ALLOC OR SHF_MERGE) (typeAlignInBytes Ty) (typeWidthInBytes Ty)],
                ShStrTabData := add (''.rodata.cst'' @ decimal (typeWidthInBytes Ty)) (ShStrTabData W),
                RoDataSections := RoDataSections W @ [length (Sections W)]\<rparr>"
  from alignFileOffset_succeeds [OF assms(6), of ?W2]
  obtain off W3 where al: "alignFileOffset (typeAlignInBytes Ty) ?W2 = Inr (off, W3)"
    by blast
  from alignFileOffset_frame [OF al] have C3: "Ctx W3 = Ctx W"
    by simp
  from writePoolLoop_succeeds [OF assms(7), of "length (Sections W)" "typeWidthInBytes Ty" 0
      "updSection (length (Sections W)) (setFileOffset off) W3"]
  obtain r where lp: "writePoolLoop CT (length (Sections W)) (typeWidthInBytes Ty)
      (getConstantPool (Ctx W) Ty) 0 (updSection (length (Sections W)) (setFileOffset off) W3) = Inr r"
    by blast
  from assms False al lp show ?thesis
    by (cases r) (simp add: writeConstantPool_def Let_def createSection_def min_def)
qed

lemma poolSymbols_eq_map:
  "poolSymbols Sec N Off Pool =
     map (\<lambda>i. newSym (poolLabel (Pool ! i)) STT_NOTYPE STB_LOCAL Sec (Off + N * i) 0)
       [0..<length Pool]"
proof (induction Pool arbitrary: Off)
  case Nil
  show ?case by simp
next
  case (Cons C Pool)
  show ?case
    by (simp add: Cons.IH map_upt_Suc del: upt_Suc) (simp add: ac_simps)
qed

lemma length_valueBytes: "isConstType CT C \<Longrightarrow> length (valueBytes C) = sizeof_PrimType CT"
  by (cases CT; cases C) (simp_all add: isConstType_def valueBytes_def sizeof_PrimType_def)

lemma poolBytes_full:
  "\<forall>C \<in> set Pool. isConstType CT C \<Longrightarrow>
     poolBytes (sizeof_PrimType CT) Pool = concat (map valueBytes Pool)"
  by (induction Pool) (simp_all add: poolBytes_def length_valueBytes [of CT])

lemma length_poolBytes:
  "\<forall>C \<in> set Pool. isConstType CT C \<Longrightarrow>
     length (poolBytes (sizeof_PrimType CT) Pool) = sizeof_PrimType CT * length Pool"
  by (induction Pool) (simp_all add: poolBytes_def length_valueBytes [of CT])

lemma decimal_4: "decimal 4 = ''4''"
  by code_simp

lemma decimal_8: "decimal 8 = ''8''"
  by code_simp


lemma exampleWriter_facts:
  "Ctx exampleWriter = exampleContext" "\<not> SectionNumbersAssigned exampleWriter"
  "Str exampleWriter = emptyStream" "length (Sections exampleWriter) = 4"
  "TextSections exampleWriter = []" "RoDataSections exampleWriter = []"
  "RelTextSections exampleWriter = []"
  by (simp_all add: exampleWriter_def newELFObjectWriter_valid [OF validArch_exampleContext])

lemma examplePool:
  "getConstantPool exampleContext IceType_f32 =
     [ConstantFloat ''L$float$0'' 1065353216, ConstantFloat ''L$float$1'' 1073741824]"
  by (simp add: getConstantPool_def exampleContext_def)

lemma isPowerOf2_32_numerals:
  "isPowerOf2_32 1" "isPowerOf2_32 4" "isPowerOf2_32 8" "isPowerOf2_32 32"
proof -
  show "isPowerOf2_32 1" unfolding isPowerOf2_32_iff by (rule exI [of _ 0]) simp
  show "isPowerOf2_32 4" unfolding isPowerOf2_32_iff by (rule exI [of _ 2]) simp
  show "isPowerOf2_32 8" unfolding isPowerOf2_32_iff by (rule exI [of _ 3]) simp
  show "isPowerOf2_32 32" unfolding isPowerOf2_32_iff by (rule exI [of _ 5]) simp
qed

lemma le_bytes_numeral:
  "le_bytes (numeral k) v = of_nat (v mod 256) # le_bytes (pred_numeral k) (v div 256)"
  by (simp only: numeral_eq_Suc le_bytes.simps)

lemma f32_supported:
  "typeWidthInBytes IceType_f32 \<le> array_lengthof_Buf"
  "typeWidthInBytes IceType_f32 = sizeof_PrimType ConstantFloatT"
  "typeAlignInBytes IceType_f32 \<noteq> 0"
  "typeWidthInBytes IceType_f32 mod typeAlignInBytes IceType_f32 = 0"
  "isPowerOf2_32 (typeAlignInBytes IceType_f32)"
  by (simp_all add: IceType_f32_def array_lengthof_Buf_def sizeof_PrimType_def
        isPowerOf2_32_numerals)

lemma f64_supported:
  "typeWidthInBytes IceType_f64 \<le> array_lengthof_Buf"
  "typeWidthInBytes IceType_f64 = sizeof_PrimType ConstantDoubleT"
  "typeAlignInBytes IceType_f64 \<noteq> 0"
  "typeWidthInBytes IceType_f64 mod typeAlignInBytes IceType_f64 = 0"
  "isPowerOf2_32 (typeAlignInBytes IceType_f64)"
  by (simp_all add: IceType_f64_def array_lengthof_Buf_def sizeof_PrimType_def
        isPowerOf2_32_numerals)

lemma exampleBytes:
  "concat (map valueBytes [ConstantFloat ''L$float$0'' 1065353216,
                           ConstantFloat ''L$float$1'' 1073741824]) =
     [0, 0, 128, 63, 0, 0, 0, 64]"
  by (simp add: valueBytes_def le_bytes_numeral)

lemma exampleWithPool_eq:
  "writeConstantPool ConstantFloatT IceType_f32 exampleWriter = Inr exampleWithPool"
proof -
  have "\<forall>C \<in> set (getConstantPool (Ctx exampleWriter) IceType_f32). isConstType ConstantFloatT C"
    by (simp add: exampleWriter_facts examplePool isConstType_def)
  then have "\<exists>W'. writeConstantPool ConstantFloatT IceType_f32 exampleWriter = Inr W'"
    by (intro writeConstantPool_succeeds f32_supported exampleWriter_facts)
  then show ?thesis
    by (auto simp add: exampleWithPool_def)
qed

text \<open>
  Claim C6: \<open>writeConstantPool\<close> returns the writer unchanged when the pool is empty.
  Otherwise, when it returns, it has appended exactly one section to the arena and to
  RoDataSections, named .rodata.cst<N> (N the element size), of type PROGBITS with the
  flags ALLOC|MERGE, the alignment of the type, entsize N, an aligned file offset and
  the size N times the number of constants; it has added one LOCAL NOTYPE symbol per
  constant at the offsets 0, N, 2N, ... and written the bytes of the constants after the
  padding. For the two pool types the alignment is N (4 for f32, 8 for f64), the names
  are .rodata.cst4 and .rodata.cst8, and the call does return.
\<close>

theorem writeConstantPool_creates_one_section:
  "(getConstantPool (Ctx W) Ty = [] \<longrightarrow> writeConstantPool CT Ty W = Inr W) \<and>
   (getConstantPool (Ctx W) Ty \<noteq> [] \<longrightarrow> writeConstantPool CT Ty W = Inr W' \<longrightarrow>
      (\<exists>off S. Sections W' = Sections W @ [S] \<and>
         RoDataSections W' = RoDataSections W @ [length (Sections W)] \<and>
         Name S = ''.rodata.cst'' @ decimal (typeWidthInBytes Ty) \<and>
         ShType S = SHT_PROGBITS \<and> ShFlags S = SHF_ALLOC OR SHF_MERGE \<and>
         ShAddralign S = typeAlignInBytes Ty \<and> ShEntsize S = typeWidthInBytes Ty \<and>
         FileOffset S = off \<and> off mod typeAlignInBytes Ty = 0 \<and>
         tell (Str W) \<le> off \<and> off < tell (Str W) + typeAlignInBytes Ty \<and>
         Size S = typeWidthInBytes Ty * length (getConstantPool (Ctx W) Ty) \<and>
         LocalSymbols (SymTabData W') = LocalSymbols (SymTabData W)
           @ map (\<lambda>i. \<lparr>SymName = poolLabel (getConstantPool (Ctx W) Ty ! i),
                        SymType = STT_NOTYPE, SymBinding = STB_LOCAL,
                        SymSection = length (Sections W),
                        st_value = typeWidthInBytes Ty * i, st_size = 0, st_name = 0\<rparr>)
               [0..<length (getConstantPool (Ctx W) Ty)] \<and>
         GlobalSymbols (SymTabData W') = GlobalSymbols (SymTabData W) \<and>
         Str W' = writeBytes (concat (map valueBytes (getConstantPool (Ctx W) Ty)))
                    (writeZeroPadding (off - tell (Str W)) (Str W)) \<and>
         TextSections W' = TextSections W \<and> DataSections W' = DataSections W \<and>
         RelTextSections W' = RelTextSections W \<and> RelDataSections W' = RelDataSections W \<and>
         RelRoDataSections W' = RelRoDataSections W)) \<and>
   typeWidthInBytes IceType_f32 = 4 \<and> typeAlignInBytes IceType_f32 = 4 \<and>
   ''.rodata.cst'' @ decimal (typeWidthInBytes IceType_f32) = ''.rodata.cst4'' \<and>
   typeWidthInBytes IceType_f64 = 8 \<and> typeAlignInBytes IceType_f64 = 8 \<and>
   ''.rodata.cst'' @ decimal (typeWidthInBytes IceType_f64) = ''.rodata.cst8'' \<and>
   (\<not> SectionNumbersAssigned W \<longrightarrow>
      (\<forall>C \<in> set (getConstantPool (Ctx W) IceType_f32). isConstType ConstantFloatT C) \<longrightarrow>
      (\<exists>W'. writeConstantPool ConstantFloatT IceType_f32 W = Inr W')) \<and>
   (\<not> SectionNumbersAssigned W \<longrightarrow>
      (\<forall>C \<in> set (getConstantPool (Ctx W) IceType_f64). isConstType ConstantDoubleT C) \<longrightarrow>
      (\<exists>W'. writeConstantPool ConstantDoubleT IceType_f64 W = Inr W'))"
proof -
  have 1: "getConstantPool (Ctx W) Ty = [] \<longrightarrow> writeConstantPool CT Ty W = Inr W"
    by (simp add: writeConstantPool_empty)
  have 2: "getConstantPool (Ctx W) Ty \<noteq> [] \<longrightarrow> writeConstantPool CT Ty W = Inr W' \<longrightarrow>
      (\<exists>off S. Sections W' = Sections W @ [S] \<and>
         RoDataSections W' = RoDataSections W @ [length (Sections W)] \<and>
         Name S = ''.rodata.cst'' @ decimal (typeWidthInBytes Ty) \<and>
         ShType S = SHT_PROGBITS \<and> ShFlags S = SHF_ALLOC OR SHF_MERGE \<and>
         ShAddralign S = typeAlignInBytes Ty \<and> ShEntsize S = typeWidthInBytes Ty \<and>
         FileOffset S = off \<and> off mod typeAlignInBytes Ty = 0 \<and>
         tell (Str W) \<le> off \<and> off < tell (Str W) + typeAlignInBytes Ty \<and>
         Size S = typeWidthInBytes Ty * length (getConstantPool (Ctx W) Ty) \<and>
         LocalSymbols (SymTabData W') = LocalSymbols (SymTabData W)
           @ map (\<lambda>i. \<lparr>SymName = poolLabel (getConstantPool (Ctx W) Ty ! i),
                        SymType = STT_NOTYPE, SymBinding = STB_LOCAL,
                        SymSection = length (Sections W),
                        st_value = typeWidthInBytes Ty * i, st_size = 0, st_name = 0\<rparr>)
               [0..<length (getConstantPool (Ctx W) Ty)] \<and>
         GlobalSymbols (SymTabData W') = GlobalSymbols (SymTabData W) \<and>
         Str W' = writeBytes (concat (map valueBytes (getConstantPool (Ctx W) Ty)))
                    (writeZeroPadding (off - tell (Str W)) (Str W)) \<and>
         TextSections W' = TextSections W \<and> DataSections W' = DataSections W \<and>
         RelTextSections W' = RelTextSections W \<and> RelDataSections W' = RelDataSections W \<and>
         RelRoDataSections W' = RelRoDataSections W)"
  proof (intro impI)
    assume ne: "getConstantPool (Ctx W) Ty \<noteq> []" and ok: "writeConstantPool CT Ty W = Inr W'"
    from writeConstantPool_Inr [OF ok ne] obtain off where
      N: "typeWidthInBytes Ty = sizeof_PrimType CT"
      and K: "\<forall>C \<in> set (getConstantPool (Ctx W) Ty). isConstType CT C"
      and off: "off mod typeAlignInBytes Ty = 0" "tell (Str W) \<le> off"
        "off < tell (Str W) + typeAlignInBytes Ty"
      and W': "W' = W\<lparr>Sections := Sections W
                       @ [constantPoolSection Ty off (length (getConstantPool (Ctx W) Ty))],
                    ShStrTabData := add (''.rodata.cst'' @ decimal (typeWidthInBytes Ty))
                                      (ShStrTabData W),
                    RoDataSections := RoDataSections W @ [length (Sections W)],
                    SymTabData := (SymTabData W)\<lparr>LocalSymbols :=
                       LocalSymbols (SymTabData W)
                       @ poolSymbols (length (Sections W)) (typeWidthInBytes Ty) 0
                           (getConstantPool (Ctx W) Ty)\<rparr>,
                    StrTabData := foldl (\<lambda>T C. add (poolLabel C) T) (StrTabData W)
                                    (getConstantPool (Ctx W) Ty),
                    Str := writeBytes (poolBytes (typeWidthInBytes Ty) (getConstantPool (Ctx W) Ty))
                             (writeZeroPadding (off - tell (Str W)) (Str W))\<rparr>"
      by (elim conjE exE)
    show "\<exists>off S. Sections W' = Sections W @ [S] \<and>
         RoDataSections W' = RoDataSections W @ [length (Sections W)] \<and>
         Name S = ''.rodata.cst'' @ decimal (typeWidthInBytes Ty) \<and>
         ShType S = SHT_PROGBITS \<and> ShFlags S = SHF_ALLOC OR SHF_MERGE \<and>
         ShAddralign S = typeAlignInBytes Ty \<and> ShEntsize S = typeWidthInBytes Ty \<and>
         FileOffset S = off \<and> off mod typeAlignInBytes Ty = 0 \<and>
         tell (Str W) \<le> off \<and> off < tell (Str W) + typeAlignInBytes Ty \<and>
         Size S = typeWidthInBytes Ty * length (getConstantPool (Ctx W) Ty) \<and>
         LocalSymbols (SymTabData W') = LocalSymbols (SymTabData W)
           @ map (\<lambda>i. \<lparr>SymName = poolLabel (getConstantPool (Ctx W) Ty ! i),
                        SymType = STT_NOTYPE, SymBinding = STB_LOCAL,
                        SymSection = length (Sections W),
                        st_value = typeWidthInBytes Ty * i, st_size = 0, st_name = 0\<rparr>)
               [0..<length (getConstantPool (Ctx W) Ty)] \<and>
         GlobalSymbols (SymTabData W') = GlobalSymbols (SymTabData W) \<and>
         Str W' = writeBytes (concat (map valueBytes (getConstantPool (Ctx W) Ty)))
                    (writeZeroPadding (off - tell (Str W)) (Str W)) \<and>
         TextSections W' = TextSections W \<and> DataSections W' = DataSections W \<and>
         RelTextSections W' = RelTextSections W \<and> RelDataSections W' = RelDataSections W \<and>
         RelRoDataSections W' = RelRoDataSections W"
      using off poolBytes_full [OF K]
      by (intro exI [of _ off]
            exI [of _ "constantPoolSection Ty off (length (getConstantPool (Ctx W) Ty))"])
         (simp add: W' constantPoolSection_def newELFSection_def poolSymbols_eq_map newSym_def N)
  qed
  have 3: "typeWidthInBytes IceType_f32 = 4 \<and> typeAlignInBytes IceType_f32 = 4 \<and>
      ''.rodata.cst'' @ decimal (typeWidthInBytes IceType_f32) = ''.rodata.cst4'' \<and>
      typeWidthInBytes IceType_f64 = 8 \<and> typeAlignInBytes IceType_f64 = 8 \<and>
      ''.rodata.cst'' @ decimal (typeWidthInBytes IceType_f64) = ''.rodata.cst8''"
    by (simp add: IceType_f32_def IceType_f64_def decimal_4 decimal_8)
  have 4: "\<not> SectionNumbersAssigned W \<longrightarrow>
      (\<forall>C \<in> set (getConstantPool (Ctx W) IceType_f32). isConstType ConstantFloatT C) \<longrightarrow>
      (\<exists>W'. writeConstantPool ConstantFloatT IceType_f32 W = Inr W')"
    by (intro impI writeConstantPool_succeeds f32_supported)
  have 5: "\<not> SectionNumbersAssigned W \<longrightarrow>
      (\<forall>C \<in> set (getConstantPool (Ctx W) IceType_f64). isConstType ConstantDoubleT C) \<longrightarrow>
      (\<exists>W'. writeConstantPool ConstantDoubleT IceType_f64 W = Inr W')"
    by (intro impI writeConstantPool_succeeds f64_supported)
  from 1 2 3 4 5 show ?thesis
    by (intro conjI) (elim conjE; assumption)+
qed


theorem writeConstantPool_creates_one_section_witness:
  "getConstantPool (Ctx exampleWriter) IceType_f32 \<noteq> [] \<and>
   writeConstantPool ConstantFloatT IceType_f32 exampleWriter = Inr exampleWithPool \<and>
   (\<exists>S. Sections exampleWithPool = Sections exampleWriter @ [S] \<and>
        Name S = ''.rodata.cst4'' \<and> ShAddralign S = 4 \<and> ShEntsize S = 4 \<and> Size S = 8 \<and>
        map st_value (LocalSymbols (SymTabData exampleWithPool)) = [0, 0, 4] \<and>
        Buffer (Str exampleWithPool) = [0, 0, 128, 63, 0, 0, 0, 64])"
proof -
  have ne: "getConstantPool (Ctx exampleWriter) IceType_f32 \<noteq> []"
    by (simp add: exampleWriter_facts examplePool)
  note T = writeConstantPool_creates_one_section
    [of exampleWriter IceType_f32 ConstantFloatT exampleWithPool]
  from T [THEN conjunct2, THEN conjunct1, rule_format, OF ne exampleWithPool_eq]
  obtain off S where S: "Sections exampleWithPool = Sections exampleWriter @ [S]"
    "Name S = ''.rodata.cst'' @ decimal (typeWidthInBytes IceType_f32)"
    "ShAddralign S = typeAlignInBytes IceType_f32" "ShEntsize S = typeWidthInBytes IceType_f32"
    "Size S = typeWidthInBytes IceType_f32 * length (getConstantPool (Ctx exampleWriter) IceType_f32)"
    "off mod typeAlignInBytes IceType_f32 = 0" "FileOffset S = off"
    "off < tell (Str exampleWriter) + typeAlignInBytes IceType_f32"
    and L: "LocalSymbols (SymTabData exampleWithPool) = LocalSymbols (SymTabData exampleWriter)
           @ map (\<lambda>i. \<lparr>SymName = poolLabel (getConstantPool (Ctx exampleWriter) IceType_f32 ! i),
                        SymType = STT_NOTYPE, SymBinding = STB_LOCAL,
                        SymSection = length (Sections exampleWriter),
                        st_value = typeWidthInBytes IceType_f32 * i, st_size = 0, st_name = 0\<rparr>)
               [0..<length (getConstantPool (Ctx exampleWriter) IceType_f32)]"
    and B: "Str exampleWithPool =
         writeBytes (concat (map valueBytes (getConstantPool (Ctx exampleWriter) IceType_f32)))
           (writeZeroPadding (off - tell (Str exampleWriter)) (Str exampleWriter))"
    by (elim exE conjE)
  have n: "''.rodata.cst'' @ decimal (typeWidthInBytes IceType_f32) = ''.rodata.cst4''"
    "typeWidthInBytes IceType_f32 = 4" "typeAlignInBytes IceType_f32 = 4"
    by (simp_all add: IceType_f32_def decimal_4)
  have v: "map st_value (LocalSymbols (SymTabData exampleWithPool)) = [0, 0, 4]"
    by (simp add: L n exampleWriter_facts examplePool exampleWriter_def
          newELFObjectWriter_valid [OF validArch_exampleContext] newSym_def upt_rec)
  have "off = 0"
    using S(6) S(8) by (simp add: n exampleWriter_facts emptyStream_def tell_def)
  then have b: "Buffer (Str exampleWithPool) = [0, 0, 128, 63, 0, 0, 0, 64]"
    using exampleBytes
    by (simp add: B exampleWriter_facts examplePool writeBytes_def
          writeZeroPadding_def emptyStream_def)
  show ?thesis
    using ne exampleWithPool_eq S n v b
    by (intro conjI exI [of _ S]) (simp_all add: exampleWriter_facts examplePool)
qed


text \<open>
  Claim C10: the write amount of \<open>writeConstantPool\<close> is the element size clamped to the
  20 bytes of \<open>Buf\<close>. A pool whose element size exceeds 20 bytes stops at the first
  assertion, so whenever the call returns, the element size is at most 20 bytes and each
  element is written in its full width. For the two pool types, f32 and f64, the three
  assertions hold and the call returns.
\<close>

theorem writeConstantPool_write_amount:
  "array_lengthof_Buf = 20 \<and>
   (getConstantPool (Ctx W) Ty \<noteq> [] \<longrightarrow> array_lengthof_Buf < typeWidthInBytes Ty \<longrightarrow>
      writeConstantPool CT Ty W = Inl (AssertionFailure ''WriteAmt == EntSize'')) \<and>
   (getConstantPool (Ctx W) Ty \<noteq> [] \<longrightarrow> writeConstantPool CT Ty W = Inr W' \<longrightarrow>
      typeWidthInBytes Ty \<le> 20 \<and>
      min (typeWidthInBytes Ty) array_lengthof_Buf = typeWidthInBytes Ty \<and>
      min (typeWidthInBytes Ty) array_lengthof_Buf mod typeAlignInBytes Ty = 0 \<and>
      min (typeWidthInBytes Ty) array_lengthof_Buf = sizeof_PrimType CT \<and>
      (\<exists>off. tell (Str W) \<le> off \<and>
         Str W' = writeBytes (concat (map valueBytes (getConstantPool (Ctx W) Ty)))
                    (writeZeroPadding (off - tell (Str W)) (Str W))) \<and>
      (\<forall>C \<in> set (getConstantPool (Ctx W) Ty). length (valueBytes C) = typeWidthInBytes Ty)) \<and>
   min (typeWidthInBytes IceType_f32) array_lengthof_Buf = typeWidthInBytes IceType_f32 \<and>
   min (typeWidthInBytes IceType_f32) array_lengthof_Buf mod typeAlignInBytes IceType_f32 = 0 \<and>
   min (typeWidthInBytes IceType_f32) array_lengthof_Buf = sizeof_PrimType ConstantFloatT \<and>
   min (typeWidthInBytes IceType_f64) array_lengthof_Buf = typeWidthInBytes IceType_f64 \<and>
   min (typeWidthInBytes IceType_f64) array_lengthof_Buf mod typeAlignInBytes IceType_f64 = 0 \<and>
   min (typeWidthInBytes IceType_f64) array_lengthof_Buf = sizeof_PrimType ConstantDoubleT \<and>
   (\<not> SectionNumbersAssigned W \<longrightarrow>
      (\<forall>C \<in> set (getConstantPool (Ctx W) IceType_f32). isConstType ConstantFloatT C) \<longrightarrow>
      (\<exists>W'. writeConstantPool ConstantFloatT IceType_f32 W = Inr W')) \<and>
   (\<not> SectionNumbersAssigned W \<longrightarrow>
      (\<forall>C \<in> set (getConstantPool (Ctx W) IceType_f64). isConstType ConstantDoubleT C) \<longrightarrow>
      (\<exists>W'. writeConstantPool ConstantDoubleT IceType_f64 W = Inr W'))"
proof -
  have 1: "getConstantPool (Ctx W) Ty \<noteq> [] \<longrightarrow> array_lengthof_Buf < typeWidthInBytes Ty \<longrightarrow>
      writeConstantPool CT Ty W = Inl (AssertionFailure ''WriteAmt == EntSize'')"
    by (simp add: writeConstantPool_def Let_def min_def)
  have 2: "getConstantPool (Ctx W) Ty \<noteq> [] \<longrightarrow> writeConstantPool CT Ty W = Inr W' \<longrightarrow>
      typeWidthInBytes Ty \<le> 20 \<and>
      min (typeWidthInBytes Ty) array_lengthof_Buf = typeWidthInBytes Ty \<and>
      min (typeWidthInBytes Ty) array_lengthof_Buf mod typeAlignInBytes Ty = 0 \<and>
      min (typeWidthInBytes Ty) array_lengthof_Buf = sizeof_PrimType CT \<and>
      (\<exists>off. tell (Str W) \<le> off \<and>
         Str W' = writeBytes (concat (map valueBytes (getConstantPool (Ctx W) Ty)))
                    (writeZeroPadding (off - tell (Str W)) (Str W))) \<and>
      (\<forall>C \<in> set (getConstantPool (Ctx W) Ty). length (valueBytes C) = typeWidthInBytes Ty)"
  proof (intro impI)
    assume ne: "getConstantPool (Ctx W) Ty \<noteq> []" and ok: "writeConstantPool CT Ty W = Inr W'"
    from writeConstantPool_Inr [OF ok ne] obtain off where
      le: "typeWidthInBytes Ty \<le> array_lengthof_Buf"
      and N: "typeWidthInBytes Ty = sizeof_PrimType CT"
      and M: "typeWidthInBytes Ty mod typeAlignInBytes Ty = 0"
      and K: "\<forall>C \<in> set (getConstantPool (Ctx W) Ty). isConstType CT C"
      and off: "tell (Str W) \<le> off"
      and W': "W' = W\<lparr>Sections := Sections W
                       @ [constantPoolSection Ty off (length (getConstantPool (Ctx W) Ty))],
                    ShStrTabData := add (''.rodata.cst'' @ decimal (typeWidthInBytes Ty))
                                      (ShStrTabData W),
                    RoDataSections := RoDataSections W @ [length (Sections W)],
                    SymTabData := (SymTabData W)\<lparr>LocalSymbols :=
                       LocalSymbols (SymTabData W)
                       @ poolSymbols (length (Sections W)) (typeWidthInBytes Ty) 0
                           (getConstantPool (Ctx W) Ty)\<rparr>,
                    StrTabData := foldl (\<lambda>T C. add (poolLabel C) T) (StrTabData W)
                                    (getConstantPool (Ctx W) Ty),
                    Str := writeBytes (poolBytes (typeWidthInBytes Ty) (getConstantPool (Ctx W) Ty))
                             (writeZeroPadding (off - tell (Str W)) (Str W))\<rparr>"
      by (elim conjE exE)
    have S: "Str W' = writeBytes (concat (map valueBytes (getConstantPool (Ctx W) Ty)))
                    (writeZeroPadding (off - tell (Str W)) (Str W))"
      using poolBytes_full [OF K] by (simp add: W' N)
    have V: "\<forall>C \<in> set (getConstantPool (Ctx W) Ty). length (valueBytes C) = typeWidthInBytes Ty"
      using K by (simp add: N length_valueBytes [of CT])
    from le M N off S V
    show "typeWidthInBytes Ty \<le> 20 \<and>
      min (typeWidthInBytes Ty) array_lengthof_Buf = typeWidthInBytes Ty \<and>
      min (typeWidthInBytes Ty) array_lengthof_Buf mod typeAlignInBytes Ty = 0 \<and>
      min (typeWidthInBytes Ty) array_lengthof_Buf = sizeof_PrimType CT \<and>
      (\<exists>off. tell (Str W) \<le> off \<and>
         Str W' = writeBytes (concat (map valueBytes (getConstantPool (Ctx W) Ty)))
                    (writeZeroPadding (off - tell (Str W)) (Str W))) \<and>
      (\<forall>C \<in> set (getConstantPool (Ctx W) Ty). length (valueBytes C) = typeWidthInBytes Ty)"
      by (intro conjI exI [of _ off]) (simp_all add: array_lengthof_Buf_def)
  qed
  have 3: "min (typeWidthInBytes IceType_f32) array_lengthof_Buf = typeWidthInBytes IceType_f32 \<and>
   min (typeWidthInBytes IceType_f32) array_lengthof_Buf mod typeAlignInBytes IceType_f32 = 0 \<and>
   min (typeWidthInBytes IceType_f32) array_lengthof_Buf = sizeof_PrimType ConstantFloatT \<and>
   min (typeWidthInBytes IceType_f64) array_lengthof_Buf = typeWidthInBytes IceType_f64 \<and>
   min (typeWidthInBytes IceType_f64) array_lengthof_Buf mod typeAlignInBytes IceType_f64 = 0 \<and>
   min (typeWidthInBytes IceType_f64) array_lengthof_Buf = sizeof_PrimType ConstantDoubleT"
    by (simp add: IceType_f32_def IceType_f64_def array_lengthof_Buf_def sizeof_PrimType_def)
  have 4: "\<not> SectionNumbersAssigned W \<longrightarrow>
      (\<forall>C \<in> set (getConstantPool (Ctx W) IceType_f32). isConstType ConstantFloatT C) \<longrightarrow>
      (\<exists>W'. writeConstantPool ConstantFloatT IceType_f32 W = Inr W')"
    by (intro impI writeConstantPool_succeeds f32_supported)
  have 5: "\<not> SectionNumbersAssigned W \<longrightarrow>
      (\<forall>C \<in> set (getConstantPool (Ctx W) IceType_f64). isConstType ConstantDoubleT C) \<longrightarrow>
      (\<exists>W'. writeConstantPool ConstantDoubleT IceType_f64 W = Inr W')"
    by (intro impI writeConstantPool_succeeds f64_supported)
  from 1 2 3 4 5 show ?thesis
    by (intro conjI) (simp add: array_lengthof_Buf_def, (elim conjE; assumption)+)
qed

theorem writeConstantPool_write_amount_witness:
  "getConstantPool (Ctx exampleWriter) IceType_f32 \<noteq> [] \<and>
   writeConstantPool ConstantFloatT IceType_f32 exampleWriter = Inr exampleWithPool \<and>
   \<not> SectionNumbersAssigned exampleWriter \<and>
   list_all (isConstType ConstantFloatT) (getConstantPool (Ctx exampleWriter) IceType_f32) \<and>
   typeWidthInBytes IceType_f32 \<le> 20 \<and>
   min (typeWidthInBytes IceType_f32) array_lengthof_Buf = sizeof_PrimType ConstantFloatT \<and>
   map (\<lambda>C. length (valueBytes C)) (getConstantPool (Ctx exampleWriter) IceType_f32) = [4, 4]"
proof -
  have ne: "getConstantPool (Ctx exampleWriter) IceType_f32 \<noteq> []"
    by (simp add: exampleWriter_facts examplePool)
  have k: "list_all (isConstType ConstantFloatT) (getConstantPool (Ctx exampleWriter) IceType_f32)"
    by (simp add: exampleWriter_facts examplePool isConstType_def)
  note T = writeConstantPool_write_amount
    [of exampleWriter IceType_f32 ConstantFloatT exampleWithPool]
  note U = T [THEN conjunct2, THEN conjunct2, THEN conjunct1, rule_format, OF ne exampleWithPool_eq]
  have w: "typeWidthInBytes IceType_f32 = 4"
    by (simp add: IceType_f32_def)
  from U have "typeWidthInBytes IceType_f32 \<le> 20"
    "min (typeWidthInBytes IceType_f32) array_lengthof_Buf = sizeof_PrimType ConstantFloatT"
    "\<forall>C \<in> set (getConstantPool (Ctx exampleWriter) IceType_f32).
       length (valueBytes C) = typeWidthInBytes IceType_f32"
    by simp_all
  then show ?thesis
    using ne exampleWithPool_eq k exampleWriter_facts(2)
    by (simp add: w exampleWriter_facts(1) examplePool)
qed

subsection \<open>Function code: the five cases and the building invariant\<close>

lemma find_Nil_None [simp]: "find P [] = None"
  by simp

lemma writeFunctionCode_new_text_no_fixups:
  assumes "TextSections W = []" "fixups A = []" "writeFunctionCode F I A W = Inr W'"
  shows "\<exists>off. off mod 32 = 0 \<and> tell (Str W) \<le> off \<and> off < tell (Str W) + 32 \<and>
     W' = W\<lparr>Sections := Sections W @ [(newELFSection ''.text'' SHT_PROGBITS (SHF_ALLOC OR SHF_EXECINSTR) 32 0)
                  \<lparr>FileOffset := off, Size := length (getBufferView A)\<rparr>],
             ShStrTabData := add ''.text'' (ShStrTabData W),
             TextSections := [length (Sections W)],
             Str := writeBytes (getBufferView A) (writeZeroPadding (off - tell (Str W)) (Str W)),
             SymTabData := tableCreateDefinedSym F (if I then STT_NOTYPE else STT_FUNC)
                 (if I then STB_LOCAL else STB_GLOBAL) (length (Sections W)) 0 0 (SymTabData W),
             StrTabData := add F (StrTabData W)\<rparr>"
proof -
  let ?W1 = "W\<lparr>Sections := Sections W @ [newELFSection ''.text'' SHT_PROGBITS (SHF_ALLOC OR SHF_EXECINSTR) 32 0],
                ShStrTabData := add ''.text'' (ShStrTabData W)\<rparr>"
  from assms obtain off W2 where na: "\<not> SectionNumbersAssigned W"
    and al: "alignFileOffset 32 ?W1 = Inr (off, W2)"
    by (auto simp add: writeFunctionCode_def bindE_eq_Inr createSection_eq_Inr Let_def
          getSection_def newELFSection_def)
  have "(32::nat) < 2 ^ 32" by simp
  note A = alignFileOffset_Inr [OF al this]
  from A have W2: "W2 = ?W1\<lparr>Str := writeZeroPadding (off - tell (Str W)) (Str W)\<rparr>" by simp
  from assms(1,2) na al have "writeFunctionCode F I A W = Inr (W\<lparr>Sections := Sections W @ [(newELFSection ''.text'' SHT_PROGBITS (SHF_ALLOC OR SHF_EXECINSTR) 32 0)
                  \<lparr>FileOffset := off, Size := length (getBufferView A)\<rparr>],
             ShStrTabData := add ''.text'' (ShStrTabData W),
             TextSections := [length (Sections W)],
             Str := writeBytes (getBufferView A) (writeZeroPadding (off - tell (Str W)) (Str W)),
             SymTabData := tableCreateDefinedSym F (if I then STT_NOTYPE else STT_FUNC)
                 (if I then STB_LOCAL else STB_GLOBAL) (length (Sections W)) 0 0 (SymTabData W),
             StrTabData := add F (StrTabData W)\<rparr>)"
    by (simp add: writeFunctionCode_def createSection_def Let_def W2 getSection_def
          newELFSection_def updSection_def appendData_def createDefinedSym_def strTabAdd_def
          setFileOffset_def)
  with A assms(3) show ?thesis
    by (intro exI [of _ off]) simp
qed


lemmas writeFunctionCode_unfold =
  writeFunctionCode_def createSection_def Let_def getSection_def newELFSection_def
  updSection_def appendData_def createDefinedSym_def strTabAdd_def setFileOffset_def
  setRelatedSection_def addRelocations_def sizeof_Elf_Rel_def

lemma alignFileOffset_32:
  "\<exists>off. off mod 32 = 0 \<and> tell (Str W) \<le> off \<and> off < tell (Str W) + 32 \<and>
     alignFileOffset 32 W = Inr (off, W\<lparr>Str := writeZeroPadding (off - tell (Str W)) (Str W)\<rparr>)"
proof -
  from alignFileOffset_succeeds [OF isPowerOf2_32_numerals(4), of W]
  obtain off W' where al: "alignFileOffset 32 W = Inr (off, W')" by blast
  have "(32::nat) < 2 ^ 32" by simp
  from alignFileOffset_Inr [OF al this] al show ?thesis
    by (intro exI [of _ off]) simp
qed

lemma writeFunctionCode_new_text_new_rel:
  assumes "TextSections W = []" "fixups A \<noteq> []" "RelTextSections W = []"
    "writeFunctionCode F I A W = Inr W'"
  shows "validArch (Ctx W) \<and> (\<exists>off. off mod 32 = 0 \<and> tell (Str W) \<le> off \<and> off < tell (Str W) + 32 \<and>
     W' = W\<lparr>Sections := Sections W
               @ [(newELFSection ''.text'' SHT_PROGBITS (SHF_ALLOC OR SHF_EXECINSTR) 32 0)
                    \<lparr>FileOffset := off, Size := length (getBufferView A)\<rparr>,
                  (newELFSection (relSectionName (targetIsELF64 (Ctx W)))
                     (if targetIsELF64 (Ctx W) then SHT_RELA else SHT_REL) 0
                     (if targetIsELF64 (Ctx W) then 8 else 4)
                     (if targetIsELF64 (Ctx W) then 24 else 8))
                    \<lparr>RelatedSection := Some (length (Sections W)),
                     Fixups := map (\<lambda>FR. FR\<lparr>position := 0 + position FR\<rparr>) (fixups A)\<rparr>],
             ShStrTabData := add (relSectionName (targetIsELF64 (Ctx W)))
                               (add ''.text'' (ShStrTabData W)),
             TextSections := [length (Sections W)],
             RelTextSections := [Suc (length (Sections W))],
             Str := writeBytes (getBufferView A) (writeZeroPadding (off - tell (Str W)) (Str W)),
             SymTabData := tableCreateDefinedSym F (if I then STT_NOTYPE else STT_FUNC)
                 (if I then STB_LOCAL else STB_GLOBAL) (length (Sections W)) 0 0 (SymTabData W),
             StrTabData := add F (StrTabData W)\<rparr>)"
proof -
  let ?W1 = "W\<lparr>Sections := Sections W @ [newELFSection ''.text'' SHT_PROGBITS (SHF_ALLOC OR SHF_EXECINSTR) 32 0],
                ShStrTabData := add ''.text'' (ShStrTabData W)\<rparr>"
  from alignFileOffset_32 [of ?W1] obtain off where off: "off mod 32 = 0" "tell (Str W) \<le> off"
    "off < tell (Str W) + 32"
    and al: "alignFileOffset 32 ?W1 = Inr (off, ?W1\<lparr>Str := writeZeroPadding (off - tell (Str W)) (Str W)\<rparr>)"
    by auto
  have na: "\<not> SectionNumbersAssigned W"
    using assms(4) by (auto simp add: writeFunctionCode_def bindE_eq_Inr)
  have va: "validArch (Ctx W)"
  proof (rule ccontr)
    assume "\<not> validArch (Ctx W)"
    then have "\<exists>e. isELF64 (Ctx W) = Inl e"
      by (simp add: isELF64_def validArch_def)
    with assms(1,2) na al assms(4) show False
      by (auto simp add: writeFunctionCode_unfold)
  qed
  from assms(1,2,3) na al va have "writeFunctionCode F I A W = Inr (W\<lparr>Sections := Sections W
               @ [(newELFSection ''.text'' SHT_PROGBITS (SHF_ALLOC OR SHF_EXECINSTR) 32 0)
                    \<lparr>FileOffset := off, Size := length (getBufferView A)\<rparr>,
                  (newELFSection (relSectionName (targetIsELF64 (Ctx W)))
                     (if targetIsELF64 (Ctx W) then SHT_RELA else SHT_REL) 0
                     (if targetIsELF64 (Ctx W) then 8 else 4)
                     (if targetIsELF64 (Ctx W) then 24 else 8))
                    \<lparr>RelatedSection := Some (length (Sections W)),
                     Fixups := map (\<lambda>FR. FR\<lparr>position := 0 + position FR\<rparr>) (fixups A)\<rparr>],
             ShStrTabData := add (relSectionName (targetIsELF64 (Ctx W)))
                               (add ''.text'' (ShStrTabData W)),
             TextSections := [length (Sections W)],
             RelTextSections := [Suc (length (Sections W))],
             Str := writeBytes (getBufferView A) (writeZeroPadding (off - tell (Str W)) (Str W)),
             SymTabData := tableCreateDefinedSym F (if I then STT_NOTYPE else STT_FUNC)
                 (if I then STB_LOCAL else STB_GLOBAL) (length (Sections W)) 0 0 (SymTabData W),
             StrTabData := add F (StrTabData W)\<rparr>)"
    by (simp add: writeFunctionCode_unfold relSectionName_def nth_append list_update_append)
  with off va assms(4) show ?thesis
    by (intro conjI exI [of _ off]) simp_all
qed


lemma writeFunctionCode_old_text_no_fixups:
  assumes "TextSections W = T # Ts" "fixups A = []" "writeFunctionCode F I A W = Inr W'"
  shows "W' = W\<lparr>Sections := (Sections W)[T := (Sections W ! T)
                    \<lparr>Size := Size (Sections W ! T) + length (getBufferView A)\<rparr>],
                Str := writeBytes (getBufferView A) (Str W),
                SymTabData := tableCreateDefinedSym F (if I then STT_NOTYPE else STT_FUNC)
                    (if I then STB_LOCAL else STB_GLOBAL) T (Size (Sections W ! T)) 0 (SymTabData W),
                StrTabData := add F (StrTabData W)\<rparr>"
proof -
  have na: "\<not> SectionNumbersAssigned W"
    using assms(3) by (auto simp add: writeFunctionCode_def bindE_eq_Inr)
  from assms(1,2) na have "writeFunctionCode F I A W = Inr (W\<lparr>Sections := (Sections W)[T := (Sections W ! T)
                    \<lparr>Size := Size (Sections W ! T) + length (getBufferView A)\<rparr>],
                Str := writeBytes (getBufferView A) (Str W),
                SymTabData := tableCreateDefinedSym F (if I then STT_NOTYPE else STT_FUNC)
                    (if I then STB_LOCAL else STB_GLOBAL) T (Size (Sections W ! T)) 0 (SymTabData W),
                StrTabData := add F (StrTabData W)\<rparr>)"
    by (simp add: writeFunctionCode_unfold)
  with assms(3) show ?thesis by simp
qed

lemma writeFunctionCode_valid:
  assumes "fixups A \<noteq> []" "writeFunctionCode F I A W = Inr W'"
  shows "validArch (Ctx W)"
proof (rule ccontr)
  assume "\<not> validArch (Ctx W)"
  then have "isELF64 (Ctx W) = Inl (Unreachable ''Invalid target arch for isELF64'')"
    by (simp add: isELF64_def validArch_def)
  with assms show False
    by (auto simp add: writeFunctionCode_def Let_def bindE_eq_Inr createDefinedSym_def
          strTabAdd_def appendData_def updSection_def createSection_eq_Inr
        dest!: alignFileOffset_Ctx split: if_splits prod.splits)
qed

lemma writeFunctionCode_old_text_new_rel:
  assumes "TextSections W = T # Ts" "fixups A \<noteq> []" "RelTextSections W = []"
    "writeFunctionCode F I A W = Inr W'"
  shows "W' = W\<lparr>Sections := (Sections W)[T := (Sections W ! T)
                    \<lparr>Size := Size (Sections W ! T) + length (getBufferView A)\<rparr>]
                  @ [(newELFSection (relSectionName (targetIsELF64 (Ctx W)))
                       (if targetIsELF64 (Ctx W) then SHT_RELA else SHT_REL) 0
                       (if targetIsELF64 (Ctx W) then 8 else 4)
                       (if targetIsELF64 (Ctx W) then 24 else 8))
                      \<lparr>RelatedSection := Some T,
                       Fixups := map (\<lambda>FR. FR\<lparr>position := Size (Sections W ! T) + position FR\<rparr>)
                                   (fixups A)\<rparr>],
                ShStrTabData := add (relSectionName (targetIsELF64 (Ctx W))) (ShStrTabData W),
                RelTextSections := [length (Sections W)],
                Str := writeBytes (getBufferView A) (Str W),
                SymTabData := tableCreateDefinedSym F (if I then STT_NOTYPE else STT_FUNC)
                    (if I then STB_LOCAL else STB_GLOBAL) T (Size (Sections W ! T)) 0 (SymTabData W),
                StrTabData := add F (StrTabData W)\<rparr>"
proof -
  have na: "\<not> SectionNumbersAssigned W"
    using assms(4) by (auto simp add: writeFunctionCode_def bindE_eq_Inr)
  note va = writeFunctionCode_valid [OF assms(2,4)]
  from assms(1,2,3) na va have "writeFunctionCode F I A W = Inr (W\<lparr>Sections := (Sections W)[T := (Sections W ! T)
                    \<lparr>Size := Size (Sections W ! T) + length (getBufferView A)\<rparr>]
                  @ [(newELFSection (relSectionName (targetIsELF64 (Ctx W)))
                       (if targetIsELF64 (Ctx W) then SHT_RELA else SHT_REL) 0
                       (if targetIsELF64 (Ctx W) then 8 else 4)
                       (if targetIsELF64 (Ctx W) then 24 else 8))
                      \<lparr>RelatedSection := Some T,
                       Fixups := map (\<lambda>FR. FR\<lparr>position := Size (Sections W ! T) + position FR\<rparr>)
                                   (fixups A)\<rparr>],
                ShStrTabData := add (relSectionName (targetIsELF64 (Ctx W))) (ShStrTabData W),
                RelTextSections := [length (Sections W)],
                Str := writeBytes (getBufferView A) (Str W),
                SymTabData := tableCreateDefinedSym F (if I then STT_NOTYPE else STT_FUNC)
                    (if I then STB_LOCAL else STB_GLOBAL) T (Size (Sections W ! T)) 0 (SymTabData W),
                StrTabData := add F (StrTabData W)\<rparr>)"
    by (simp add: writeFunctionCode_unfold relSectionName_def nth_append list_update_append)
  with assms(4) show ?thesis by simp
qed

lemma writeFunctionCode_old_text_old_rel:
  assumes "TextSections W = T # Ts" "fixups A \<noteq> []" "RelTextSections W = R # Rs"
    "Name (Sections W ! R) = relSectionName (targetIsELF64 (Ctx W))"
    "writeFunctionCode F I A W = Inr W'"
  shows "W' = W\<lparr>Sections := ((Sections W)[T := (Sections W ! T)
                    \<lparr>Size := Size (Sections W ! T) + length (getBufferView A)\<rparr>])
                  [R := ((Sections W)[T := (Sections W ! T)
                           \<lparr>Size := Size (Sections W ! T) + length (getBufferView A)\<rparr>] ! R)
                    \<lparr>Fixups := Fixups ((Sections W)[T := (Sections W ! T)
                           \<lparr>Size := Size (Sections W ! T) + length (getBufferView A)\<rparr>] ! R)
                       @ map (\<lambda>FR. FR\<lparr>position := Size (Sections W ! T) + position FR\<rparr>)
                           (fixups A)\<rparr>],
                Str := writeBytes (getBufferView A) (Str W),
                SymTabData := tableCreateDefinedSym F (if I then STT_NOTYPE else STT_FUNC)
                    (if I then STB_LOCAL else STB_GLOBAL) T (Size (Sections W ! T)) 0 (SymTabData W),
                StrTabData := add F (StrTabData W)\<rparr>"
proof -
  have na: "\<not> SectionNumbersAssigned W"
    using assms(5) by (auto simp add: writeFunctionCode_def bindE_eq_Inr)
  note va = writeFunctionCode_valid [OF assms(2,5)]
  have nm: "Name ((Sections W)[T := (Sections W ! T)
                    \<lparr>Size := Size (Sections W ! T) + length (getBufferView A)\<rparr>] ! R)
            = relSectionName (targetIsELF64 (Ctx W))"
    using assms(4)
    by (cases "R = T"; cases "T < length (Sections W)") (simp_all add: list_update_beyond)
  from assms(1,2,3) na va nm have "writeFunctionCode F I A W = Inr (W\<lparr>Sections := ((Sections W)[T := (Sections W ! T)
                    \<lparr>Size := Size (Sections W ! T) + length (getBufferView A)\<rparr>])
                  [R := ((Sections W)[T := (Sections W ! T)
                           \<lparr>Size := Size (Sections W ! T) + length (getBufferView A)\<rparr>] ! R)
                    \<lparr>Fixups := Fixups ((Sections W)[T := (Sections W ! T)
                           \<lparr>Size := Size (Sections W ! T) + length (getBufferView A)\<rparr>] ! R)
                       @ map (\<lambda>FR. FR\<lparr>position := Size (Sections W ! T) + position FR\<rparr>)
                           (fixups A)\<rparr>],
                Str := writeBytes (getBufferView A) (Str W),
                SymTabData := tableCreateDefinedSym F (if I then STT_NOTYPE else STT_FUNC)
                    (if I then STB_LOCAL else STB_GLOBAL) T (Size (Sections W ! T)) 0 (SymTabData W),
                StrTabData := add F (StrTabData W)\<rparr>)"
    by (simp add: writeFunctionCode_unfold relSectionName_def)
  with assms(5) show ?thesis by simp
qed


lemmas building_defs = building_def wellFormed_def bookkeepingPointers_def userPointers_def
  relPointers_def isRelocation_def isTextRelSection_def textSize_def textRelocations_def
  getSection_def

lemma tell_writeBytes [simp]: "tell (writeBytes bs s) = tell s + length bs"
  by (simp add: tell_def)

lemma building_extend:
  assumes B: "building W" and ext: "extends W W'"
    and same: "Ctx W' = Ctx W" "\<not> SectionNumbersAssigned W'"
      "bookkeepingPointers W' = bookkeepingPointers W"
      "DataSections W' = []" "RelDataSections W' = []" "RelRoDataSections W' = []"
    and buckets: "TextSections W' = TextSections W @ NT" "RoDataSections W' = RoDataSections W @ NRo"
      "RelTextSections W' = RelTextSections W @ NRel"
    and new: "distinct (NT @ NRo @ NRel)"
      "\<forall>p \<in> set (NT @ NRo @ NRel). length (Sections W) \<le> p \<and> p < length (Sections W')"
    and lens: "length (TextSections W') \<le> 1" "length (RelTextSections W') \<le> 1"
      "RelTextSections W' \<noteq> [] \<longrightarrow> TextSections W' \<noteq> []"
    and good: "\<forall>p \<in> set (NT @ NRo). ShType (Sections W' ! p) = SHT_PROGBITS \<and>
                 FileOffset (Sections W' ! p) mod ShAddralign (Sections W' ! p) = 0"
      "\<forall>p \<in> set NRel. isTextRelSection (targetIsELF64 (Ctx W)) (TextSections W' ! 0) (Sections W' ! p)"
  shows "building W'"
proof -
  let ?bk = "bookkeepingPointers W"
  let ?T = "TextSections W" and ?Ro = "RoDataSections W" and ?Rel = "RelTextSections W"
  from B have wf: "wellFormed W" and D: "DataSections W = []" "RelDataSections W = []"
    "RelRoDataSections W = []" and va: "validArch (Ctx W)"
    and tr: "\<forall>R \<in> set ?Rel.
         isTextRelSection (targetIsELF64 (Ctx W)) (?T ! 0) (Sections W ! R)"
    and ua: "\<forall>p \<in> set (?T @ ?Ro).
         ShType (Sections W ! p) = SHT_PROGBITS \<and>
         FileOffset (Sections W ! p) mod ShAddralign (Sections W ! p) = 0"
    and rt: "?Rel \<noteq> [] \<longrightarrow> ?T \<noteq> []"
    by (simp_all add: building_def getSection_def userPointers_def)
  from wf D have d: "distinct (?bk @ ?T @ ?Ro @ ?Rel)"
    and a: "\<forall>p \<in> set (?bk @ ?T @ ?Ro @ ?Rel). p < length (Sections W)"
    and r: "\<forall>p \<in> set ?Rel. isRelocation (Sections W ! p)"
    and n: "\<forall>p \<in> set (?bk @ ?T @ ?Ro). \<not> isRelocation (Sections W ! p)"
    by (simp_all add: wellFormed_def userPointers_def relPointers_def getSection_def)
  from ext have len: "length (Sections W) \<le> length (Sections W')"
    and st: "\<And>p. p < length (Sections W) \<Longrightarrow> sameStatic (Sections W ! p) (Sections W' ! p)"
    by (simp_all add: extends_def)
  have disj: "set (?bk @ ?T @ ?Ro @ ?Rel) \<inter> set (NT @ NRo @ NRel) = {}"
    using a new(2) by fastforce
  have k1: "\<forall>p \<in> set (NT @ NRo). \<not> isRelocation (Sections W' ! p)"
    using good(1) by (auto simp add: isRelocation_def SHT_PROGBITS_def SHT_REL_def SHT_RELA_def)
  have k2: "\<forall>p \<in> set NRel. isRelocation (Sections W' ! p)"
    using good(2) by (auto simp add: isRelocation_def isTextRelSection_def)
  have 1: "distinct (?bk @ (?T @ NT) @ (?Ro @ NRo) @ (?Rel @ NRel))"
    using d new(1) disj by auto
  have 2: "\<forall>p \<in> set (?bk @ (?T @ NT) @ (?Ro @ NRo) @ (?Rel @ NRel)). p < length (Sections W')"
  proof
    fix p assume "p \<in> set (?bk @ (?T @ NT) @ (?Ro @ NRo) @ (?Rel @ NRel))"
    then consider "p \<in> set (?bk @ ?T @ ?Ro @ ?Rel)" | "p \<in> set (NT @ NRo @ NRel)" by auto
    then show "p < length (Sections W')"
    proof cases
      case 1
      with a have "p < length (Sections W)" by blast
      with len show ?thesis by simp
    next
      case 2
      with new(2) show ?thesis by blast
    qed
  qed
  have 3: "\<forall>p \<in> set (?Rel @ NRel). isRelocation (Sections W' ! p)"
  proof
    fix p assume "p \<in> set (?Rel @ NRel)"
    then consider "p \<in> set ?Rel" | "p \<in> set NRel" by auto
    then show "isRelocation (Sections W' ! p)"
    proof cases
      case 1
      with a have "p < length (Sections W)" by simp
      from st [OF this] r 1 show ?thesis by (simp add: sameStatic_def isRelocation_def)
    next
      case 2
      with k2 show ?thesis by simp
    qed
  qed
  have 4: "\<forall>p \<in> set (?bk @ (?T @ NT) @ (?Ro @ NRo)). \<not> isRelocation (Sections W' ! p)"
  proof
    fix p assume "p \<in> set (?bk @ (?T @ NT) @ (?Ro @ NRo))"
    then consider "p \<in> set (?bk @ ?T @ ?Ro)" | "p \<in> set (NT @ NRo)" by auto
    then show "\<not> isRelocation (Sections W' ! p)"
    proof cases
      case 1
      with a have "p < length (Sections W)" by auto
      from st [OF this] n 1 show ?thesis by (simp add: sameStatic_def isRelocation_def)
    next
      case 2
      with k1 show ?thesis by simp
    qed
  qed
  have wf': "wellFormed W'"
    using 1 2 3 4
    by (simp add: wellFormed_def userPointers_def relPointers_def getSection_def same buckets)
  have 5: "\<forall>p \<in> set ((?T @ NT) @ (?Ro @ NRo)).
         ShType (Sections W' ! p) = SHT_PROGBITS \<and>
         FileOffset (Sections W' ! p) mod ShAddralign (Sections W' ! p) = 0"
  proof
    fix p assume "p \<in> set ((?T @ NT) @ (?Ro @ NRo))"
    then consider "p \<in> set (?T @ ?Ro)" | "p \<in> set (NT @ NRo)" by auto
    then show "ShType (Sections W' ! p) = SHT_PROGBITS \<and>
         FileOffset (Sections W' ! p) mod ShAddralign (Sections W' ! p) = 0"
    proof cases
      case 1
      with a have "p < length (Sections W)" by auto
      from st [OF this] ua 1 show ?thesis by (simp add: sameStatic_def)
    next
      case 2
      with good(1) show ?thesis by simp
    qed
  qed
  have 6: "\<forall>R \<in> set (?Rel @ NRel).
         isTextRelSection (targetIsELF64 (Ctx W)) ((?T @ NT) ! 0) (Sections W' ! R)"
  proof
    fix R assume "R \<in> set (?Rel @ NRel)"
    then consider "R \<in> set ?Rel" | "R \<in> set NRel" by auto
    then show "isTextRelSection (targetIsELF64 (Ctx W)) ((?T @ NT) ! 0) (Sections W' ! R)"
    proof cases
      case 1
      with a have lt: "R < length (Sections W)" by simp
      from 1 rt have "?T \<noteq> []" by auto
      then have "(?T @ NT) ! 0 = ?T ! 0" by (simp add: nth_append)
      with st [OF lt] tr 1 show ?thesis by (simp add: sameStatic_def isTextRelSection_def)
    next
      case 2
      with good(2) show ?thesis by (simp add: buckets)
    qed
  qed
  from wf' va 5 6 lens show ?thesis
    by (simp add: building_def same buckets userPointers_def getSection_def)
qed


lemma building_text:
  assumes "building W" "TextSections W = T # Ts"
  shows "Ts = []" "T < length (Sections W)" "T \<notin> set (RelTextSections W)"
    "T \<notin> set (RoDataSections W)"
  using assms by (auto simp add: building_def wellFormed_def userPointers_def relPointers_def)

lemma building_rel:
  assumes "building W" "RelTextSections W = R # Rs"
  shows "Rs = []" "R < length (Sections W)"
    "isTextRelSection (targetIsELF64 (Ctx W)) (TextSections W ! 0) (Sections W ! R)"
  using assms by (auto simp add: building_def wellFormed_def relPointers_def getSection_def)

lemma writeFunctionCode_building:
  assumes B: "building W" and ok: "writeFunctionCode F I A W = Inr W'"
  shows "building W' \<and> Ctx W' = Ctx W \<and>
         textSize W' = textSize W + length (getBufferView A) \<and>
         textRelocations W' = textRelocations W
            @ map (\<lambda>FR. FR\<lparr>position := textSize W + position FR\<rparr>) (fixups A) \<and>
         (RelTextSections W' = []) = (RelTextSections W = [] \<and> fixups A = []) \<and>
         RoDataSections W' = RoDataSections W \<and> tell (Str W) \<le> tell (Str W') \<and>
         TextSections W' \<noteq> [] \<and>
         SymTabData W' = tableCreateDefinedSym F (if I then STT_NOTYPE else STT_FUNC)
            (if I then STB_LOCAL else STB_GLOBAL) (TextSections W' ! 0) (textSize W) 0 (SymTabData W)"
proof (cases "TextSections W")
  case Nil
  from B Nil have R: "RelTextSections W = []"
    by (auto simp add: building_def)
  from B have base: "\<not> SectionNumbersAssigned W" "DataSections W = []" "RelDataSections W = []"
    "RelRoDataSections W = []"
    by (simp_all add: building_def)
  show ?thesis
  proof (cases "fixups A = []")
    case True
    from writeFunctionCode_new_text_no_fixups [OF Nil True ok] obtain off where
      off: "off mod 32 = 0" "tell (Str W) \<le> off" and W': "W' = W\<lparr>Sections := Sections W @ [(newELFSection ''.text'' SHT_PROGBITS (SHF_ALLOC OR SHF_EXECINSTR) 32 0)
                  \<lparr>FileOffset := off, Size := length (getBufferView A)\<rparr>],
             ShStrTabData := add ''.text'' (ShStrTabData W),
             TextSections := [length (Sections W)],
             Str := writeBytes (getBufferView A) (writeZeroPadding (off - tell (Str W)) (Str W)),
             SymTabData := tableCreateDefinedSym F (if I then STT_NOTYPE else STT_FUNC)
                 (if I then STB_LOCAL else STB_GLOBAL) (length (Sections W)) 0 0 (SymTabData W),
             StrTabData := add F (StrTabData W)\<rparr>"
      by (elim exE conjE)
    have "building W'"
      by (rule building_extend [OF B, of W' "[length (Sections W)]" "[]" "[]"])
         (simp_all add: W' Nil R base extends_def sameStatic_def nth_append
            bookkeepingPointers_def newELFSection_def off)
    with off Nil R True show ?thesis
      by (simp add: W' textSize_def textRelocations_def getSection_def newELFSection_def)
  next
    case False
    from writeFunctionCode_new_text_new_rel [OF Nil False R ok] obtain off where
      off: "off mod 32 = 0" "tell (Str W) \<le> off" and W': "W' = W\<lparr>Sections := Sections W
               @ [(newELFSection ''.text'' SHT_PROGBITS (SHF_ALLOC OR SHF_EXECINSTR) 32 0)
                    \<lparr>FileOffset := off, Size := length (getBufferView A)\<rparr>,
                  (newELFSection (relSectionName (targetIsELF64 (Ctx W)))
                     (if targetIsELF64 (Ctx W) then SHT_RELA else SHT_REL) 0
                     (if targetIsELF64 (Ctx W) then 8 else 4)
                     (if targetIsELF64 (Ctx W) then 24 else 8))
                    \<lparr>RelatedSection := Some (length (Sections W)),
                     Fixups := map (\<lambda>FR. FR\<lparr>position := 0 + position FR\<rparr>) (fixups A)\<rparr>],
             ShStrTabData := add (relSectionName (targetIsELF64 (Ctx W)))
                               (add ''.text'' (ShStrTabData W)),
             TextSections := [length (Sections W)],
             RelTextSections := [Suc (length (Sections W))],
             Str := writeBytes (getBufferView A) (writeZeroPadding (off - tell (Str W)) (Str W)),
             SymTabData := tableCreateDefinedSym F (if I then STT_NOTYPE else STT_FUNC)
                 (if I then STB_LOCAL else STB_GLOBAL) (length (Sections W)) 0 0 (SymTabData W),
             StrTabData := add F (StrTabData W)\<rparr>"
      by (elim exE conjE)
    have "building W'"
      by (rule building_extend [OF B, of W' "[length (Sections W)]" "[]" "[Suc (length (Sections W))]"])
         (simp_all add: W' Nil R base extends_def sameStatic_def nth_append
            bookkeepingPointers_def newELFSection_def off isTextRelSection_def)
    with off Nil R False show ?thesis
      by (simp add: W' textSize_def textRelocations_def getSection_def newELFSection_def
            nth_append)
  qed
next
  case (Cons T Ts)
  note T = building_text [OF B Cons]
  from B have base: "\<not> SectionNumbersAssigned W" "DataSections W = []" "RelDataSections W = []"
    "RelRoDataSections W = []"
    by (simp_all add: building_def)
  show ?thesis
  proof (cases "fixups A = []")
    case True
    note W' = writeFunctionCode_old_text_no_fixups [OF Cons True ok]
    have "building W'"
      by (rule building_extend [OF B, of W' "[]" "[]" "[]"])
         (insert B, simp_all add: W' Cons T base extends_def sameStatic_def nth_list_update
            bookkeepingPointers_def building_def)
    with Cons T True show ?thesis
      by (simp add: W' textSize_def textRelocations_def getSection_def nth_list_update
            split: list.splits)
  next
    case False
    show ?thesis
    proof (cases "RelTextSections W")
      case Nil
      note W' = writeFunctionCode_old_text_new_rel [OF Cons False Nil ok]
      have "building W'"
        by (rule building_extend [OF B, of W' "[]" "[]" "[length (Sections W)]"])
           (simp_all add: W' Cons Nil T base extends_def sameStatic_def nth_list_update
              nth_append bookkeepingPointers_def newELFSection_def isTextRelSection_def)
      with Cons Nil T False show ?thesis
        by (simp add: W' textSize_def textRelocations_def getSection_def nth_list_update
              nth_append)
    next
      case (Cons R Rs)
      note R = building_rel [OF B Cons]
      from R(3) have nm: "Name (Sections W ! R) = relSectionName (targetIsELF64 (Ctx W))"
        by (simp add: isTextRelSection_def)
      from T(3) Cons have RT: "R \<noteq> T" by auto
      note W' = writeFunctionCode_old_text_old_rel [OF \<open>TextSections W = T # Ts\<close> False Cons nm ok]
      have "building W'"
        by (rule building_extend [OF B, of W' "[]" "[]" "[]"])
           (insert B, simp_all add: W' Cons \<open>TextSections W = T # Ts\<close> T R RT base
              extends_def sameStatic_def nth_list_update bookkeepingPointers_def building_def)
      with Cons \<open>TextSections W = T # Ts\<close> T R RT False show ?thesis
        by (simp add: W' textSize_def textRelocations_def getSection_def nth_list_update)
    qed
  qed
qed

subsection \<open>Runs of the writer\<close>

lemma writeConstantPool_building:
  assumes B: "building W" and ok: "writeConstantPool CT Ty W = Inr W'"
  shows "building W' \<and> Ctx W' = Ctx W \<and> textSize W' = textSize W \<and>
         textRelocations W' = textRelocations W \<and> TextSections W' = TextSections W \<and>
         RelTextSections W' = RelTextSections W \<and> tell (Str W) \<le> tell (Str W')"
proof (cases "getConstantPool (Ctx W) Ty = []")
  case True
  with ok B show ?thesis by (simp add: writeConstantPool_empty)
next
  case False
  from B have base: "\<not> SectionNumbersAssigned W" "DataSections W = []" "RelDataSections W = []"
    "RelRoDataSections W = []"
    by (simp_all add: building_def)
  from B have lens: "length (TextSections W) \<le> 1" "length (RelTextSections W) \<le> 1"
    "RelTextSections W \<noteq> [] \<longrightarrow> TextSections W \<noteq> []"
    by (simp_all add: building_def)
  from writeConstantPool_Inr [OF ok False] obtain off where
    off: "off mod typeAlignInBytes Ty = 0" "tell (Str W) \<le> off"
    and W': "W' = W\<lparr>Sections := Sections W
                       @ [constantPoolSection Ty off (length (getConstantPool (Ctx W) Ty))],
                    ShStrTabData := add (''.rodata.cst'' @ decimal (typeWidthInBytes Ty))
                                      (ShStrTabData W),
                    RoDataSections := RoDataSections W @ [length (Sections W)],
                    SymTabData := (SymTabData W)\<lparr>LocalSymbols :=
                       LocalSymbols (SymTabData W)
                       @ poolSymbols (length (Sections W)) (typeWidthInBytes Ty) 0
                           (getConstantPool (Ctx W) Ty)\<rparr>,
                    StrTabData := foldl (\<lambda>T C. add (poolLabel C) T) (StrTabData W)
                                    (getConstantPool (Ctx W) Ty),
                    Str := writeBytes (poolBytes (typeWidthInBytes Ty) (getConstantPool (Ctx W) Ty))
                             (writeZeroPadding (off - tell (Str W)) (Str W))\<rparr>"
    by (elim exE conjE)
  have b: "building W'"
    by (rule building_extend [OF B, of W' "[]" "[length (Sections W)]" "[]"])
       (insert lens, simp_all add: W' base extends_def sameStatic_def nth_append
          bookkeepingPointers_def constantPoolSection_def newELFSection_def off)
  have t: "textSize W' = textSize W"
  proof (cases "TextSections W")
    case Nil
    then show ?thesis by (simp add: W' textSize_def)
  next
    case (Cons T Ts)
    from building_text [OF B Cons] Cons show ?thesis
      by (simp add: W' textSize_def getSection_def nth_append)
  qed
  have r: "textRelocations W' = textRelocations W"
  proof (cases "RelTextSections W")
    case Nil
    then show ?thesis by (simp add: W' textRelocations_def)
  next
    case (Cons R Rs)
    from building_rel [OF B Cons] Cons show ?thesis
      by (simp add: W' textRelocations_def getSection_def nth_append)
  qed
  from b t r off show ?thesis
    by (simp add: W')
qed

lemma building_Str [simp]: "building (W\<lparr>Str := s\<rparr>) = building W"
  by (simp add: building_defs)

lemma textSize_Str [simp]: "textSize (W\<lparr>Str := s\<rparr>) = textSize W"
  by (simp add: textSize_def getSection_def split: list.split)

lemma textRelocations_Str [simp]: "textRelocations (W\<lparr>Str := s\<rparr>) = textRelocations W"
  by (simp add: textRelocations_def getSection_def split: list.split)

lemma writeInitialELFHeader_building:
  assumes B: "building W" and ok: "writeInitialELFHeader W = Inr W'"
  shows "building W' \<and> Ctx W' = Ctx W \<and> textSize W' = textSize W \<and>
         textRelocations W' = textRelocations W \<and> TextSections W' = TextSections W \<and>
         RelTextSections W' = RelTextSections W \<and> tell (Str W) \<le> tell (Str W') \<and>
         SymTabData W' = SymTabData W"
proof -
  from B have va: "validArch (Ctx W)" and na: "\<not> SectionNumbersAssigned W"
    by (simp_all add: building_def)
  from ok writeInitialELFHeader_valid [OF va na] obtain bs where W': "W' = W\<lparr>Str := writeBytes bs (Str W)\<rparr>"
    by auto
  from B show ?thesis
    by (simp add: W')
qed

lemma newELFObjectWriter_building:
  assumes "newELFObjectWriter C Out = Inr W"
  shows "building W \<and> Ctx W = C \<and> Str W = Out \<and> textSize W = 0 \<and> textRelocations W = [] \<and>
         TextSections W = [] \<and> RelTextSections W = [] \<and> RoDataSections W = []"
proof -
  have va: "validArch C"
    using assms newELFObjectWriter_invalid [of C Out] by (cases "validArch C") auto
  from assms show ?thesis
    unfolding newELFObjectWriter_valid [OF va]
    by (auto simp add: building_defs va newELFSection_def SHT_NULL_def SHT_STRTAB_def
          SHT_SYMTAB_def SHT_REL_def SHT_RELA_def)
qed

lemma applyCall_building:
  assumes B: "building W" and ok: "applyCall c W = Inr W'"
  shows "building W' \<and> Ctx W' = Ctx W \<and> textSize W' = textSize W + codeSize [c] \<and>
         textRelocations W' = textRelocations W @ functionFixups (textSize W) [c] \<and>
         (RelTextSections W' = []) = (RelTextSections W = [] \<and> functionFixups (textSize W) [c] = []) \<and>
         tell (Str W) \<le> tell (Str W')"
proof (cases c)
  case WriteInitialELFHeader
  with writeInitialELFHeader_building [OF B, of W'] ok show ?thesis by simp
next
  case (WriteFunctionCode F I A)
  with writeFunctionCode_building [OF B, of F I A W'] ok show ?thesis by simp
next
  case (WriteConstantPool CT Ty)
  with writeConstantPool_building [OF B, of CT Ty W'] ok show ?thesis by simp
next
  case (WriteDataInitializer V D)
  with ok show ?thesis by (simp add: writeDataInitializer_def split: if_splits)
qed

lemma codeSize_append: "codeSize (cs @ ds) = codeSize cs + codeSize ds"
  by (induction cs rule: codeSize.induct) simp_all

lemma functionFixups_Cons:
  "functionFixups Off (c # cs) = functionFixups Off [c] @ functionFixups (Off + codeSize [c]) cs"
  by (cases c) simp_all

lemma codeSize_Cons: "codeSize (c # cs) = codeSize [c] + codeSize cs"
  by (cases c) simp_all

lemma applyCalls_building:
  "building W \<Longrightarrow> applyCalls cs W = Inr W' \<Longrightarrow>
     building W' \<and> Ctx W' = Ctx W \<and> textSize W' = textSize W + codeSize cs \<and>
     textRelocations W' = textRelocations W @ functionFixups (textSize W) cs \<and>
     (RelTextSections W' = []) = (RelTextSections W = [] \<and> functionFixups (textSize W) cs = []) \<and>
     tell (Str W) \<le> tell (Str W')"
proof (induction cs arbitrary: W)
  case Nil
  then show ?case by simp
next
  case (Cons c cs)
  from Cons.prems(2) obtain W1 where 1: "applyCall c W = Inr W1" and 2: "applyCalls cs W1 = Inr W'"
    by (cases "applyCall c W") simp_all
  note A = applyCall_building [OF Cons.prems(1) 1]
  from A have B1: "building W1" by simp
  note I = Cons.IH [OF B1 2]
  from A I show ?case
    by (simp add: functionFixups_Cons [of _ c cs] codeSize_Cons [of c cs])
qed

lemma runWriter_building:
  assumes "runWriter C Out cs = Inr W"
  shows "building W \<and> Ctx W = C \<and> textSize W = codeSize cs \<and>
         textRelocations W = functionFixups 0 cs \<and>
         (RelTextSections W = []) = (functionFixups 0 cs = []) \<and> tell Out \<le> tell (Str W)"
proof -
  from assms obtain W0 where 0: "newELFObjectWriter C Out = Inr W0" and 1: "applyCalls cs W0 = Inr W"
    by (auto simp add: runWriter_def bindE_eq_Inr)
  note N = newELFObjectWriter_building [OF 0]
  from N have B0: "building W0" by simp
  from applyCalls_building [OF B0 1] N show ?thesis
    by simp
qed

subsection \<open>Relocations of the text section\<close>

lemma functionFixups_Nil_iff:
  "(functionFixups Off cs = []) = (\<forall>c \<in> set cs. callFixups c = [])"
  by (induction Off cs rule: functionFixups.induct) simp_all

lemma writeFunctionCode_succeeds:
  assumes B: "building W"
  shows "\<exists>W'. writeFunctionCode F I A W = Inr W'"
proof -
  from B have na: "\<not> SectionNumbersAssigned W" and va: "validArch (Ctx W)"
    by (simp_all add: building_def)
  show ?thesis
  proof (cases "TextSections W")
    case Nil
    from B Nil have R: "RelTextSections W = []"
      by (auto simp add: building_def)
    let ?W1 = "W\<lparr>Sections := Sections W @ [newELFSection ''.text'' SHT_PROGBITS (SHF_ALLOC OR SHF_EXECINSTR) 32 0],
                  ShStrTabData := add ''.text'' (ShStrTabData W)\<rparr>"
    from alignFileOffset_32 [of ?W1] obtain off where
      al: "alignFileOffset 32 ?W1 = Inr (off, ?W1\<lparr>Str := writeZeroPadding (off - tell (Str W)) (Str W)\<rparr>)"
      by auto
    from Nil R na va al show ?thesis
      by (cases "fixups A = []")
         (simp_all add: writeFunctionCode_unfold relSectionName_def nth_append list_update_append)
  next
    case (Cons T Ts)
    show ?thesis
    proof (cases "RelTextSections W")
      case Nil
      from Cons Nil na va show ?thesis
        by (cases "fixups A = []") (simp_all add: writeFunctionCode_unfold)
    next
      case (Cons R Rs)
      from B Cons have "Name (Sections W ! R) = relSectionName (targetIsELF64 (Ctx W))"
        by (simp add: building_def isTextRelSection_def getSection_def)
      then have nm: "Name ((Sections W)[T := (Sections W ! T)
                    \<lparr>Size := Size (Sections W ! T) + length (getBufferView A)\<rparr>] ! R)
            = relSectionName (targetIsELF64 (Ctx W))"
        by (cases "R = T"; cases "T < length (Sections W)") (simp_all add: list_update_beyond)
      from \<open>TextSections W = T # Ts\<close> Cons na va nm show ?thesis
        by (cases "fixups A = []") (simp_all add: writeFunctionCode_unfold relSectionName_def)
    qed
  qed
qed

lemma applyCall_succeeds:
  assumes B: "building W" and S: "supportedCall (Ctx W) c"
  shows "\<exists>W'. applyCall c W = Inr W'"
proof (cases c)
  case WriteInitialELFHeader
  from B have "validArch (Ctx W)" "\<not> SectionNumbersAssigned W"
    by (simp_all add: building_def)
  from writeInitialELFHeader_valid [OF this] WriteInitialELFHeader show ?thesis by simp
next
  case (WriteFunctionCode F I A)
  with writeFunctionCode_succeeds [OF B] show ?thesis by simp
next
  case (WriteConstantPool CT Ty)
  from B have na: "\<not> SectionNumbersAssigned W"
    by (simp add: building_def)
  from S WriteConstantPool have all: "\<forall>C \<in> set (getConstantPool (Ctx W) Ty). isConstType CT C"
    by (simp add: list_all_iff)
  from S WriteConstantPool consider "CT = ConstantFloatT" "Ty = IceType_f32"
    | "CT = ConstantDoubleT" "Ty = IceType_f64"
    by auto
  then have "\<exists>W'. writeConstantPool CT Ty W = Inr W'"
  proof cases
    case 1
    from all show ?thesis unfolding 1
      by (intro writeConstantPool_succeeds f32_supported na)
  next
    case 2
    from all show ?thesis unfolding 2
      by (intro writeConstantPool_succeeds f64_supported na)
  qed
  with WriteConstantPool show ?thesis by simp
next
  case (WriteDataInitializer V D)
  with S show ?thesis by simp
qed

lemma applyCalls_succeeds:
  "building W \<Longrightarrow> list_all (supportedCall (Ctx W)) cs \<Longrightarrow> \<exists>W'. applyCalls cs W = Inr W'"
proof (induction cs arbitrary: W)
  case Nil
  then show ?case by simp
next
  case (Cons c cs)
  from Cons.prems have S: "supportedCall (Ctx W) c" and Ss: "list_all (supportedCall (Ctx W)) cs"
    by simp_all
  from applyCall_succeeds [OF Cons.prems(1) S] obtain W1 where 1: "applyCall c W = Inr W1"
    by (elim exE)
  from applyCall_building [OF Cons.prems(1) 1] have B1: "building W1" and C1: "Ctx W1 = Ctx W"
    by simp_all
  from Cons.IH [OF B1] Ss C1 obtain W' where "applyCalls cs W1 = Inr W'"
    by auto
  with 1 show ?case by simp
qed

lemma runWriter_succeeds:
  assumes "validArch C" "list_all (supportedCall C) cs"
  shows "\<exists>W. runWriter C Out cs = Inr W"
proof -
  note N = newELFObjectWriter_valid [OF assms(1), of Out]
  from newELFObjectWriter_building [OF N] assms(2) applyCalls_succeeds [of _ cs]
  show ?thesis
    by (simp add: runWriter_def N)
qed

lemma exampleWithFunctions_eq:
  "runWriter exampleContext emptyStream exampleFunctions = Inr exampleWithFunctions"
proof -
  have "list_all (supportedCall exampleContext) exampleFunctions"
    by (simp add: exampleFunctions_def)
  from runWriter_succeeds [OF validArch_exampleContext this, of emptyStream]
  show ?thesis
    by (auto simp add: exampleWithFunctions_def)
qed

text \<open>
  Claim C5, for the runs of the writer (a construction followed by calls): a run of
  supported calls returns, and when a run returns, the writer holds at most one text
  section and at most one relocation section for it. It holds none exactly when every
  call had an empty fixup list. Otherwise the relocation section is named .rela.text
  (ELF64) or .rel.text (ELF32), has the type SHT_RELA or SHT_REL, entsize 24 or 8,
  alignment 8 or 4, is related to the text section, and its entries are the fixups of
  the calls in the order of the calls, the offset of each moved by the number of code
  bytes written before its function.
\<close>

theorem writeFunctionCode_one_relocation_section:
  "(validArch C \<longrightarrow> list_all (supportedCall C) cs \<longrightarrow> (\<exists>W. runWriter C Out cs = Inr W)) \<and>
   (runWriter C Out cs = Inr W \<longrightarrow>
      length (TextSections W) \<le> 1 \<and> length (RelTextSections W) \<le> 1 \<and>
      (RelTextSections W = []) = (\<forall>c \<in> set cs. callFixups c = []) \<and>
      (\<forall>R \<in> set (RelTextSections W).
         TextSections W \<noteq> [] \<and>
         Name (getSection W R) = (if targetIsELF64 C then ''.rela.text'' else ''.rel.text'') \<and>
         ShType (getSection W R) = (if targetIsELF64 C then SHT_RELA else SHT_REL) \<and>
         ShEntsize (getSection W R) = (if targetIsELF64 C then 24 else 8) \<and>
         ShAddralign (getSection W R) = (if targetIsELF64 C then 8 else 4) \<and>
         RelatedSection (getSection W R) = Some (TextSections W ! 0) \<and>
         Fixups (getSection W R) = functionFixups 0 cs))"
proof (intro conjI impI)
  assume "validArch C" "list_all (supportedCall C) cs"
  then show "\<exists>W. runWriter C Out cs = Inr W"
    by (rule runWriter_succeeds)
next
  assume run: "runWriter C Out cs = Inr W"
  note R = runWriter_building [OF run]
  from R have B: "building W" and C: "Ctx W = C"
    and F: "textRelocations W = functionFixups 0 cs"
    and E: "(RelTextSections W = []) = (functionFixups 0 cs = [])"
    by simp_all
  from B show "length (TextSections W) \<le> 1" by (simp add: building_def)
  from B show "length (RelTextSections W) \<le> 1" by (simp add: building_def)
  from E show "(RelTextSections W = []) = (\<forall>c \<in> set cs. callFixups c = [])"
    by (simp add: functionFixups_Nil_iff)
  show "\<forall>R \<in> set (RelTextSections W).
         TextSections W \<noteq> [] \<and>
         Name (getSection W R) = (if targetIsELF64 C then ''.rela.text'' else ''.rel.text'') \<and>
         ShType (getSection W R) = (if targetIsELF64 C then SHT_RELA else SHT_REL) \<and>
         ShEntsize (getSection W R) = (if targetIsELF64 C then 24 else 8) \<and>
         ShAddralign (getSection W R) = (if targetIsELF64 C then 8 else 4) \<and>
         RelatedSection (getSection W R) = Some (TextSections W ! 0) \<and>
         Fixups (getSection W R) = functionFixups 0 cs"
  proof
    fix R assume Rin: "R \<in> set (RelTextSections W)"
    from B have len: "length (RelTextSections W) \<le> 1" by (simp add: building_def)
    with Rin have RW: "RelTextSections W = [R]"
      by (cases "RelTextSections W") auto
    from B RW have T: "TextSections W \<noteq> []"
      and I: "isTextRelSection (targetIsELF64 C) (TextSections W ! 0) (getSection W R)"
      by (simp_all add: building_def C)
    from F RW have Fx: "Fixups (getSection W R) = functionFixups 0 cs"
      by (simp add: textRelocations_def)
    from T I Fx show "TextSections W \<noteq> [] \<and>
         Name (getSection W R) = (if targetIsELF64 C then ''.rela.text'' else ''.rel.text'') \<and>
         ShType (getSection W R) = (if targetIsELF64 C then SHT_RELA else SHT_REL) \<and>
         ShEntsize (getSection W R) = (if targetIsELF64 C then 24 else 8) \<and>
         ShAddralign (getSection W R) = (if targetIsELF64 C then 8 else 4) \<and>
         RelatedSection (getSection W R) = Some (TextSections W ! 0) \<and>
         Fixups (getSection W R) = functionFixups 0 cs"
      by (simp add: isTextRelSection_def relSectionName_def)
  qed
qed

theorem writeFunctionCode_one_relocation_section_witness:
  "validArch exampleContext \<and> list_all (supportedCall exampleContext) exampleFunctions \<and>
   runWriter exampleContext emptyStream exampleFunctions = Inr exampleWithFunctions \<and>
   (\<exists>R. RelTextSections exampleWithFunctions = [R] \<and>
        Name (getSection exampleWithFunctions R) = ''.rela.text'' \<and>
        ShEntsize (getSection exampleWithFunctions R) = 24 \<and>
        Fixups (getSection exampleWithFunctions R) =
          [\<lparr>position = 1, kind = 4, symbol = ''g'', addend = -4\<rparr>,
           \<lparr>position = 8, kind = 4, symbol = ''f'', addend = -4\<rparr>])"
proof -
  have S: "list_all (supportedCall exampleContext) exampleFunctions"
    by (simp add: exampleFunctions_def)
  note T = writeFunctionCode_one_relocation_section
    [of exampleContext exampleFunctions emptyStream exampleWithFunctions,
     THEN conjunct2, rule_format, OF exampleWithFunctions_eq]
  have ne: "\<not> (\<forall>c \<in> set exampleFunctions. callFixups c = [])"
    by (simp add: exampleFunctions_def)
  from T ne have "RelTextSections exampleWithFunctions \<noteq> []"
    and "length (RelTextSections exampleWithFunctions) \<le> 1"
    by simp_all
  then obtain R where R: "RelTextSections exampleWithFunctions = [R]"
    by (cases "RelTextSections exampleWithFunctions") auto
  have 64: "targetIsELF64 exampleContext"
    by (simp add: targetIsELF64_def exampleContext_def)
  have fx: "functionFixups 0 exampleFunctions =
          [\<lparr>position = 1, kind = 4, symbol = ''g'', addend = -4\<rparr>,
           \<lparr>position = 8, kind = 4, symbol = ''f'', addend = -4\<rparr>]"
    by (simp add: exampleFunctions_def)
  from T R 64 have "Name (getSection exampleWithFunctions R) = ''.rela.text''"
    "ShEntsize (getSection exampleWithFunctions R) = 24"
    "Fixups (getSection exampleWithFunctions R) = functionFixups 0 exampleFunctions"
    by simp_all
  with R S validArch_exampleContext exampleWithFunctions_eq fx show ?thesis
    by (intro conjI exI [of _ R]) simp_all
qed

subsection \<open>Symbols\<close>

lemma applyCalls_append:
  "applyCalls (cs @ ds) W = bindE (applyCalls cs W) (applyCalls ds)"
  by (induction cs arbitrary: W) (simp_all split: sum.splits)

lemma applyCalls_single: "applyCalls [c] W = applyCall c W"
  by (cases "applyCall c W") simp_all

lemma runWriter_snoc:
  "(runWriter C Out (cs @ [c]) = Inr W') =
     (\<exists>W. runWriter C Out cs = Inr W \<and> applyCall c W = Inr W')"
  by (simp only: runWriter_def bindE_eq_Inr applyCalls_append applyCalls_single) blast

lemma poolSymbols_sizes:
  "list_all (\<lambda>s. st_size s = 0) (poolSymbols Sec N Off Pool)"
  by (induction Pool arbitrary: Off) (simp_all add: newSym_def)

lemma symbol_constants: "STB_LOCAL \<noteq> STB_GLOBAL"
  by (simp add: STB_LOCAL_def STB_GLOBAL_def)

lemma applyCall_sizes:
  assumes B: "building W" and ok: "applyCall c W = Inr W'"
    and Z: "list_all (\<lambda>s. st_size s = 0) (allSymbols (SymTabData W))"
  shows "list_all (\<lambda>s. st_size s = 0) (allSymbols (SymTabData W'))"
proof (cases c)
  case WriteInitialELFHeader
  with writeInitialELFHeader_building [OF B, of W'] ok Z show ?thesis by simp
next
  case (WriteFunctionCode F I A)
  with writeFunctionCode_building [OF B, of F I A W'] ok
  have "SymTabData W' = tableCreateDefinedSym F (if I then STT_NOTYPE else STT_FUNC)
            (if I then STB_LOCAL else STB_GLOBAL) (TextSections W' ! 0) (textSize W) 0 (SymTabData W)"
    by simp
  with Z show ?thesis
    by (simp add: tableCreateDefinedSym_def allSymbols_def newSym_def)
next
  case (WriteConstantPool CT Ty)
  show ?thesis
  proof (cases "getConstantPool (Ctx W) Ty = []")
    case True
    with ok WriteConstantPool Z show ?thesis by (simp add: writeConstantPool_empty)
  next
    case False
    from ok WriteConstantPool have "writeConstantPool CT Ty W = Inr W'" by simp
    from writeConstantPool_Inr [OF this False]
    have "SymTabData W' = (SymTabData W)\<lparr>LocalSymbols :=
                       LocalSymbols (SymTabData W)
                       @ poolSymbols (length (Sections W)) (typeWidthInBytes Ty) 0
                           (getConstantPool (Ctx W) Ty)\<rparr>"
      by auto
    with Z show ?thesis
      by (simp add: allSymbols_def poolSymbols_sizes)
  qed
next
  case (WriteDataInitializer V D)
  with ok show ?thesis by (simp add: writeDataInitializer_def split: if_splits)
qed

lemma applyCalls_sizes:
  "building W \<Longrightarrow> applyCalls cs W = Inr W' \<Longrightarrow>
   list_all (\<lambda>s. st_size s = 0) (allSymbols (SymTabData W)) \<Longrightarrow>
   list_all (\<lambda>s. st_size s = 0) (allSymbols (SymTabData W'))"
proof (induction cs arbitrary: W)
  case Nil
  then show ?case by simp
next
  case (Cons c cs)
  from Cons.prems(2) obtain W1 where 1: "applyCall c W = Inr W1" and 2: "applyCalls cs W1 = Inr W'"
    by (cases "applyCall c W") simp_all
  from applyCall_building [OF Cons.prems(1) 1] have B1: "building W1" by simp
  from Cons.IH [OF B1 2 applyCall_sizes [OF Cons.prems(1) 1 Cons.prems(3)]] show ?case .
qed

lemma runWriter_sizes:
  assumes "runWriter C Out cs = Inr W"
  shows "list_all (\<lambda>s. st_size s = 0) (allSymbols (SymTabData W))"
proof -
  from assms obtain W0 where 0: "newELFObjectWriter C Out = Inr W0" and 1: "applyCalls cs W0 = Inr W"
    by (auto simp add: runWriter_def bindE_eq_Inr)
  have va: "validArch C"
    using 0 newELFObjectWriter_invalid [of C Out] by (cases "validArch C") auto
  from 0 have Z: "list_all (\<lambda>s. st_size s = 0) (allSymbols (SymTabData W0))"
    unfolding newELFObjectWriter_valid [OF va]
    by (auto simp add: allSymbols_def tableCreateDefinedSym_def newSym_def)
  from newELFObjectWriter_building [OF 0] have "building W0" by simp
  from applyCalls_sizes [OF this 1 Z] show ?thesis .
qed

lemma examplePoolSymbols:
  "RoDataSections exampleWithPool = [4] \<and>
   ShEntsize (getSection exampleWithPool 4) = 4 \<and>
   allSymbols (SymTabData exampleWithPool) =
     [\<lparr>SymName = [], SymType = STT_NOTYPE, SymBinding = STB_LOCAL, SymSection = 0,
       st_value = 0, st_size = 0, st_name = 0\<rparr>,
      \<lparr>SymName = ''L$float$0'', SymType = STT_NOTYPE, SymBinding = STB_LOCAL, SymSection = 4,
       st_value = 0, st_size = 0, st_name = 0\<rparr>,
      \<lparr>SymName = ''L$float$1'', SymType = STT_NOTYPE, SymBinding = STB_LOCAL, SymSection = 4,
       st_value = 4, st_size = 0, st_name = 0\<rparr>]"
proof -
  have ne: "getConstantPool (Ctx exampleWriter) IceType_f32 \<noteq> []"
    by (simp add: exampleWriter_facts examplePool)
  from writeConstantPool_Inr [OF exampleWithPool_eq ne] obtain off where
    W': "exampleWithPool = exampleWriter\<lparr>Sections := Sections exampleWriter
                       @ [constantPoolSection IceType_f32 off (length (getConstantPool (Ctx exampleWriter) IceType_f32))],
                    ShStrTabData := add (''.rodata.cst'' @ decimal (typeWidthInBytes IceType_f32))
                                      (ShStrTabData exampleWriter),
                    RoDataSections := RoDataSections exampleWriter @ [length (Sections exampleWriter)],
                    SymTabData := (SymTabData exampleWriter)\<lparr>LocalSymbols :=
                       LocalSymbols (SymTabData exampleWriter)
                       @ poolSymbols (length (Sections exampleWriter)) (typeWidthInBytes IceType_f32) 0
                           (getConstantPool (Ctx exampleWriter) IceType_f32)\<rparr>,
                    StrTabData := foldl (\<lambda>T C. add (poolLabel C) T) (StrTabData exampleWriter)
                                    (getConstantPool (Ctx exampleWriter) IceType_f32),
                    Str := writeBytes (poolBytes (typeWidthInBytes IceType_f32) (getConstantPool (Ctx exampleWriter) IceType_f32))
                             (writeZeroPadding (off - tell (Str exampleWriter)) (Str exampleWriter))\<rparr>"
    by (elim exE conjE)
  have S: "SymTabData exampleWriter =
      \<lparr>LocalSymbols = [newSym [] STT_NOTYPE STB_LOCAL 0 0 0], GlobalSymbols = []\<rparr>"
    by (simp add: exampleWriter_def newELFObjectWriter_valid [OF validArch_exampleContext]
          tableCreateDefinedSym_def)
  have 1: "RoDataSections exampleWithPool = [4]"
    by (subst W') (simp add: exampleWriter_facts)
  have 2: "ShEntsize (getSection exampleWithPool 4) = 4"
    by (subst W') (simp add: exampleWriter_facts getSection_def constantPoolSection_def
          newELFSection_def IceType_f32_def nth_append)
  have 3: "allSymbols (SymTabData exampleWithPool) =
     [\<lparr>SymName = [], SymType = STT_NOTYPE, SymBinding = STB_LOCAL, SymSection = 0,
       st_value = 0, st_size = 0, st_name = 0\<rparr>,
      \<lparr>SymName = ''L$float$0'', SymType = STT_NOTYPE, SymBinding = STB_LOCAL, SymSection = 4,
       st_value = 0, st_size = 0, st_name = 0\<rparr>,
      \<lparr>SymName = ''L$float$1'', SymType = STT_NOTYPE, SymBinding = STB_LOCAL, SymSection = 4,
       st_value = 4, st_size = 0, st_name = 0\<rparr>]"
    by (subst W')
       (simp add: exampleWriter_facts examplePool [unfolded IceType_f32_def] S allSymbols_def
          newSym_def IceType_f32_def)
  from 1 2 3 show ?thesis by simp
qed

text \<open>
  Claim C3, as stated, fails on the data symbols: the symbols of a constant pool lie in
  a data section (here section 4, .rodata.cst4, of entry size 4) and carry the size 0,
  not the 4 bytes of their constant.
\<close>

theorem data_symbols_have_size_0_counterexample:
  "writeConstantPool ConstantFloatT IceType_f32 exampleWriter = Inr exampleWithPool \<and>
   RoDataSections exampleWithPool = [4] \<and>
   ShEntsize (getSection exampleWithPool 4) = 4 \<and>
   map SymSection (allSymbols (SymTabData exampleWithPool)) = [0, 4, 4] \<and>
   map st_size (allSymbols (SymTabData exampleWithPool)) = [0, 0, 0]"
  using exampleWithPool_eq examplePoolSymbols by simp

text \<open>
  Claim C3, amended: the call \<open>writeFunctionCode\<close> that ends a run adds one symbol to the
  table of the run before it: a LOCAL NOTYPE symbol at the end of the local symbols when
  \<open>isInternal\<close> is true, a GLOBAL FUNC symbol at the end of the others when it is false.
  The symbol lies in the text section, its value is the number of code bytes of the
  functions before it, and its size is 0. Every symbol of a run, the symbols of the
  constant pools included, has the size 0.
\<close>

theorem writeFunctionCode_symbol:
  "(runWriter C Out (cs @ [WriteFunctionCode F I A]) = Inr W' \<longrightarrow>
      (\<exists>W. runWriter C Out cs = Inr W \<and> TextSections W' \<noteq> [] \<and>
         (if I
          then LocalSymbols (SymTabData W') = LocalSymbols (SymTabData W)
                 @ [\<lparr>SymName = F, SymType = STT_NOTYPE, SymBinding = STB_LOCAL,
                     SymSection = TextSections W' ! 0, st_value = codeSize cs, st_size = 0,
                     st_name = 0\<rparr>] \<and>
               GlobalSymbols (SymTabData W') = GlobalSymbols (SymTabData W)
          else GlobalSymbols (SymTabData W') = GlobalSymbols (SymTabData W)
                 @ [\<lparr>SymName = F, SymType = STT_FUNC, SymBinding = STB_GLOBAL,
                     SymSection = TextSections W' ! 0, st_value = codeSize cs, st_size = 0,
                     st_name = 0\<rparr>] \<and>
               LocalSymbols (SymTabData W') = LocalSymbols (SymTabData W)))) \<and>
   (runWriter C Out cs = Inr W \<longrightarrow> list_all (\<lambda>s. st_size s = 0) (allSymbols (SymTabData W)))"
proof (intro conjI impI)
  assume "runWriter C Out cs = Inr W"
  then show "list_all (\<lambda>s. st_size s = 0) (allSymbols (SymTabData W))"
    by (rule runWriter_sizes)
next
  assume "runWriter C Out (cs @ [WriteFunctionCode F I A]) = Inr W'"
  then obtain W0 where run: "runWriter C Out cs = Inr W0"
    and ok: "writeFunctionCode F I A W0 = Inr W'"
    by (auto simp add: runWriter_snoc)
  from runWriter_building [OF run] have B: "building W0" and ts: "textSize W0 = codeSize cs"
    by simp_all
  from writeFunctionCode_building [OF B ok]
  have T: "TextSections W' \<noteq> []"
    and S: "SymTabData W' = tableCreateDefinedSym F (if I then STT_NOTYPE else STT_FUNC)
            (if I then STB_LOCAL else STB_GLOBAL) (TextSections W' ! 0) (textSize W0) 0 (SymTabData W0)"
    by simp_all
  from run T show "\<exists>W. runWriter C Out cs = Inr W \<and> TextSections W' \<noteq> [] \<and>
         (if I
          then LocalSymbols (SymTabData W') = LocalSymbols (SymTabData W)
                 @ [\<lparr>SymName = F, SymType = STT_NOTYPE, SymBinding = STB_LOCAL,
                     SymSection = TextSections W' ! 0, st_value = codeSize cs, st_size = 0,
                     st_name = 0\<rparr>] \<and>
               GlobalSymbols (SymTabData W') = GlobalSymbols (SymTabData W)
          else GlobalSymbols (SymTabData W') = GlobalSymbols (SymTabData W)
                 @ [\<lparr>SymName = F, SymType = STT_FUNC, SymBinding = STB_GLOBAL,
                     SymSection = TextSections W' ! 0, st_value = codeSize cs, st_size = 0,
                     st_name = 0\<rparr>] \<and>
               LocalSymbols (SymTabData W') = LocalSymbols (SymTabData W))"
    by (intro exI [of _ W0])
       (simp add: S ts tableCreateDefinedSym_def newSym_def symbol_constants [symmetric])
qed

theorem writeFunctionCode_symbol_witness:
  "runWriter exampleContext emptyStream exampleFunctions = Inr exampleWithFunctions \<and>
   last (LocalSymbols (SymTabData exampleWithFunctions)) =
     \<lparr>SymName = ''g'', SymType = STT_NOTYPE, SymBinding = STB_LOCAL,
      SymSection = TextSections exampleWithFunctions ! 0, st_value = 6, st_size = 0,
      st_name = 0\<rparr> \<and>
   list_all (\<lambda>s. st_size s = 0) (allSymbols (SymTabData exampleWithFunctions))"
proof -
  let ?cs = "[WriteInitialELFHeader,
      WriteFunctionCode ''f'' False
        \<lparr>getBufferView = [232, 0, 0, 0, 0, 195],
         fixups = [\<lparr>position = 1, kind = 4, symbol = ''g'', addend = -4\<rparr>]\<rparr>]"
  let ?A = "\<lparr>getBufferView = [144, 232, 0, 0, 0, 0, 195],
         fixups = [\<lparr>position = 2, kind = 4, symbol = ''f'', addend = -4\<rparr>]\<rparr>"
  have e: "exampleFunctions = ?cs @ [WriteFunctionCode ''g'' True ?A]"
    by (simp add: exampleFunctions_def)
  note run = exampleWithFunctions_eq [unfolded e]
  note T = writeFunctionCode_symbol
    [of exampleContext emptyStream ?cs "''g''" True ?A exampleWithFunctions]
  from T [THEN conjunct1, rule_format, OF run]
  have 1: "last (LocalSymbols (SymTabData exampleWithFunctions)) =
     \<lparr>SymName = ''g'', SymType = STT_NOTYPE, SymBinding = STB_LOCAL,
      SymSection = TextSections exampleWithFunctions ! 0, st_value = 6, st_size = 0,
      st_name = 0\<rparr>"
    by auto
  note U = writeFunctionCode_symbol
    [of exampleContext emptyStream exampleFunctions "''g''" True ?A exampleWithFunctions
        exampleWithFunctions]
  from U [THEN conjunct2, rule_format, OF exampleWithFunctions_eq]
  have 2: "list_all (\<lambda>s. st_size s = 0) (allSymbols (SymTabData exampleWithFunctions))" .
  from exampleWithFunctions_eq 1 2 show ?thesis by simp
qed

subsection \<open>Section numbers\<close>

lemma renumbered_refl [simp]: "renumbered W W"
  by (simp add: renumbered_def sameButNumbers_def)

lemma renumbered_trans: "renumbered W W1 \<Longrightarrow> renumbered W1 W2 \<Longrightarrow> renumbered W W2"
  by (simp add: renumbered_def sameButNumbers_def)

lemma renumbered_updSection:
  "(\<And>S. sameButNumbers S (f S)) \<Longrightarrow> renumbered W (updSection p f W)"
  by (simp add: renumbered_def getSection_updSection sameButNumbers_def)

lemma renumbered_relatedOf: "renumbered W W' \<Longrightarrow> relatedOf W' p = relatedOf W p"
  by (simp add: renumbered_def sameButNumbers_def relatedOf_def)

lemma assignNameStrIndex_Inr:
  assumes "assignNameStrIndex P W = Inr W'"
  shows "\<exists>I. W' = updSection P (setNameStrIndex I) W"
  using assms by (auto simp add: assignNameStrIndex_def bindE_eq_Inr)

text \<open>Numbering one section: \<open>setNumber\<close> followed by \<open>setNameStrIndex\<close>.\<close>

lemma number_step:
  assumes "assignNameStrIndex P (updSection P (setNumber n) W) = Inr W'"
  shows "renumbered W W'" "P < length (Sections W) \<Longrightarrow> numberOf W' P = n"
    "P < length (Sections W) \<Longrightarrow> infoOf W' P = infoOf W P"
    "p \<noteq> P \<Longrightarrow> getSection W' p = getSection W p"
proof -
  from assignNameStrIndex_Inr [OF assms] obtain I where
    W': "W' = updSection P (setNameStrIndex I) (updSection P (setNumber n) W)"
    by (elim exE)
  show "renumbered W W'"
    unfolding W'
    by (intro renumbered_trans [OF renumbered_updSection renumbered_updSection])
       (simp_all add: sameButNumbers_def setNumber_def setNameStrIndex_def)
  show "P < length (Sections W) \<Longrightarrow> numberOf W' P = n"
    by (simp add: W' numberOf_def getSection_updSection setNumber_def setNameStrIndex_def)
  show "P < length (Sections W) \<Longrightarrow> infoOf W' P = infoOf W P"
    by (simp add: W' infoOf_def getSection_updSection setNumber_def setNameStrIndex_def)
  show "p \<noteq> P \<Longrightarrow> getSection W' p = getSection W p"
    by (simp add: W' getSection_updSection)
qed

lemma set_flatten_pairUp: "set (flatten (pairUp rel Us Rs)) \<subseteq> set Us \<union> set Rs"
  by (induction rel Us Rs rule: pairUp.induct) auto

lemma unpaired_Nil [simp]: "unpaired rel Us [] = []"
  by (cases Us) simp_all

lemma map_upt_Cons:
  "f x = c \<Longrightarrow> map f xs = [c + 1..<c + 1 + length xs] \<Longrightarrow>
   map f (x # xs) = [c..<c + length (x # xs)]"
  by (simp add: upt_conv_Cons del: upt_Suc)

lemma map_upt_Cons2:
  "f x = c \<Longrightarrow> f y = c + 1 \<Longrightarrow> map f xs = [c + 2..<c + 2 + length xs] \<Longrightarrow>
   map f (x # y # xs) = [c..<c + length (x # y # xs)]"
  by (simp add: upt_conv_Cons del: upt_Suc)

lemma assignPairsLoop_Inr:
  "assignPairsLoop Us RelIt Cur AllS W = Inr (RelIt', Cur', AllS', W') \<Longrightarrow>
   distinct (Us @ RelIt) \<Longrightarrow> \<forall>p \<in> set (Us @ RelIt). p < length (Sections W) \<Longrightarrow>
   \<forall>p. relatedOf W p = rel p \<Longrightarrow>
     renumbered W W' \<and> RelIt' = unpaired rel Us RelIt \<and>
     AllS' = AllS @ flatten (pairUp rel Us RelIt) \<and>
     Cur' = Cur + length (flatten (pairUp rel Us RelIt)) \<and>
     map (numberOf W') (flatten (pairUp rel Us RelIt)) =
       [Cur..<Cur + length (flatten (pairUp rel Us RelIt))] \<and>
     (\<forall>p. p \<notin> set (flatten (pairUp rel Us RelIt)) \<longrightarrow> getSection W' p = getSection W p) \<and>
     (\<forall>U R. (U, Some R) \<in> set (pairUp rel Us RelIt) \<longrightarrow>
        infoOf W' R = numberOf W' U \<and> numberOf W' R = numberOf W' U + 1)"
proof (induction rel Us RelIt arbitrary: Cur AllS W rule: pairUp.induct)
  case (1 rel Rs)
  then show ?case by simp
next
  case (2 rel U Us)
  from "2.prems"(1) obtain W1 where
    s1: "assignNameStrIndex U (updSection U (setNumber Cur) W) = Inr W1"
    and rec: "assignPairsLoop Us [] (Cur + 1) (AllS @ [U]) W1 = Inr (RelIt', Cur', AllS', W')"
    by (auto split: sum.splits)
  note N = number_step [OF s1]
  from "2.prems" have U: "U < length (Sections W)" "U \<notin> set Us" by simp_all
  from N(1) have len: "length (Sections W1) = length (Sections W)"
    by (simp add: renumbered_def)
  have d1: "distinct (Us @ [])" using "2.prems"(2) by simp
  have r1: "\<forall>p \<in> set (Us @ []). p < length (Sections W1)"
    using "2.prems"(3) by (simp add: len)
  have rel1: "\<forall>p. relatedOf W1 p = rel p"
    using "2.prems"(4) by (simp add: renumbered_relatedOf [OF N(1)])
  note IH = "2.IH" [OF rec d1 r1 rel1]
  from set_flatten_pairUp [of rel Us "[]"] U(2) have notin: "U \<notin> set (flatten (pairUp rel Us []))"
    by auto
  with IH have "getSection W' U = getSection W1 U" by simp
  then have nU: "numberOf W' U = Cur"
    using N(2) [OF U(1)] by (simp add: numberOf_def)
  have fr: "\<forall>p. p \<notin> set (flatten (pairUp rel (U # Us) [])) \<longrightarrow> getSection W' p = getSection W p"
    using IH N(4) by simp
  from IH have m: "map (numberOf W') (flatten (pairUp rel Us [])) =
       [Cur + 1..<Cur + 1 + length (flatten (pairUp rel Us []))]" by blast
  have nums: "map (numberOf W') (flatten (pairUp rel (U # Us) [])) =
       [Cur..<Cur + length (flatten (pairUp rel (U # Us) []))]"
    using map_upt_Cons [OF nU m] by simp
  from IH have rest: "renumbered W1 W'" "RelIt' = unpaired rel Us []"
    "AllS' = (AllS @ [U]) @ flatten (pairUp rel Us [])"
    "Cur' = Cur + 1 + length (flatten (pairUp rel Us []))"
    "\<forall>U R. (U, Some R) \<in> set (pairUp rel Us []) \<longrightarrow>
        infoOf W' R = numberOf W' U \<and> numberOf W' R = numberOf W' U + 1"
    by blast+
  from rest renumbered_trans [OF N(1) rest(1)] fr nums show ?case
    by (simp del: upt_Suc)
next
  case (3 rel U Us R Rs)
  from "3.prems"(1) obtain W1 where
    s1: "assignNameStrIndex U (updSection U (setNumber Cur) W) = Inr W1"
    by (auto split: sum.splits)
  note N = number_step [OF s1]
  from "3.prems" have U: "U < length (Sections W)" "U \<notin> set Us" "U \<noteq> R" "U \<notin> set Rs"
    and R: "R < length (Sections W)" "R \<notin> set Us" "R \<notin> set Rs"
    by auto
  from N(1) have len: "length (Sections W1) = length (Sections W)"
    by (simp add: renumbered_def)
  have rel1: "\<forall>p. relatedOf W1 p = rel p"
    using "3.prems"(4) by (simp add: renumbered_relatedOf [OF N(1)])
  have nU1: "numberOf W1 U = Cur" using N(2) [OF U(1)] .
  show ?case
  proof (cases "rel R = Some U")
    case True
    with rel1 have T1: "RelatedSection (getSection W1 R) = Some U"
      by (simp add: relatedOf_def)
    let ?W1' = "updSection R (setInfoNum (Number (getSection W1 U))) W1"
    from "3.prems"(1) s1 T1 obtain W2 where
      s2: "assignNameStrIndex R (updSection R (setNumber (Cur + 1)) ?W1') = Inr W2"
      and rec: "assignPairsLoop Us Rs (Cur + 2) (AllS @ [U, R]) W2 = Inr (RelIt', Cur', AllS', W')"
      by (auto split: sum.splits)
    note M = number_step [OF s2]
    have rn: "renumbered W1 ?W1'"
      by (rule renumbered_updSection) (simp add: sameButNumbers_def setInfoNum_def)
    have rn2: "renumbered W W2"
      by (rule renumbered_trans [OF N(1) renumbered_trans [OF rn M(1)]])
    then have len2: "length (Sections W2) = length (Sections W)"
      by (simp add: renumbered_def)
    have len1': "R < length (Sections ?W1')" using R(1) len by simp
    have nR2: "numberOf W2 R = Cur + 1" using M(2) [OF len1'] .
    have iR2: "infoOf W2 R = Cur"
      using M(3) [OF len1'] R(1) len nU1
      by (simp add: infoOf_def numberOf_def getSection_updSection setInfoNum_def)
    have other2: "\<And>p. p \<noteq> R \<Longrightarrow> getSection W2 p = getSection W1 p"
      using M(4) by (simp add: getSection_updSection)
    have nU2: "numberOf W2 U = Cur"
      using other2 [of U] U(3) nU1 by (simp add: numberOf_def)
    have d2: "distinct (Us @ Rs)" using "3.prems"(2) by simp
    have r2: "\<forall>p \<in> set (Us @ Rs). p < length (Sections W2)"
      using "3.prems"(3) by (simp add: len2)
    have rel2: "\<forall>p. relatedOf W2 p = rel p"
      using "3.prems"(4) by (simp add: renumbered_relatedOf [OF rn2])
    note IH = "3.IH"(1) [OF True rec d2 r2 rel2]
    from set_flatten_pairUp [of rel Us Rs] U R
    have notin: "U \<notin> set (flatten (pairUp rel Us Rs))" "R \<notin> set (flatten (pairUp rel Us Rs))"
      by auto
    with IH have same: "getSection W' U = getSection W2 U" "getSection W' R = getSection W2 R"
      by simp_all
    have nU: "numberOf W' U = Cur" and nR: "numberOf W' R = Cur + 1" and iR: "infoOf W' R = Cur"
      using same nU2 nR2 iR2 by (simp_all add: numberOf_def infoOf_def)
    have fr: "\<forall>p. p \<notin> set (flatten (pairUp rel (U # Us) (R # Rs))) \<longrightarrow>
                getSection W' p = getSection W p"
      using IH N(4) other2 True by simp
    from IH have m: "map (numberOf W') (flatten (pairUp rel Us Rs)) =
       [Cur + 2..<Cur + 2 + length (flatten (pairUp rel Us Rs))]" by blast
    have nums: "map (numberOf W') (flatten (pairUp rel (U # Us) (R # Rs))) =
       [Cur..<Cur + length (flatten (pairUp rel (U # Us) (R # Rs)))]"
      using map_upt_Cons2 [OF nU nR m] True by simp
    from IH have rest: "renumbered W2 W'" "RelIt' = unpaired rel Us Rs"
      "AllS' = (AllS @ [U, R]) @ flatten (pairUp rel Us Rs)"
      "Cur' = Cur + 2 + length (flatten (pairUp rel Us Rs))"
      "\<forall>U R. (U, Some R) \<in> set (pairUp rel Us Rs) \<longrightarrow>
          infoOf W' R = numberOf W' U \<and> numberOf W' R = numberOf W' U + 1"
      by blast+
    have pairs: "\<forall>U' R'. (U', Some R') \<in> set (pairUp rel (U # Us) (R # Rs)) \<longrightarrow>
        infoOf W' R' = numberOf W' U' \<and> numberOf W' R' = numberOf W' U' + 1"
      using rest(5) nU nR iR True by auto
    from rest(2,3,4) renumbered_trans [OF rn2 rest(1)] fr nums pairs True show ?thesis
      by (simp del: upt_Suc)
  next
    case False
    with rel1 have F1: "RelatedSection (getSection W1 R) \<noteq> Some U"
      by (simp add: relatedOf_def)
    from "3.prems"(1) s1 F1 have
      rec: "assignPairsLoop Us (R # Rs) (Cur + 1) (AllS @ [U]) W1 = Inr (RelIt', Cur', AllS', W')"
      by (auto split: sum.splits)
    have d1: "distinct (Us @ R # Rs)" using "3.prems"(2) by simp
    have r1: "\<forall>p \<in> set (Us @ R # Rs). p < length (Sections W1)"
      using "3.prems"(3) by (simp add: len)
    note IH = "3.IH"(2) [OF False rec d1 r1 rel1]
    from set_flatten_pairUp [of rel Us "R # Rs"] U
    have notin: "U \<notin> set (flatten (pairUp rel Us (R # Rs)))"
      by auto
    with IH have "getSection W' U = getSection W1 U" by simp
    then have nU: "numberOf W' U = Cur"
      using nU1 by (simp add: numberOf_def)
    have fr: "\<forall>p. p \<notin> set (flatten (pairUp rel (U # Us) (R # Rs))) \<longrightarrow>
                getSection W' p = getSection W p"
      using IH N(4) False by simp
    from IH have m: "map (numberOf W') (flatten (pairUp rel Us (R # Rs))) =
       [Cur + 1..<Cur + 1 + length (flatten (pairUp rel Us (R # Rs)))]" by blast
    have nums: "map (numberOf W') (flatten (pairUp rel (U # Us) (R # Rs))) =
       [Cur..<Cur + length (flatten (pairUp rel (U # Us) (R # Rs)))]"
      using map_upt_Cons [OF nU m] False by simp
    from IH have rest: "renumbered W1 W'" "RelIt' = unpaired rel Us (R # Rs)"
      "AllS' = (AllS @ [U]) @ flatten (pairUp rel Us (R # Rs))"
      "Cur' = Cur + 1 + length (flatten (pairUp rel Us (R # Rs)))"
      "\<forall>U' R'. (U', Some R') \<in> set (pairUp rel Us (R # Rs)) \<longrightarrow>
          infoOf W' R' = numberOf W' U' \<and> numberOf W' R' = numberOf W' U' + 1"
      by blast+
    have pairs: "\<forall>U' R'. (U', Some R') \<in> set (pairUp rel (U # Us) (R # Rs)) \<longrightarrow>
        infoOf W' R' = numberOf W' U' \<and> numberOf W' R' = numberOf W' U' + 1"
      using rest(5) False by auto
    from rest(2,3,4) renumbered_trans [OF N(1) rest(1)] fr nums pairs False show ?thesis
      by (simp del: upt_Suc)
  qed
qed

lemma flatten_append: "flatten (ps @ qs) = flatten ps @ flatten qs"
  by (induction ps rule: flatten.induct) simp_all

lemma pair_in_flatten:
  "(U, Some R) \<in> set ps \<Longrightarrow> U \<in> set (flatten ps) \<and> R \<in> set (flatten ps)"
  by (induction ps rule: flatten.induct) auto

lemma pairsNumbered_append:
  "pairsNumbered W (ps @ qs) = (pairsNumbered W ps \<and> pairsNumbered W qs)"
  by (auto simp add: pairsNumbered_def)

lemma pairsNumbered_Nil [simp]: "pairsNumbered W []"
  by (simp add: pairsNumbered_def)

lemma pairsNumbered_cong:
  assumes "pairsNumbered W ps" "\<forall>p \<in> set (flatten ps). getSection W' p = getSection W p"
  shows "pairsNumbered W' ps"
  unfolding pairsNumbered_def
proof (intro allI impI)
  fix U R assume in_ps: "(U, Some R) \<in> set ps"
  from pair_in_flatten [OF in_ps] assms(2)
  have "getSection W' U = getSection W U" "getSection W' R = getSection W R" by simp_all
  with assms(1) in_ps show "infoOf W' R = numberOf W' U \<and> numberOf W' R = numberOf W' U + 1"
    by (simp add: pairsNumbered_def infoOf_def numberOf_def)
qed

lemma numbers_cong:
  assumes "map (numberOf W) A = ns" "\<forall>p \<in> set A. getSection W' p = getSection W p"
  shows "map (numberOf W') A = ns"
proof -
  have "map (numberOf W') A = map (numberOf W) A"
    using assms(2) by (intro map_cong) (simp_all add: numberOf_def)
  with assms(1) show ?thesis by simp
qed

lemma numbers_append:
  assumes "map (numberOf W') A = [0..<length A]"
    and "map (numberOf W') B = [length A..<length A + length B]"
  shows "map (numberOf W') (A @ B) = [0..<length (A @ B)]"
  using assms upt_add_eq_append [of 0 "length A" "length B"] by (simp del: upt_Suc)

text \<open>One block of the numbering: the sections numbered so far, and a new block after them.\<close>

lemma number_block:
  assumes A: "map (numberOf W1) A = [0..<length A]" and ps: "pairsNumbered W1 ps"
    and sub: "set (flatten ps) \<subseteq> set A"
    and B: "map (numberOf W2) B = [length A..<length A + length B]"
    and fr: "\<forall>p. p \<notin> set B \<longrightarrow> getSection W2 p = getSection W1 p"
    and disj: "set A \<inter> set B = {}"
  shows "map (numberOf W2) (A @ B) = [0..<length (A @ B)]" "pairsNumbered W2 ps"
proof -
  from fr disj have same: "\<forall>p \<in> set A. getSection W2 p = getSection W1 p" by auto
  from numbers_append [OF numbers_cong [OF A same] B]
  show "map (numberOf W2) (A @ B) = [0..<length (A @ B)]" .
  from same sub have "\<forall>p \<in> set (flatten ps). getSection W2 p = getSection W1 p" by auto
  from pairsNumbered_cong [OF ps this] show "pairsNumbered W2 ps" .
qed

lemma assignRelSectionNumInPairs_Inr:
  assumes ok: "assignRelSectionNumInPairs Cur Us Rs AllS W = Inr (Cur', AllS', W')"
    and d: "distinct (Us @ Rs)" and r: "\<forall>p \<in> set (Us @ Rs). p < length (Sections W)"
    and rel: "\<forall>p. relatedOf W p = rel p"
  shows "renumbered W W' \<and> unpaired rel Us Rs = [] \<and>
     AllS' = AllS @ flatten (pairUp rel Us Rs) \<and>
     Cur' = Cur + length (flatten (pairUp rel Us Rs)) \<and>
     map (numberOf W') (flatten (pairUp rel Us Rs)) =
       [Cur..<Cur + length (flatten (pairUp rel Us Rs))] \<and>
     (\<forall>p. p \<notin> set (flatten (pairUp rel Us Rs)) \<longrightarrow> getSection W' p = getSection W p) \<and>
     pairsNumbered W' (pairUp rel Us Rs)"
proof -
  from ok obtain RelIt' where
    lp: "assignPairsLoop Us Rs Cur AllS W = Inr (RelIt', Cur', AllS', W')" and e: "RelIt' = []"
    by (auto simp add: assignRelSectionNumInPairs_def bindE_eq_Inr)
  from assignPairsLoop_Inr [OF lp d r rel] e show ?thesis
    by (simp add: pairsNumbered_def del: upt_Suc)
qed

lemma assignBookkeeping_Inr:
  assumes "assignBookkeeping P Cur AllS W = Inr (Cur', AllS', W')"
  shows "Cur' = Cur + 1" "AllS' = AllS @ [P]" "renumbered W W'"
    "P < length (Sections W) \<Longrightarrow> numberOf W' P = Cur"
    "\<And>p. p \<noteq> P \<Longrightarrow> getSection W' p = getSection W p"
proof -
  from assms have s: "assignNameStrIndex P (updSection P (setNumber Cur) W) = Inr W'"
    and c: "Cur' = Cur + 1" "AllS' = AllS @ [P]"
    by (auto simp add: assignBookkeeping_def bindE_eq_Inr)
  from c show "Cur' = Cur + 1" "AllS' = AllS @ [P]" by simp_all
  from number_step [OF s] show "renumbered W W'"
    "P < length (Sections W) \<Longrightarrow> numberOf W' P = Cur"
    "\<And>p. p \<noteq> P \<Longrightarrow> getSection W' p = getSection W p"
    by simp_all
qed

lemma assignRelLinkNum_frame:
  "renumbered W (assignRelLinkNum n Rs W) \<and>
   SectionNumbersAssigned (assignRelLinkNum n Rs W) = SectionNumbersAssigned W \<and>
   (\<forall>p. numberOf (assignRelLinkNum n Rs W) p = numberOf W p \<and>
        infoOf (assignRelLinkNum n Rs W) p = infoOf W p)"
proof (induction Rs arbitrary: W)
  case Nil
  show ?case by (simp add: assignRelLinkNum_def)
next
  case (Cons R Rs)
  have e: "assignRelLinkNum n (R # Rs) W = assignRelLinkNum n Rs (updSection R (setLinkNum n) W)"
    by (simp add: assignRelLinkNum_def)
  have rn: "renumbered W (updSection R (setLinkNum n) W)"
    by (rule renumbered_updSection) (simp add: sameButNumbers_def setLinkNum_def)
  have f: "\<forall>p. numberOf (updSection R (setLinkNum n) W) p = numberOf W p \<and>
               infoOf (updSection R (setLinkNum n) W) p = infoOf W p"
    by (simp add: numberOf_def infoOf_def getSection_updSection setLinkNum_def)
  from Cons [of "updSection R (setLinkNum n) W"] renumbered_trans [OF rn] f show ?case
    by (simp add: e)
qed


lemma set_flatten_sectionPairs:
  "set (flatten (sectionPairs W)) \<subseteq> set (userPointers W) \<union> set (relPointers W)"
  using set_flatten_pairUp [of "relatedOf W" "TextSections W" "RelTextSections W"]
    set_flatten_pairUp [of "relatedOf W" "DataSections W" "RelDataSections W"]
    set_flatten_pairUp [of "relatedOf W" "RoDataSections W" "RelRoDataSections W"]
  by (auto simp add: sectionPairs_def flatten_append userPointers_def relPointers_def)

lemma assignLinks_frame:
  "renumbered W (assignLinks W) \<and> SectionNumbersAssigned (assignLinks W) \<and>
   (\<forall>p. numberOf (assignLinks W) p = numberOf W p) \<and>
   (\<forall>p. p \<noteq> SymTab W \<longrightarrow> infoOf (assignLinks W) p = infoOf W p)"
proof -
  let ?W7 = "updSection (SymTab W) (setLinkNum (Number (getSection W (StrTab W)))) W"
  let ?W8 = "updSection (SymTab ?W7) (setInfoNum (getNumLocals (SymTabData ?W7))) ?W7"
  let ?W9 = "assignRelLinkNum (Number (getSection ?W8 (SymTab ?W8))) (RelTextSections ?W8) ?W8"
  let ?W10 = "assignRelLinkNum (Number (getSection ?W9 (SymTab ?W9))) (RelDataSections ?W9) ?W9"
  let ?W11 = "assignRelLinkNum (Number (getSection ?W10 (SymTab ?W10)))
                (RelRoDataSections ?W10) ?W10"
  have e: "assignLinks W = ?W11\<lparr>SectionNumbersAssigned := True\<rparr>"
    by (simp add: assignLinks_def Let_def)
  have r7: "renumbered W ?W7"
    by (rule renumbered_updSection) (simp add: sameButNumbers_def setLinkNum_def)
  have r8: "renumbered ?W7 ?W8"
    by (rule renumbered_updSection) (simp add: sameButNumbers_def setInfoNum_def)
  have f8: "\<forall>p. numberOf ?W8 p = numberOf W p"
    "\<forall>p. p \<noteq> SymTab W \<longrightarrow> infoOf ?W8 p = infoOf W p"
    by (simp_all add: numberOf_def infoOf_def getSection_updSection setLinkNum_def
          setInfoNum_def)
  note L9 = assignRelLinkNum_frame [of ?W8 "Number (getSection ?W8 (SymTab ?W8))" "RelTextSections ?W8"]
  note L10 = assignRelLinkNum_frame [of ?W9 "Number (getSection ?W9 (SymTab ?W9))" "RelDataSections ?W9"]
  note L11 = assignRelLinkNum_frame [of ?W10 "Number (getSection ?W10 (SymTab ?W10))" "RelRoDataSections ?W10"]
  from L9 L10 L11 have r11: "renumbered ?W8 ?W11"
    by (blast intro: renumbered_trans)
  have rn: "renumbered W ?W11"
    by (rule renumbered_trans [OF r7 renumbered_trans [OF r8 r11]])
  have num: "\<forall>p. numberOf ?W11 p = numberOf W p"
    using L9 L10 L11 f8(1) by simp
  have inf: "\<forall>p. p \<noteq> SymTab W \<longrightarrow> infoOf ?W11 p = infoOf W p"
    using L9 L10 L11 f8(2) by simp
  have "renumbered W (?W11\<lparr>SectionNumbersAssigned := True\<rparr>)"
    using rn by (simp add: renumbered_def getSection_def)
  moreover have "\<forall>p. numberOf (?W11\<lparr>SectionNumbersAssigned := True\<rparr>) p = numberOf W p"
    using num by (simp add: numberOf_def getSection_def)
  moreover have "\<forall>p. p \<noteq> SymTab W \<longrightarrow>
      infoOf (?W11\<lparr>SectionNumbersAssigned := True\<rparr>) p = infoOf W p"
    using inf by (simp add: infoOf_def getSection_def)
  ultimately show ?thesis
    unfolding e by simp
qed

lemma stage_pairs:
  assumes A: "map (numberOf W1) A = [0..<length A]" and ps: "pairsNumbered W1 ps"
    and sub: "set (flatten ps) \<subseteq> set A" and rn: "renumbered W W1"
    and ok: "assignRelSectionNumInPairs (length A) Us Rs A W1 = Inr (Cur', AllS', W2)"
    and d: "distinct (Us @ Rs)" and r: "\<forall>p \<in> set (Us @ Rs). p < length (Sections W)"
    and disj: "set A \<inter> (set Us \<union> set Rs) = {}"
  shows "renumbered W W2" "unpaired (relatedOf W) Us Rs = []"
    "AllS' = A @ flatten (pairUp (relatedOf W) Us Rs)" "Cur' = length AllS'"
    "map (numberOf W2) AllS' = [0..<length AllS']"
    "pairsNumbered W2 (ps @ pairUp (relatedOf W) Us Rs)"
    "set (flatten (ps @ pairUp (relatedOf W) Us Rs)) \<subseteq> set AllS'"
proof -
  let ?B = "flatten (pairUp (relatedOf W) Us Rs)"
  from rn have len: "length (Sections W1) = length (Sections W)"
    by (simp add: renumbered_def)
  from r have r1: "\<forall>p \<in> set (Us @ Rs). p < length (Sections W1)"
    by (simp add: len)
  have rel: "\<forall>p. relatedOf W1 p = relatedOf W p"
    by (simp add: renumbered_relatedOf [OF rn])
  note S = assignRelSectionNumInPairs_Inr [OF ok d r1 rel]
  from S have rn2: "renumbered W1 W2" by blast
  from S show u: "unpaired (relatedOf W) Us Rs = []" by blast
  from S show a: "AllS' = A @ ?B" by blast
  from S have c: "Cur' = length A + length ?B" by blast
  from S have m: "map (numberOf W2) ?B = [length A..<length A + length ?B]" by blast
  from S have f: "\<forall>p. p \<notin> set ?B \<longrightarrow> getSection W2 p = getSection W1 p" by blast
  from S have p: "pairsNumbered W2 (pairUp (relatedOf W) Us Rs)" by blast
  from set_flatten_pairUp [of "relatedOf W" Us Rs] disj have dj: "set A \<inter> set ?B = {}"
    by auto
  note B = number_block [OF A ps sub m f dj]
  from renumbered_trans [OF rn rn2] show "renumbered W W2" .
  from c a show "Cur' = length AllS'" by simp
  from B(1) a show "map (numberOf W2) AllS' = [0..<length AllS']" by simp
  from B(2) p show "pairsNumbered W2 (ps @ pairUp (relatedOf W) Us Rs)"
    by (simp add: pairsNumbered_append)
  from sub a show "set (flatten (ps @ pairUp (relatedOf W) Us Rs)) \<subseteq> set AllS'"
    by (auto simp add: flatten_append)
qed

lemma stage_bookkeeping:
  assumes A: "map (numberOf W1) A = [0..<length A]" and ps: "pairsNumbered W1 ps"
    and sub: "set (flatten ps) \<subseteq> set A" and rn: "renumbered W W1"
    and ok: "assignBookkeeping P (length A) A W1 = Inr (Cur', AllS', W2)"
    and r: "P < length (Sections W)" and notin: "P \<notin> set A"
  shows "renumbered W W2" "AllS' = A @ [P]" "Cur' = length AllS'"
    "map (numberOf W2) AllS' = [0..<length AllS']" "pairsNumbered W2 ps"
    "set (flatten ps) \<subseteq> set AllS'"
proof -
  from rn have len: "length (Sections W1) = length (Sections W)"
    by (simp add: renumbered_def)
  note S = assignBookkeeping_Inr [OF ok]
  from r have "numberOf W2 P = length A" using S(4) by (simp add: len)
  then have m: "map (numberOf W2) [P] = [length A..<length A + length [P]]" by simp
  from S(5) have f: "\<forall>p. p \<notin> set [P] \<longrightarrow> getSection W2 p = getSection W1 p" by simp
  from notin have dj: "set A \<inter> set [P] = {}" by simp
  note B = number_block [OF A ps sub m f dj]
  from renumbered_trans [OF rn S(3)] show "renumbered W W2" .
  from S(2) show a: "AllS' = A @ [P]" .
  from S(1) a show "Cur' = length AllS'" by simp
  from B(1) a show "map (numberOf W2) AllS' = [0..<length AllS']" by simp
  from B(2) show "pairsNumbered W2 ps" .
  from sub a show "set (flatten ps) \<subseteq> set AllS'" by auto
qed

lemma assignSectionNumbersInfo_Inr:
  assumes wf: "wellFormed W" and ok: "assignSectionNumbersInfo W = Inr (AllS, W')"
  shows "renumbered W W' \<and> \<not> SectionNumbersAssigned W \<and> SectionNumbersAssigned W' \<and>
         AllS = sectionOrder W \<and>
         unpaired (relatedOf W) (TextSections W) (RelTextSections W) = [] \<and>
         unpaired (relatedOf W) (DataSections W) (RelDataSections W) = [] \<and>
         unpaired (relatedOf W) (RoDataSections W) (RelRoDataSections W) = [] \<and>
         map (numberOf W') AllS = [0..<length AllS] \<and>
         pairsNumbered W' (sectionPairs W)"
proof -
  let ?rel = "relatedOf W"
  let ?T = "pairUp ?rel (TextSections W) (RelTextSections W)"
  let ?D = "pairUp ?rel (DataSections W) (RelDataSections W)"
  let ?R = "pairUp ?rel (RoDataSections W) (RelRoDataSections W)"
  let ?W0 = "updSection (NullSection W) (setNumber 0) W"
  from wf have dist: "distinct ([NullSection W, ShStrTab W, SymTab W, StrTab W]
      @ (TextSections W @ DataSections W @ RoDataSections W)
      @ (RelTextSections W @ RelDataSections W @ RelRoDataSections W))"
    and rng: "\<forall>p \<in> set ([NullSection W, ShStrTab W, SymTab W, StrTab W]
      @ (TextSections W @ DataSections W @ RoDataSections W)
      @ (RelTextSections W @ RelDataSections W @ RelRoDataSections W)). p < length (Sections W)"
    by (simp_all add: wellFormed_def bookkeepingPointers_def userPointers_def relPointers_def)
  from ok obtain Cur1 All1 W1 Cur2 All2 W2 Cur3 All3 W3 Cur4 All4 W4 Cur5 All5 W5 Cur6 W6
    where na: "\<not> SectionNumbersAssigned W"
    and l1: "assignRelSectionNumInPairs 1 (TextSections W) (RelTextSections W)
               [NullSection W] ?W0 = Inr (Cur1, All1, W1)"
    and l2: "assignRelSectionNumInPairs Cur1 (DataSections W1) (RelDataSections W1) All1 W1
               = Inr (Cur2, All2, W2)"
    and l3: "assignRelSectionNumInPairs Cur2 (RoDataSections W2) (RelRoDataSections W2) All2 W2
               = Inr (Cur3, All3, W3)"
    and b1: "assignBookkeeping (ShStrTab W3) Cur3 All3 W3 = Inr (Cur4, All4, W4)"
    and b2: "assignBookkeeping (SymTab W4) Cur4 All4 W4 = Inr (Cur5, All5, W5)"
    and b3: "assignBookkeeping (StrTab W5) Cur5 All5 W5 = Inr (Cur6, AllS, W6)"
    and W': "W' = assignLinks W6"
    by (auto simp add: assignSectionNumbersInfo_def bindE_eq_Inr Let_def assignLinks_def)
  have rn0: "renumbered W ?W0"
    by (rule renumbered_updSection) (simp add: sameButNumbers_def setNumber_def)
  have A0: "map (numberOf ?W0) [NullSection W] = [0..<length [NullSection W]]"
    using rng by (simp add: numberOf_def getSection_updSection setNumber_def)
  have p0: "pairsNumbered ?W0 []" by simp
  have s0: "set (flatten []) \<subseteq> set [NullSection W]" by simp
  from l1 have l1': "assignRelSectionNumInPairs (length [NullSection W]) (TextSections W)
      (RelTextSections W) [NullSection W] ?W0 = Inr (Cur1, All1, W1)" by simp
  have d1: "distinct (TextSections W @ RelTextSections W)" using dist by auto
  have r1: "\<forall>p \<in> set (TextSections W @ RelTextSections W). p < length (Sections W)"
    using rng by auto
  have j1: "set [NullSection W] \<inter> (set (TextSections W) \<union> set (RelTextSections W)) = {}"
    using dist by auto
  note S1 = stage_pairs [OF A0 p0 s0 rn0 l1' d1 r1 j1]
  from l2 S1(1,4) have l2': "assignRelSectionNumInPairs (length All1) (DataSections W)
      (RelDataSections W) All1 W1 = Inr (Cur2, All2, W2)"
    by (simp add: renumbered_def)
  have d2: "distinct (DataSections W @ RelDataSections W)" using dist by auto
  have r2: "\<forall>p \<in> set (DataSections W @ RelDataSections W). p < length (Sections W)"
    using rng by auto
  have sT: "set (flatten ?T) \<subseteq> set (TextSections W) \<union> set (RelTextSections W)"
    by (rule set_flatten_pairUp)
  have sD: "set (flatten ?D) \<subseteq> set (DataSections W) \<union> set (RelDataSections W)"
    by (rule set_flatten_pairUp)
  have sR: "set (flatten ?R) \<subseteq> set (RoDataSections W) \<union> set (RelRoDataSections W)"
    by (rule set_flatten_pairUp)
  have j2: "set All1 \<inter> (set (DataSections W) \<union> set (RelDataSections W)) = {}"
    using dist sT unfolding S1(3) by auto
  note S2 = stage_pairs [OF S1(5) S1(6) S1(7) S1(1) l2' d2 r2 j2]
  from l3 S2(1,4) have l3': "assignRelSectionNumInPairs (length All2) (RoDataSections W)
      (RelRoDataSections W) All2 W2 = Inr (Cur3, All3, W3)"
    by (simp add: renumbered_def)
  have d3: "distinct (RoDataSections W @ RelRoDataSections W)" using dist by auto
  have r3: "\<forall>p \<in> set (RoDataSections W @ RelRoDataSections W). p < length (Sections W)"
    using rng by auto
  have j3: "set All2 \<inter> (set (RoDataSections W) \<union> set (RelRoDataSections W)) = {}"
    using dist sT sD unfolding S2(3) S1(3) by auto
  note S3 = stage_pairs [OF S2(5) S2(6) S2(7) S2(1) l3' d3 r3 j3]
  have all3: "All3 = NullSection W # flatten ?T @ flatten ?D @ flatten ?R"
    unfolding S3(3) S2(3) S1(3) by simp
  from b1 S3(1,4) have b1': "assignBookkeeping (ShStrTab W) (length All3) All3 W3
      = Inr (Cur4, All4, W4)"
    by (simp add: renumbered_def)
  have k1: "ShStrTab W < length (Sections W)" using rng by simp
  have n1: "ShStrTab W \<notin> set All3"
    using dist sT sD sR unfolding all3 by auto
  note S4 = stage_bookkeeping [OF S3(5) S3(6) S3(7) S3(1) b1' k1 n1]
  from b2 S4(1,3) have b2': "assignBookkeeping (SymTab W) (length All4) All4 W4
      = Inr (Cur5, All5, W5)"
    by (simp add: renumbered_def)
  have k2: "SymTab W < length (Sections W)" using rng by simp
  have n2: "SymTab W \<notin> set All4"
    using dist sT sD sR unfolding S4(2) all3 by auto
  note S5 = stage_bookkeeping [OF S4(4) S4(5) S4(6) S4(1) b2' k2 n2]
  from b3 S5(1,3) have b3': "assignBookkeeping (StrTab W) (length All5) All5 W5
      = Inr (Cur6, AllS, W6)"
    by (simp add: renumbered_def)
  have k3: "StrTab W < length (Sections W)" using rng by simp
  have n3: "StrTab W \<notin> set All5"
    using dist sT sD sR unfolding S5(2) S4(2) all3 by auto
  note S6 = stage_bookkeeping [OF S5(4) S5(5) S5(6) S5(1) b3' k3 n3]
  note L = assignLinks_frame [of W6]
  have order: "AllS = sectionOrder W"
    unfolding S6(2) S5(2) S4(2) all3
    by (simp add: sectionOrder_def sectionPairs_def flatten_append)
  have pairs: "[] @ ?T @ ?D @ ?R = sectionPairs W"
    by (simp add: sectionPairs_def)
  from L have numW': "\<forall>p. numberOf W' p = numberOf W6 p"
    and infW': "\<forall>p. p \<noteq> SymTab W6 \<longrightarrow> infoOf W' p = infoOf W6 p"
    and rnW': "renumbered W6 W'" and fl: "SectionNumbersAssigned W'"
    unfolding W' by blast+
  have nums: "map (numberOf W') AllS = [0..<length AllS]"
    using S6(4) numW' by (simp cong: map_cong)
  from S6(1) have st6: "SymTab W6 = SymTab W" by (simp add: renumbered_def)
  have "pairsNumbered W6 (sectionPairs W)"
    using S6(5) pairs by simp
  have pn: "pairsNumbered W' (sectionPairs W)"
    unfolding pairsNumbered_def
  proof (intro allI impI)
    fix U R assume inp: "(U, Some R) \<in> set (sectionPairs W)"
    from pair_in_flatten [OF inp] set_flatten_sectionPairs [of W]
    have "R \<in> set (userPointers W) \<union> set (relPointers W)" by auto
    with dist have "R \<noteq> SymTab W"
      by (auto simp add: userPointers_def relPointers_def)
    with infW' st6 have "infoOf W' R = infoOf W6 R" by simp
    with \<open>pairsNumbered W6 (sectionPairs W)\<close> inp numW'
    show "infoOf W' R = numberOf W' U \<and> numberOf W' R = numberOf W' U + 1"
      by (simp add: pairsNumbered_def)
  qed
  from renumbered_trans [OF S6(1) rnW'] na fl order S1(2) S2(2) S3(2) nums pn
  show ?thesis by simp
qed


lemma pairUp_related: "(U, Some R) \<in> set (pairUp rel Us Rs) \<Longrightarrow> rel R = Some U"
  by (induction rel Us Rs rule: pairUp.induct) (auto split: if_splits)

lemma pairUp_fst: "(U, Ro) \<in> set (pairUp rel Us Rs) \<Longrightarrow> U \<in> set Us"
  by (induction rel Us Rs rule: pairUp.induct) (auto split: if_splits)

lemma in_flatten:
  "p \<in> set (flatten ps) \<Longrightarrow> (\<exists>Ro. (p, Ro) \<in> set ps) \<or> (\<exists>U. (U, Some p) \<in> set ps)"
  by (induction ps rule: flatten.induct) auto

lemma flatten_split:
  "(U, Some R) \<in> set ps \<Longrightarrow> \<exists>pre post. flatten ps = pre @ U # R # post"
proof (induction ps rule: flatten.induct)
  case 1
  then show ?case by simp
next
  case (2 V ps)
  then obtain pre post where "flatten ps = pre @ U # R # post" by auto
  then have "flatten ((V, None) # ps) = (V # pre) @ U # R # post" by simp
  then show ?case by blast
next
  case (3 V Q ps)
  show ?case
  proof (cases "(U, Some R) = (V, Some Q)")
    case True
    then have "flatten ((V, Some Q) # ps) = [] @ U # R # flatten ps" by simp
    then show ?thesis by blast
  next
    case False
    with 3 obtain pre post where "flatten ps = pre @ U # R # post" by auto
    then have "flatten ((V, Some Q) # ps) = (V # Q # pre) @ U # R # post" by simp
    then show ?thesis by blast
  qed
qed

lemma sectionPairs_related:
  "(U, Some R) \<in> set (sectionPairs W) \<Longrightarrow> relatedOf W R = Some U"
  by (auto simp add: sectionPairs_def dest: pairUp_related)

lemma sectionPairs_fst: "(U, Ro) \<in> set (sectionPairs W) \<Longrightarrow> U \<in> set (userPointers W)"
  by (auto simp add: sectionPairs_def userPointers_def dest: pairUp_fst)

lemma renumbered_isRelocation:
  "renumbered W W' \<Longrightarrow> isRelocation (getSection W' p) = isRelocation (getSection W p)"
  by (simp add: renumbered_def sameButNumbers_def isRelocation_def)

text \<open>When the numbering returns.\<close>

lemma offsetOf_Some: "s \<in> set xs \<Longrightarrow> \<exists>i. offsetOf s xs acc = Some i"
  by (induction xs arbitrary: acc) auto

lemma getIndex_succeeds:
  "LaidOut t \<Longrightarrow> s = [] \<or> s \<in> set (Strings t) \<Longrightarrow> \<exists>i. getIndex s t = Inr i"
  using offsetOf_Some [of s "Strings t" 1] by (auto simp add: getIndex_def)

lemma renumbered_named: "renumbered W W' \<Longrightarrow> named W' p = named W p"
  by (simp add: renumbered_def sameButNumbers_def named_def)

lemma number_step_succeeds:
  assumes "LaidOut (ShStrTabData W)" "named W P"
  shows "\<exists>W'. assignNameStrIndex P (updSection P (setNumber n) W) = Inr W'"
proof -
  have "renumbered W (updSection P (setNumber n) W)"
    by (rule renumbered_updSection) (simp add: sameButNumbers_def setNumber_def)
  from renumbered_named [OF this, of P] assms(2)
  have "named (updSection P (setNumber n) W) P" by simp
  with getIndex_succeeds [of "ShStrTabData W" "Name (getSection (updSection P (setNumber n) W) P)"]
    assms(1)
  show ?thesis
    by (auto simp add: assignNameStrIndex_def named_def)
qed

lemma assignPairsLoop_succeeds:
  "LaidOut (ShStrTabData W) \<Longrightarrow> \<forall>p \<in> set (Us @ RelIt). named W p \<Longrightarrow>
     \<exists>r. assignPairsLoop Us RelIt Cur AllS W = Inr r"
proof (induction Us arbitrary: RelIt Cur AllS W)
  case Nil
  show ?case by simp
next
  case (Cons U Us)
  from Cons.prems have nU: "named W U" by simp
  from number_step_succeeds [OF Cons.prems(1) nU, of Cur] obtain W1 where
    s1: "assignNameStrIndex U (updSection U (setNumber Cur) W) = Inr W1" by (elim exE)
  note N = number_step(1) [OF s1]
  from N Cons.prems(1) have L1: "LaidOut (ShStrTabData W1)" by (simp add: renumbered_def)
  have n1: "\<forall>p \<in> set (Us @ RelIt). named W1 p"
    using Cons.prems(2) by (simp add: renumbered_named [OF N])
  show ?case
  proof (cases RelIt)
    case Nil
    with Cons.IH [OF L1, of "[]" "Cur + 1" "AllS @ [U]"] n1 s1 show ?thesis by simp
  next
    case (Cons R Rs)
    show ?thesis
    proof (cases "RelatedSection (getSection W1 R) = Some U")
      case True
      let ?W1' = "updSection R (setInfoNum (Number (getSection W1 U))) W1"
      have rn: "renumbered W1 ?W1'"
        by (rule renumbered_updSection) (simp add: sameButNumbers_def setInfoNum_def)
      from rn L1 have L1': "LaidOut (ShStrTabData ?W1')" by (simp add: renumbered_def)
      from n1 Cons have "named ?W1' R" by (simp add: renumbered_named [OF rn])
      from number_step_succeeds [OF L1' this, of "Cur + 1"] obtain W2 where
        s2: "assignNameStrIndex R (updSection R (setNumber (Cur + 1)) ?W1') = Inr W2"
        by (elim exE)
      note M = renumbered_trans [OF rn number_step(1) [OF s2]]
      from M L1 have L2: "LaidOut (ShStrTabData W2)" by (simp add: renumbered_def)
      have n2: "\<forall>p \<in> set (Us @ Rs). named W2 p"
        using n1 Cons by (simp add: renumbered_named [OF M])
      from \<open>\<And>RelIt Cur AllS W. LaidOut (ShStrTabData W) \<Longrightarrow> \<forall>p\<in>set (Us @ RelIt). named W p
          \<Longrightarrow> \<exists>r. assignPairsLoop Us RelIt Cur AllS W = Inr r\<close> [OF L2 n2, of "Cur + 2" "AllS @ [U, R]"]
        s1 s2 Cons True show ?thesis by simp
    next
      case False
      with \<open>\<And>RelIt Cur AllS W. LaidOut (ShStrTabData W) \<Longrightarrow> \<forall>p\<in>set (Us @ RelIt). named W p
          \<Longrightarrow> \<exists>r. assignPairsLoop Us RelIt Cur AllS W = Inr r\<close> [OF L1 n1, of "Cur + 1" "AllS @ [U]"]
        s1 Cons show ?thesis by simp
    qed
  qed
qed

subsection \<open>The order and the numbers of the sections\<close>

lemma stage_pairs_succeeds:
  assumes rn: "renumbered W W1" and L: "LaidOut (ShStrTabData W)"
    and nm: "\<forall>p \<in> set (Us @ Rs). named W p" and d: "distinct (Us @ Rs)"
    and r: "\<forall>p \<in> set (Us @ Rs). p < length (Sections W)"
    and u: "unpaired (relatedOf W) Us Rs = []"
  shows "\<exists>Cur' AllS' W2. assignRelSectionNumInPairs Cur Us Rs AllS W1 = Inr (Cur', AllS', W2) \<and>
           renumbered W W2"
proof -
  from rn L have L1: "LaidOut (ShStrTabData W1)" by (simp add: renumbered_def)
  from nm have n1: "\<forall>p \<in> set (Us @ Rs). named W1 p"
    by (simp add: renumbered_named [OF rn])
  from rn r have r1: "\<forall>p \<in> set (Us @ Rs). p < length (Sections W1)"
    by (simp add: renumbered_def)
  have rel: "\<forall>p. relatedOf W1 p = relatedOf W p"
    by (simp add: renumbered_relatedOf [OF rn])
  from assignPairsLoop_succeeds [OF L1 n1, of Cur AllS] obtain RelIt' Cur' AllS' W2 where
    lp: "assignPairsLoop Us Rs Cur AllS W1 = Inr (RelIt', Cur', AllS', W2)"
    by (metis prod_cases4)
  note S = assignPairsLoop_Inr [OF lp d r1 rel]
  from S u have e: "RelIt' = []" by simp
  from S have "renumbered W1 W2" by blast
  from renumbered_trans [OF rn this] lp e show ?thesis
    by (simp add: assignRelSectionNumInPairs_def)
qed

lemma stage_bookkeeping_succeeds:
  assumes rn: "renumbered W W1" and L: "LaidOut (ShStrTabData W)" and nm: "named W P"
  shows "\<exists>Cur' AllS' W2. assignBookkeeping P Cur AllS W1 = Inr (Cur', AllS', W2) \<and>
           renumbered W W2"
proof -
  from rn L have L1: "LaidOut (ShStrTabData W1)" by (simp add: renumbered_def)
  from nm have n1: "named W1 P" by (simp add: renumbered_named [OF rn])
  from number_step_succeeds [OF L1 n1, of Cur] obtain W2 where
    s: "assignNameStrIndex P (updSection P (setNumber Cur) W1) = Inr W2" by (elim exE)
  from renumbered_trans [OF rn number_step(1) [OF s]] s show ?thesis
    by (simp add: assignBookkeeping_def)
qed

lemma assignSectionNumbersInfo_succeeds:
  assumes wf: "wellFormed W" and na: "\<not> SectionNumbersAssigned W"
    and L: "LaidOut (ShStrTabData W)"
    and nm: "\<forall>p \<in> set (bookkeepingPointers W @ userPointers W @ relPointers W). named W p"
    and u1: "unpaired (relatedOf W) (TextSections W) (RelTextSections W) = []"
    and u2: "unpaired (relatedOf W) (DataSections W) (RelDataSections W) = []"
    and u3: "unpaired (relatedOf W) (RoDataSections W) (RelRoDataSections W) = []"
  shows "\<exists>AllS W'. assignSectionNumbersInfo W = Inr (AllS, W')"
proof -
  let ?W0 = "updSection (NullSection W) (setNumber 0) W"
  from wf have dist: "distinct ([NullSection W, ShStrTab W, SymTab W, StrTab W]
      @ (TextSections W @ DataSections W @ RoDataSections W)
      @ (RelTextSections W @ RelDataSections W @ RelRoDataSections W))"
    and rng: "\<forall>p \<in> set ([NullSection W, ShStrTab W, SymTab W, StrTab W]
      @ (TextSections W @ DataSections W @ RoDataSections W)
      @ (RelTextSections W @ RelDataSections W @ RelRoDataSections W)). p < length (Sections W)"
    by (simp_all add: wellFormed_def bookkeepingPointers_def userPointers_def relPointers_def)
  from nm have nms: "\<forall>p \<in> set ([NullSection W, ShStrTab W, SymTab W, StrTab W]
      @ (TextSections W @ DataSections W @ RoDataSections W)
      @ (RelTextSections W @ RelDataSections W @ RelRoDataSections W)). named W p"
    by (simp add: bookkeepingPointers_def userPointers_def relPointers_def)
  have rn0: "renumbered W ?W0"
    by (rule renumbered_updSection) (simp add: sameButNumbers_def setNumber_def)
  have n1: "\<forall>p \<in> set (TextSections W @ RelTextSections W). named W p" using nms by auto
  have d1: "distinct (TextSections W @ RelTextSections W)" using dist by auto
  have r1: "\<forall>p \<in> set (TextSections W @ RelTextSections W). p < length (Sections W)"
    using rng by auto
  from stage_pairs_succeeds [OF rn0 L n1 d1 r1 u1, of 1 "[NullSection W]"]
  obtain Cur1 All1 W1 where
    l1: "assignRelSectionNumInPairs 1 (TextSections W) (RelTextSections W) [NullSection W] ?W0
           = Inr (Cur1, All1, W1)" and rn1: "renumbered W W1"
    by (elim exE conjE)
  have n2: "\<forall>p \<in> set (DataSections W @ RelDataSections W). named W p" using nms by auto
  have d2: "distinct (DataSections W @ RelDataSections W)" using dist by auto
  have r2: "\<forall>p \<in> set (DataSections W @ RelDataSections W). p < length (Sections W)"
    using rng by auto
  from stage_pairs_succeeds [OF rn1 L n2 d2 r2 u2, of Cur1 All1]
  obtain Cur2 All2 W2 where
    l2: "assignRelSectionNumInPairs Cur1 (DataSections W) (RelDataSections W) All1 W1
           = Inr (Cur2, All2, W2)" and rn2: "renumbered W W2"
    by (elim exE conjE)
  have n3: "\<forall>p \<in> set (RoDataSections W @ RelRoDataSections W). named W p" using nms by auto
  have d3: "distinct (RoDataSections W @ RelRoDataSections W)" using dist by auto
  have r3: "\<forall>p \<in> set (RoDataSections W @ RelRoDataSections W). p < length (Sections W)"
    using rng by auto
  from stage_pairs_succeeds [OF rn2 L n3 d3 r3 u3, of Cur2 All2]
  obtain Cur3 All3 W3 where
    l3: "assignRelSectionNumInPairs Cur2 (RoDataSections W) (RelRoDataSections W) All2 W2
           = Inr (Cur3, All3, W3)" and rn3: "renumbered W W3"
    by (elim exE conjE)
  have k1: "named W (ShStrTab W)" and k2: "named W (SymTab W)" and k3: "named W (StrTab W)"
    using nms by simp_all
  from stage_bookkeeping_succeeds [OF rn3 L k1, of Cur3 All3]
  obtain Cur4 All4 W4 where
    b1: "assignBookkeeping (ShStrTab W) Cur3 All3 W3 = Inr (Cur4, All4, W4)"
    and rn4: "renumbered W W4"
    by (elim exE conjE)
  from stage_bookkeeping_succeeds [OF rn4 L k2, of Cur4 All4]
  obtain Cur5 All5 W5 where
    b2: "assignBookkeeping (SymTab W) Cur4 All4 W4 = Inr (Cur5, All5, W5)"
    and rn5: "renumbered W W5"
    by (elim exE conjE)
  from stage_bookkeeping_succeeds [OF rn5 L k3, of Cur5 All5]
  obtain Cur6 All6 W6 where
    b3: "assignBookkeeping (StrTab W) Cur5 All5 W5 = Inr (Cur6, All6, W6)"
    and rn6: "renumbered W W6"
    by (elim exE conjE)
  from rn1 have e1: "DataSections W1 = DataSections W" "RelDataSections W1 = RelDataSections W"
    by (simp_all add: renumbered_def)
  from rn2 have e2: "RoDataSections W2 = RoDataSections W"
    "RelRoDataSections W2 = RelRoDataSections W"
    by (simp_all add: renumbered_def)
  from rn3 have e3: "ShStrTab W3 = ShStrTab W" by (simp add: renumbered_def)
  from rn4 have e4: "SymTab W4 = SymTab W" by (simp add: renumbered_def)
  from rn5 have e5: "StrTab W5 = StrTab W" by (simp add: renumbered_def)
  from na l1 l2 l3 b1 b2 b3 show ?thesis
    by (simp add: assignSectionNumbersInfo_def Let_def e1 e2 e3 e4 e5)
qed

text \<open>
  Claim C1: for a well-formed writer, when \<open>assignSectionNumbersInfo\<close> returns, AllSections
  is the null section, then the user sections of the buckets Text, Data and RoData in
  their order, each followed at once by the relocation section at the front of its
  relocation bucket when that one relates to it, then .shstrtab, .symtab and .strtab; no
  relocation section is left over; the numbers of the sections of AllSections are 0, 1,
  2, ... in this order; a relocation section paired with a user section has the number
  after that of the user section and the number of the user section as its sh_info.
  Consequently every relocation section R of AllSections has the number sh_info + 1 and
  stands right after its related user section, whose number is R's sh_info. The call
  returns when the numbers are not yet assigned, .shstrtab is laid out and holds the
  names of the sections, and the relocation buckets pair up with the user buckets.
\<close>

theorem assignSectionNumbersInfo_order:
  "(wellFormed W \<longrightarrow> assignSectionNumbersInfo W = Inr (AllS, W') \<longrightarrow>
      AllS = NullSection W
               # flatten (pairUp (relatedOf W) (TextSections W) (RelTextSections W))
               @ flatten (pairUp (relatedOf W) (DataSections W) (RelDataSections W))
               @ flatten (pairUp (relatedOf W) (RoDataSections W) (RelRoDataSections W))
               @ [ShStrTab W, SymTab W, StrTab W] \<and>
      unpaired (relatedOf W) (TextSections W) (RelTextSections W) = [] \<and>
      unpaired (relatedOf W) (DataSections W) (RelDataSections W) = [] \<and>
      unpaired (relatedOf W) (RoDataSections W) (RelRoDataSections W) = [] \<and>
      map (numberOf W') AllS = [0..<length AllS] \<and>
      (\<forall>U R. (U, Some R) \<in> set (sectionPairs W) \<longrightarrow>
         relatedOf W R = Some U \<and> infoOf W' R = numberOf W' U \<and>
         numberOf W' R = numberOf W' U + 1) \<and>
      (\<forall>R \<in> set AllS. isRelocation (getSection W' R) \<longrightarrow>
         numberOf W' R = infoOf W' R + 1 \<and>
         (\<exists>pre U post. AllS = pre @ U # R # post \<and> relatedOf W' R = Some U \<and>
            \<not> isRelocation (getSection W' U) \<and> numberOf W' U = infoOf W' R))) \<and>
   (wellFormed W \<longrightarrow> \<not> SectionNumbersAssigned W \<longrightarrow> LaidOut (ShStrTabData W) \<longrightarrow>
    (\<forall>p \<in> set (bookkeepingPointers W @ userPointers W @ relPointers W). named W p) \<longrightarrow>
    unpaired (relatedOf W) (TextSections W) (RelTextSections W) = [] \<longrightarrow>
    unpaired (relatedOf W) (DataSections W) (RelDataSections W) = [] \<longrightarrow>
    unpaired (relatedOf W) (RoDataSections W) (RelRoDataSections W) = [] \<longrightarrow>
      (\<exists>r. assignSectionNumbersInfo W = Inr r))"
proof (intro conjI impI)
  assume "wellFormed W" "\<not> SectionNumbersAssigned W" "LaidOut (ShStrTabData W)"
    "\<forall>p \<in> set (bookkeepingPointers W @ userPointers W @ relPointers W). named W p"
    "unpaired (relatedOf W) (TextSections W) (RelTextSections W) = []"
    "unpaired (relatedOf W) (DataSections W) (RelDataSections W) = []"
    "unpaired (relatedOf W) (RoDataSections W) (RelRoDataSections W) = []"
  from assignSectionNumbersInfo_succeeds [OF this]
  show "\<exists>r. assignSectionNumbersInfo W = Inr r" by auto
next
  assume wf: "wellFormed W" and ok: "assignSectionNumbersInfo W = Inr (AllS, W')"
  note A = assignSectionNumbersInfo_Inr [OF wf ok]
  from A have rn: "renumbered W W'" and order: "AllS = sectionOrder W"
    and nums: "map (numberOf W') AllS = [0..<length AllS]"
    and pn: "pairsNumbered W' (sectionPairs W)"
    by blast+
  from order show "AllS = NullSection W
               # flatten (pairUp (relatedOf W) (TextSections W) (RelTextSections W))
               @ flatten (pairUp (relatedOf W) (DataSections W) (RelDataSections W))
               @ flatten (pairUp (relatedOf W) (RoDataSections W) (RelRoDataSections W))
               @ [ShStrTab W, SymTab W, StrTab W]"
    by (simp add: sectionOrder_def sectionPairs_def flatten_append)
  from A show "unpaired (relatedOf W) (TextSections W) (RelTextSections W) = []" by blast
  from A show "unpaired (relatedOf W) (DataSections W) (RelDataSections W) = []" by blast
  from A show "unpaired (relatedOf W) (RoDataSections W) (RelRoDataSections W) = []" by blast
  from nums show "map (numberOf W') AllS = [0..<length AllS]" .
  from pn show pairs: "\<forall>U R. (U, Some R) \<in> set (sectionPairs W) \<longrightarrow>
         relatedOf W R = Some U \<and> infoOf W' R = numberOf W' U \<and>
         numberOf W' R = numberOf W' U + 1"
    by (simp add: pairsNumbered_def sectionPairs_related)
  show "\<forall>R \<in> set AllS. isRelocation (getSection W' R) \<longrightarrow>
         numberOf W' R = infoOf W' R + 1 \<and>
         (\<exists>pre U post. AllS = pre @ U # R # post \<and> relatedOf W' R = Some U \<and>
            \<not> isRelocation (getSection W' U) \<and> numberOf W' U = infoOf W' R)"
  proof (intro ballI impI)
    fix R assume Rin: "R \<in> set AllS" and rel: "isRelocation (getSection W' R)"
    from rel have relW: "isRelocation (getSection W R)"
      by (simp add: renumbered_isRelocation [OF rn])
    from wf have nb: "\<forall>p \<in> set (bookkeepingPointers W @ userPointers W).
        \<not> isRelocation (getSection W p)"
      by (simp add: wellFormed_def)
    from nb relW have "R \<notin> set (bookkeepingPointers W)" "R \<notin> set (userPointers W)"
      by auto
    with Rin order have "R \<in> set (flatten (sectionPairs W))"
      by (auto simp add: sectionOrder_def bookkeepingPointers_def)
    from in_flatten [OF this] \<open>R \<notin> set (userPointers W)\<close>
    obtain U where UR: "(U, Some R) \<in> set (sectionPairs W)"
      by (auto dest: sectionPairs_fst)
    from pairs UR have p: "relatedOf W R = Some U" "infoOf W' R = numberOf W' U"
      "numberOf W' R = numberOf W' U + 1"
      by blast+
    from flatten_split [OF UR] obtain pre post where
      "flatten (sectionPairs W) = pre @ U # R # post" by (elim exE)
    with order have sp: "AllS = (NullSection W # pre) @ U # R
        # (post @ [ShStrTab W, SymTab W, StrTab W])"
      by (simp add: sectionOrder_def)
    from sectionPairs_fst [OF UR] nb have "\<not> isRelocation (getSection W U)" by simp
    then have nU: "\<not> isRelocation (getSection W' U)"
      by (simp add: renumbered_isRelocation [OF rn])
    from p(1) have "relatedOf W' R = Some U"
      by (simp add: renumbered_relatedOf [OF rn])
    with sp nU p show "numberOf W' R = infoOf W' R + 1 \<and>
         (\<exists>pre U post. AllS = pre @ U # R # post \<and> relatedOf W' R = Some U \<and>
            \<not> isRelocation (getSection W' U) \<and> numberOf W' U = infoOf W' R)"
      by (intro conjI exI [of _ "NullSection W # pre"] exI [of _ U]
            exI [of _ "post @ [ShStrTab W, SymTab W, StrTab W]"]) simp_all
  qed
qed

lemma exampleSections_wellFormed: "wellFormed exampleSections"
  by (simp add: wellFormed_def exampleSections_def bookkeepingPointers_def userPointers_def
        relPointers_def isRelocation_def getSection_def newELFSection_def SHT_NULL_def
        SHT_STRTAB_def SHT_SYMTAB_def SHT_PROGBITS_def SHT_RELA_def SHT_REL_def)

lemma exampleSections_pairs:
  "sectionPairs exampleSections = [(4, Some 5), (6, None)]"
  "unpaired (relatedOf exampleSections) (TextSections exampleSections)
     (RelTextSections exampleSections) = []"
  "unpaired (relatedOf exampleSections) (DataSections exampleSections)
     (RelDataSections exampleSections) = []"
  "unpaired (relatedOf exampleSections) (RoDataSections exampleSections)
     (RelRoDataSections exampleSections) = []"
  by (simp_all add: sectionPairs_def relatedOf_def getSection_def exampleSections_def)

lemma exampleSections_order: "sectionOrder exampleSections = [0, 4, 5, 6, 1, 2, 3]"
  unfolding sectionOrder_def exampleSections_pairs(1)
  by (simp add: exampleSections_def)

lemma exampleNumbered_eq:
  "assignSectionNumbersInfo exampleSections = Inr exampleNumbered"
proof -
  have "\<forall>p \<in> set (bookkeepingPointers exampleSections @ userPointers exampleSections
      @ relPointers exampleSections). named exampleSections p"
    by (simp add: named_def exampleSections_def bookkeepingPointers_def userPointers_def
          relPointers_def getSection_def newELFSection_def)
  from assignSectionNumbersInfo_succeeds [OF exampleSections_wellFormed _ _ this
      exampleSections_pairs(2,3,4)]
  show ?thesis
    by (auto simp add: exampleNumbered_def exampleSections_def)
qed

theorem assignSectionNumbersInfo_order_witness:
  "wellFormed exampleSections \<and>
   assignSectionNumbersInfo exampleSections = Inr exampleNumbered \<and>
   fst exampleNumbered = [0, 4, 5, 6, 1, 2, 3] \<and>
   map (numberOf (snd exampleNumbered)) [0, 4, 5, 6, 1, 2, 3] = [0, 1, 2, 3, 4, 5, 6] \<and>
   isRelocation (getSection (snd exampleNumbered) 5) \<and>
   relatedOf exampleSections 5 = Some 4 \<and>
   infoOf (snd exampleNumbered) 5 = 1 \<and> numberOf (snd exampleNumbered) 5 = 2"
proof -
  have e: "assignSectionNumbersInfo exampleSections
             = Inr (fst exampleNumbered, snd exampleNumbered)"
    using exampleNumbered_eq by simp
  note T = assignSectionNumbersInfo_order
    [of exampleSections "fst exampleNumbered" "snd exampleNumbered", THEN conjunct1, rule_format,
     OF exampleSections_wellFormed e]
  from T have "fst exampleNumbered = NullSection exampleSections
      # flatten (pairUp (relatedOf exampleSections) (TextSections exampleSections)
                  (RelTextSections exampleSections))
      @ flatten (pairUp (relatedOf exampleSections) (DataSections exampleSections)
                  (RelDataSections exampleSections))
      @ flatten (pairUp (relatedOf exampleSections) (RoDataSections exampleSections)
                  (RelRoDataSections exampleSections))
      @ [ShStrTab exampleSections, SymTab exampleSections, StrTab exampleSections]"
    by blast
  then have "fst exampleNumbered = sectionOrder exampleSections"
    by (simp add: sectionOrder_def sectionPairs_def flatten_append)
  then have order: "fst exampleNumbered = [0, 4, 5, 6, 1, 2, 3]"
    by (simp add: exampleSections_order)
  from T have "map (numberOf (snd exampleNumbered)) (fst exampleNumbered)
      = [0..<length (fst exampleNumbered)]" by blast
  then have nums: "map (numberOf (snd exampleNumbered)) [0, 4, 5, 6, 1, 2, 3]
      = [0, 1, 2, 3, 4, 5, 6]"
    unfolding order by (simp add: upt_rec)
  from T have "\<forall>U R. (U, Some R) \<in> set (sectionPairs exampleSections) \<longrightarrow>
         relatedOf exampleSections R = Some U \<and>
         infoOf (snd exampleNumbered) R = numberOf (snd exampleNumbered) U \<and>
         numberOf (snd exampleNumbered) R = numberOf (snd exampleNumbered) U + 1" by blast
  then have p: "relatedOf exampleSections 5 = Some 4"
    "infoOf (snd exampleNumbered) 5 = numberOf (snd exampleNumbered) 4"
    "numberOf (snd exampleNumbered) 5 = numberOf (snd exampleNumbered) 4 + 1"
    by (simp_all add: exampleSections_pairs)
  from nums have n4: "numberOf (snd exampleNumbered) 4 = 1" by simp
  from assignSectionNumbersInfo_Inr [OF exampleSections_wellFormed e]
  have "renumbered exampleSections (snd exampleNumbered)" by blast
  from renumbered_isRelocation [OF this, of 5]
  have r: "isRelocation (getSection (snd exampleNumbered) 5)"
    by (simp add: exampleSections_def getSection_def isRelocation_def newELFSection_def)
  from exampleSections_wellFormed exampleNumbered_eq order nums r p n4 show ?thesis
    by simp
qed

subsection \<open>The layout of the remaining sections\<close>

lemma sameFixed_refl [simp]: "sameFixed S S"
  by (simp add: sameFixed_def)

lemma relaid_refl [simp]: "relaid W W"
  by (simp add: relaid_def sameFixed_def)



lemma placed_refl [simp]: "placed P W W"
  by (simp add: placed_def)


lemma placed_mono: "placed P W W' \<Longrightarrow> P \<subseteq> Q \<Longrightarrow> placed Q W W'"
  by (auto simp add: placed_def)





lemma placed_SymTabData [simp]: "placed {} W (W\<lparr>SymTabData := t\<rparr>)"
  by (simp add: placed_def relaid_def getSection_def numberOf_def sameFixed_def)





















lemma relaid_sectionPairs: "relaid W W' \<Longrightarrow> sectionPairs W' = sectionPairs W"
proof -
  assume r: "relaid W W'"
  then have "relatedOf W' = relatedOf W"
    by (intro ext) (simp add: relatedOf_def relaid_def sameFixed_def)
  with r show ?thesis
    by (simp add: sectionPairs_def relaid_def)
qed



lemma placed_pairsNumbered:
  assumes "placed P W W'" "pairsNumbered W ps" "SymTab W \<notin> set (flatten ps)"
    and info: "\<forall>p. p \<noteq> SymTab W \<longrightarrow> infoOf W' p = infoOf W p"
  shows "pairsNumbered W' ps"
  unfolding pairsNumbered_def
proof (intro allI impI)
  fix U R assume inp: "(U, Some R) \<in> set ps"
  from pair_in_flatten [OF inp] assms(3) have "R \<noteq> SymTab W" by auto
  with info have "infoOf W' R = infoOf W R" by simp
  moreover from assms(1) have "numberOf W' U = numberOf W U" "numberOf W' R = numberOf W R"
    by (simp_all add: placed_def)
  ultimately show "infoOf W' R = numberOf W' U \<and> numberOf W' R = numberOf W' U + 1"
    using assms(2) inp by (simp add: pairsNumbered_def)
qed


subsection \<open>What the layout needs of a run\<close>

lemma Strings_add [simp]: "set (Strings (add s t)) = insert s (set (Strings t))"
  by (auto simp add: add_def)





lemma registered_Str [simp]: "registered (W\<lparr>Str := s\<rparr>) = registered W"
  by (simp add: registered_def named_def getSection_def)





















subsection \<open>The section count of the header\<close>










end
